(* ===== verification/AVOS_Prelude.thy ===== *)
theory AVOS_Prelude
  imports Main "HOL-Library.Word"
begin

text \<open>
  Shared vocabulary of the development: the fixed-width integer types of the C sources, results
  that may fault, the byte-addressed memory with its little-endian 16, 32 and 64 bit accesses, and
  the generic lemmas on words, memory and lists that the component theories use.

  Collections: \<open>res_simps\<close> (sequencing of results), \<open>mem_simps\<close> (loads after
  stores), \<open>unat_simps\<close> (from words to natural numbers).
\<close>

unbundle bit_operations_syntax

named_theorems res_simps "sequencing of faulting computations"
named_theorems mem_simps "loads after stores"
named_theorems unat_simps "from machine words to natural numbers"

section \<open>Integer types of the C sources\<close>

type_synonym u8 = "8 word"
type_synonym u16 = "16 word"
type_synonym u32 = "32 word"
type_synonym u64 = "64 word"

section \<open>Results\<close>

text \<open>
  A C function has no defined result when it spins for ever on a lock nobody releases, loops for
  ever, or touches an array outside its bounds. These outcomes are values of \<open>fault\<close>.
\<close>

datatype fault = Spins_Forever | Out_Of_Bounds | Loops_Forever | Null_Call

type_synonym 'a result = "fault + 'a"

definition res_bind :: "'a result \<Rightarrow> ('a \<Rightarrow> 'b result) \<Rightarrow> 'b result" where
  "res_bind r f = (case r of Inl e \<Rightarrow> Inl e | Inr x \<Rightarrow> f x)"

definition res_guard :: "bool \<Rightarrow> fault \<Rightarrow> unit result" where
  "res_guard b e = (if b then Inr () else Inl e)"

lemma res_bind_Inl [simp, res_simps]: "res_bind (Inl e) f = Inl e"
  by (simp add: res_bind_def)

lemma res_bind_Inr [simp, res_simps]: "res_bind (Inr x) f = f x"
  by (simp add: res_bind_def)

lemma res_bind_eq_Inr [res_simps]:
  "res_bind r f = Inr y \<longleftrightarrow> (\<exists>x. r = Inr x \<and> f x = Inr y)"
  by (cases r) simp_all

lemma res_bind_assoc: "res_bind (res_bind r f) g = res_bind r (\<lambda>x. res_bind (f x) g)"
  by (cases r) simp_all

lemma res_bindE: "res_bind r f = Inr y \<Longrightarrow> (\<And>x. r = Inr x \<Longrightarrow> f x = Inr y \<Longrightarrow> P) \<Longrightarrow> P"
  by (cases r) simp_all

lemma res_bind_cong [fundef_cong]:
  "r = r' \<Longrightarrow> (\<And>x. r' = Inr x \<Longrightarrow> f x = g x) \<Longrightarrow> res_bind r f = res_bind r' g"
  by (cases r') simp_all

lemma res_guard_True [simp, res_simps]: "b \<Longrightarrow> res_guard b e = Inr ()"
  by (simp add: res_guard_def)

lemma res_guard_False [simp, res_simps]: "\<not> b \<Longrightarrow> res_guard b e = Inl e"
  by (simp add: res_guard_def)

lemma res_guard_eq_Inr [res_simps]: "res_guard b e = Inr u \<longleftrightarrow> b"
  by (simp add: res_guard_def)

section \<open>Words\<close>

lemma unat_add_lt [unat_simps]:
  "unat a + unat b < 2 ^ LENGTH('a) \<Longrightarrow> unat (a + b) = unat a + unat (b :: 'a::len word)"
  by (simp add: unat_word_ariths)

lemma unat_2_power [unat_simps]:
  assumes "n < LENGTH('a)"
  shows "unat (2 ^ n :: 'a::len word) = 2 ^ n"
proof -
  have "unat (of_nat (2 ^ n) :: 'a word) = 2 ^ n"
    using assms by (simp only: unat_of_nat) simp
  then show ?thesis by simp
qed

lemma word_loop_measure: "i < n \<Longrightarrow> unat (n - (i + 1)) < unat (n - i :: 'a::len word)"
  using measure_unat [of "n - i"] by (auto simp: algebra_simps)

lemma unat_u32_lt: "unat (a :: u32) < 4294967296"
  using unsigned_less [of a] by simp

lemma unat_u16_lt: "unat (a :: u16) < 65536"
  using unsigned_less [of a] by simp

lemma unat_u8_lt: "unat (a :: u8) < 256"
  using unsigned_less [of a] by simp

lemma unat_u32_of_nat: "X < 2 ^ 32 \<Longrightarrow> unat (of_nat X :: u32) = X"
  by (simp add: unat_of_nat)

lemma unat_u64_of_nat: "X < 2 ^ 64 \<Longrightarrow> unat (of_nat X :: u64) = X"
  by (simp add: unat_of_nat)

section \<open>Byte-addressed memory\<close>

text \<open>
  Memory maps a 32-bit address to a byte; multi-byte values are little-endian, as on the x86 the
  sources are written for, and addresses wrap around at the top of the address space.
\<close>

type_synonym memory = "u32 \<Rightarrow> u8"

definition load16 :: "memory \<Rightarrow> u32 \<Rightarrow> u16" where
  "load16 m a = ucast (m a) OR push_bit 8 (ucast (m (a + 1)))"

definition store16 :: "memory \<Rightarrow> u32 \<Rightarrow> u16 \<Rightarrow> memory" where
  "store16 m a v = m(a := ucast v, a + 1 := ucast (drop_bit 8 v))"

definition load32 :: "memory \<Rightarrow> u32 \<Rightarrow> u32" where
  "load32 m a = ucast (m a) OR push_bit 8 (ucast (m (a + 1)))
     OR push_bit 16 (ucast (m (a + 2))) OR push_bit 24 (ucast (m (a + 3)))"

definition store32 :: "memory \<Rightarrow> u32 \<Rightarrow> u32 \<Rightarrow> memory" where
  "store32 m a v = m(a := ucast v, a + 1 := ucast (drop_bit 8 v),
     a + 2 := ucast (drop_bit 16 v), a + 3 := ucast (drop_bit 24 v))"

definition load64 :: "memory \<Rightarrow> u32 \<Rightarrow> u64" where
  "load64 m a = ucast (load32 m a) OR push_bit 32 (ucast (load32 m (a + 4)))"

definition store64 :: "memory \<Rightarrow> u32 \<Rightarrow> u64 \<Rightarrow> memory" where
  "store64 m a v = store32 (store32 m a (ucast v)) (a + 4) (ucast (drop_bit 32 v))"

lemma load32_store32_same [simp, mem_simps]: "load32 (store32 m a v) a = v"
proof (rule bit_word_eqI)
  fix n assume "n < LENGTH(32)"
  then consider "n < 8" | "8 \<le> n" "n < 16" | "16 \<le> n" "n < 24" | "24 \<le> n" "n < 32" by fastforce
  then show "bit (load32 (store32 m a v) a) n = bit v n"
    by cases (auto simp: load32_def store32_def bit_simps)
qed

lemma load16_store16_same [simp, mem_simps]: "load16 (store16 m a v) a = v"
  unfolding load16_def store16_def
  by (rule bit_word_eqI) (auto simp: bit_simps)

lemma store32_other:
  "b \<noteq> a \<Longrightarrow> b \<noteq> a + 1 \<Longrightarrow> b \<noteq> a + 2 \<Longrightarrow> b \<noteq> a + 3 \<Longrightarrow> store32 m a v b = m b"
  by (simp add: store32_def)

text \<open>Word-aligned accesses do not overlap unless they are the same.\<close>

definition aligned4 :: "u32 \<Rightarrow> bool" where
  "aligned4 a \<longleftrightarrow> unat a mod 4 = 0"

lemma unat_aligned4_add:
  assumes "aligned4 a" and "i < 4"
  shows "unat (a + of_nat i) = unat a + i"
proof -
  have "unat a < 4294967296" by (rule unat_u32_lt)
  with assms have "unat a + i < 4294967296"
    unfolding aligned4_def by presburger
  moreover have "unat (of_nat i :: u32) = i"
    using assms(2) by (simp add: unat_of_nat)
  ultimately show ?thesis by (simp add: unat_word_ariths)
qed

lemma aligned4_add_eq:
  assumes "aligned4 a" and "aligned4 b" and "i < 4" and "j < 4"
    and "a + of_nat i = b + of_nat j"
  shows "a = b \<and> i = j"
proof -
  have "unat a + i = unat b + j"
    using assms(5) unat_aligned4_add [OF assms(1,3)] unat_aligned4_add [OF assms(2,4)] by simp
  with assms(1-4) have "unat a = unat b" and "i = j"
    unfolding aligned4_def by presburger+
  then show ?thesis by (simp add: word_unat_eq_iff)
qed

lemma aligned4_numerals [simp]:
  "aligned4 0" "aligned4 4"
  by (simp_all add: aligned4_def)

lemma load32_cong:
  "m a = m' a \<Longrightarrow> m (a + 1) = m' (a + 1) \<Longrightarrow> m (a + 2) = m' (a + 2) \<Longrightarrow> m (a + 3) = m' (a + 3)
    \<Longrightarrow> load32 m a = load32 m' a"
  by (simp add: load32_def)

lemma store32_aligned_other:
  assumes "aligned4 a" and "aligned4 b" and "a \<noteq> b" and "i < 4"
  shows "store32 m b v (a + of_nat i) = m (a + of_nat i)"
proof (rule store32_other)
  show "a + of_nat i \<noteq> b" using aligned4_add_eq [of a b i 0] assms by auto
  show "a + of_nat i \<noteq> b + 1" using aligned4_add_eq [of a b i 1] assms by auto
  show "a + of_nat i \<noteq> b + 2" using aligned4_add_eq [of a b i 2] assms by auto
  show "a + of_nat i \<noteq> b + 3" using aligned4_add_eq [of a b i 3] assms by auto
qed

lemma load32_store32_other [mem_simps]:
  assumes "aligned4 a" and "aligned4 b" and "a \<noteq> b"
  shows "load32 (store32 m b v) a = load32 m a"
  by (rule load32_cong)
    (use store32_aligned_other [OF assms, of 0] store32_aligned_other [OF assms, of 1]
       store32_aligned_other [OF assms, of 2] store32_aligned_other [OF assms, of 3] in simp_all)

section \<open>Lists with an end marker\<close>

text \<open>The first and the last element of a list, or a marker when the list is empty.\<close>

definition hd_or :: "'a \<Rightarrow> 'a list \<Rightarrow> 'a" where
  "hd_or t xs = (case xs of [] \<Rightarrow> t | x # _ \<Rightarrow> x)"

definition last_or :: "'a \<Rightarrow> 'a list \<Rightarrow> 'a" where
  "last_or t xs = (if xs = [] then t else last xs)"

lemma hd_or_simps [simp]: "hd_or t [] = t" "hd_or t (x # xs) = x"
  by (simp_all add: hd_or_def)

lemma last_or_simps [simp]: "last_or t [] = t" "last_or t (x # xs) = last_or x xs"
  by (simp_all add: last_or_def)

lemma hd_or_append: "hd_or t (xs @ ys) = hd_or (hd_or t ys) xs"
  by (cases xs) simp_all

lemma last_or_snoc [simp]: "last_or t (xs @ [x]) = x"
  by (simp add: last_or_def)

section \<open>Ports\<close>

text \<open>
  The port instructions are assembly. Code that uses them takes them as an argument, over a state
  \<open>'d\<close> of the devices behind the ports.
\<close>

record 'd ports =
  Inb :: "u16 \<Rightarrow> 'd \<Rightarrow> u8 \<times> 'd"
  Outb :: "u16 \<Rightarrow> u8 \<Rightarrow> 'd \<Rightarrow> 'd"

end
