(* ===== verification/AVOS_Setup.thy ===== *)
theory AVOS_Setup
  imports AVOS_Prelude
begin

text \<open>
  The kernel's memory layout and sizes (\<open>kernel/core/setup/include/setup.h\<close>) and the
  conversion between physical and higher-half kernel addresses.
\<close>

definition KERNEL_HIGHER_HALF_OFFSET :: u32 where "KERNEL_HIGHER_HALF_OFFSET = 0x80000000"
definition KERNEL_MMAP_VIRTUAL_START :: u32 where "KERNEL_MMAP_VIRTUAL_START = 0x80000000"
definition KERNEL_MMAP_VIRTUAL_END :: u32 where "KERNEL_MMAP_VIRTUAL_END = 0xF0000000"
definition KERNEL_MMAP_LOWMEM_START :: u32 where "KERNEL_MMAP_LOWMEM_START = 0x80000000"
definition KERNEL_MMAP_LOWMEM_END :: u32 where "KERNEL_MMAP_LOWMEM_END = 0x80100000"
definition KERNEL_MMAP_HIMEMIO_START :: u32 where "KERNEL_MMAP_HIMEMIO_START = 0xF0000000"

definition KERNEL_PAGE_SIZE_IN_BITS :: nat where "KERNEL_PAGE_SIZE_IN_BITS = 12"
definition KERNEL_PAGE_SIZE_IN_BYTES :: u32 where "KERNEL_PAGE_SIZE_IN_BYTES = push_bit 12 1"
definition KERNEL_BYTE_IN_BITS :: nat where "KERNEL_BYTE_IN_BITS = 3"

definition KERNEL_STACK_SIZE :: u32 where "KERNEL_STACK_SIZE = 0x2000"
definition KERNEL_MAX_PROCS :: nat where "KERNEL_MAX_PROCS = 0x40"
definition KERNEL_NUM_SYSCALLS :: u32 where "KERNEL_NUM_SYSCALLS = 0x100"
definition MACHINE_MAX_CPUS :: nat where "MACHINE_MAX_CPUS = 0xFF"
definition MACHINE_MAX_IOAPICS :: nat where "MACHINE_MAX_IOAPICS = 0xFF"

definition PHYSADDR :: "u32 \<Rightarrow> u32" where
  "PHYSADDR x = x - KERNEL_HIGHER_HALF_OFFSET"

definition KERNADDR :: "u32 \<Rightarrow> u32" where
  "KERNADDR x = x + KERNEL_HIGHER_HALF_OFFSET"

lemmas kernel_consts =
  KERNEL_HIGHER_HALF_OFFSET_def KERNEL_MMAP_VIRTUAL_START_def KERNEL_MMAP_VIRTUAL_END_def
  KERNEL_MMAP_LOWMEM_START_def KERNEL_MMAP_LOWMEM_END_def KERNEL_MMAP_HIMEMIO_START_def
  KERNEL_PAGE_SIZE_IN_BITS_def KERNEL_PAGE_SIZE_IN_BYTES_def KERNEL_BYTE_IN_BITS_def
  KERNEL_STACK_SIZE_def KERNEL_MAX_PROCS_def KERNEL_NUM_SYSCALLS_def
  MACHINE_MAX_CPUS_def MACHINE_MAX_IOAPICS_def

lemma PHYSADDR_KERNADDR [simp]: "PHYSADDR (KERNADDR x) = x"
  by (simp add: PHYSADDR_def KERNADDR_def)

lemma KERNADDR_PHYSADDR [simp]: "KERNADDR (PHYSADDR x) = x"
  by (simp add: PHYSADDR_def KERNADDR_def)

end
