(* ===== verification/AVOS_Synch.thy ===== *)
theory AVOS_Synch
  imports AVOS_Setup
begin

text \<open>
  Spin locks and interrupt locks (\<open>kernel/core/synch\<close>), the per-CPU words they touch
  (\<open>struct State\<close>, the interrupt flag of EFLAGS), and the interleaving of several
  processors over one spin lock.

  The functions are the sequential code of one processor. Acquiring a lock that is held and that
  no other processor will release spins for ever: \<open>Inl Spins_Forever\<close>.
\<close>

section \<open>State\<close>

record SpinLock =
  flag :: bool

record IRQLock =
  spin_lock :: SpinLock
  previous_interrupt_priority :: u8

record State =
  preemption_vetos :: u32
  interrupt_priority :: u8
  process :: "nat option"
  kernel_task :: u32

record cpu_state =
  state_current :: State
  eflags :: u32

definition EFLAGS_IF :: u32 where "EFLAGS_IF = 0x200"

definition InterruptsEnabled :: "cpu_state \<Rightarrow> bool" where
  "InterruptsEnabled c = (0 < eflags c AND EFLAGS_IF)"

definition DisableInterrupts :: "cpu_state \<Rightarrow> cpu_state" where
  "DisableInterrupts c = c\<lparr>eflags := eflags c AND NOT EFLAGS_IF\<rparr>"

definition EnableInterrupts :: "cpu_state \<Rightarrow> cpu_state" where
  "EnableInterrupts c = c\<lparr>eflags := eflags c OR EFLAGS_IF\<rparr>"

definition STATE_INCREMENT_PREEMPTION_VETO :: "cpu_state \<Rightarrow> cpu_state" where
  "STATE_INCREMENT_PREEMPTION_VETO c =
     c\<lparr>state_current := (state_current c)\<lparr>preemption_vetos := preemption_vetos (state_current c) + 1\<rparr>\<rparr>"

definition STATE_DECREMENT_PREEMPTION_VETO :: "cpu_state \<Rightarrow> cpu_state" where
  "STATE_DECREMENT_PREEMPTION_VETO c =
     c\<lparr>state_current := (state_current c)\<lparr>preemption_vetos := preemption_vetos (state_current c) - 1\<rparr>\<rparr>"

definition STATE_PREEMPTIBLE :: "cpu_state \<Rightarrow> bool" where
  "STATE_PREEMPTIBLE c = (preemption_vetos (state_current c) = 0)"

definition set_interrupt_priority :: "u8 \<Rightarrow> cpu_state \<Rightarrow> cpu_state" where
  "set_interrupt_priority p c =
     c\<lparr>state_current := (state_current c)\<lparr>interrupt_priority := p\<rparr>\<rparr>"

section \<open>Spin locks\<close>

definition atomic_flag_test_and_set :: "SpinLock \<Rightarrow> bool \<times> SpinLock" where
  "atomic_flag_test_and_set l = (flag l, l\<lparr>flag := True\<rparr>)"

definition atomic_flag_clear :: "SpinLock \<Rightarrow> SpinLock" where
  "atomic_flag_clear l = l\<lparr>flag := False\<rparr>"

definition atomic_compare_exchange_strong :: "SpinLock \<Rightarrow> bool \<Rightarrow> bool \<Rightarrow> bool \<times> SpinLock" where
  "atomic_compare_exchange_strong l expected desired =
     (if flag l = expected then (expected, l\<lparr>flag := desired\<rparr>) else (flag l, l))"

definition SpinLock_Initialize :: "SpinLock \<Rightarrow> SpinLock" where
  "SpinLock_Initialize l = atomic_flag_clear l"

partial_function (option) spin_loop :: "SpinLock \<Rightarrow> SpinLock option" where
  "spin_loop l =
     (let (old, l') = atomic_flag_test_and_set l in if old then spin_loop l' else Some l')"

definition SpinLock_Acquire :: "SpinLock \<Rightarrow> cpu_state \<Rightarrow> (SpinLock \<times> cpu_state) result" where
  "SpinLock_Acquire l c =
     (let c' = STATE_INCREMENT_PREEMPTION_VETO c
      in case spin_loop l of None \<Rightarrow> Inl Spins_Forever | Some l' \<Rightarrow> Inr (l', c'))"

definition SpinLock_Release :: "SpinLock \<Rightarrow> cpu_state \<Rightarrow> SpinLock \<times> cpu_state" where
  "SpinLock_Release l c = (atomic_flag_clear l, STATE_DECREMENT_PREEMPTION_VETO c)"

definition SpinLock_Locked :: "SpinLock \<Rightarrow> bool \<times> SpinLock" where
  "SpinLock_Locked l = atomic_compare_exchange_strong l True True"

section \<open>Interrupt locks\<close>

definition IRQLock_Initialize :: "IRQLock \<Rightarrow> IRQLock" where
  "IRQLock_Initialize l =
     l\<lparr>spin_lock := SpinLock_Initialize (spin_lock l), previous_interrupt_priority := 0\<rparr>"

definition IRQLock_Acquire :: "IRQLock \<Rightarrow> cpu_state \<Rightarrow> (IRQLock \<times> cpu_state) result" where
  "IRQLock_Acquire l c =
     (let intr_prio = (if InterruptsEnabled c then 0 else 0xFF);
          c1 = DisableInterrupts c
      in res_bind (SpinLock_Acquire (spin_lock l) c1) (\<lambda>(sl, c2).
         Inr (l\<lparr>spin_lock := sl, previous_interrupt_priority := intr_prio\<rparr>,
              set_interrupt_priority 0xFF c2)))"

definition IRQLock_Release :: "IRQLock \<Rightarrow> cpu_state \<Rightarrow> IRQLock \<times> cpu_state" where
  "IRQLock_Release l c =
     (let c1 = set_interrupt_priority (previous_interrupt_priority l) c;
          (sl, c2) = SpinLock_Release (spin_lock l) c1;
          c3 = (if interrupt_priority (state_current c2) \<noteq> 0xFF then EnableInterrupts c2 else c2)
      in (l\<lparr>spin_lock := sl\<rparr>, c3))"

definition IRQLock_Locked :: "IRQLock \<Rightarrow> bool \<times> IRQLock" where
  "IRQLock_Locked l =
     (let (b, sl) = atomic_compare_exchange_strong (spin_lock l) True True
      in (b, l\<lparr>spin_lock := sl\<rparr>))"

lemmas veto_defs =
  STATE_INCREMENT_PREEMPTION_VETO_def STATE_DECREMENT_PREEMPTION_VETO_def
  set_interrupt_priority_def DisableInterrupts_def EnableInterrupts_def

lemma spin_loop_Some: "spin_loop l = Some l' \<Longrightarrow> \<not> flag l \<and> l' = l\<lparr>flag := True\<rparr>"
proof (rule spin_loop.raw_induct [where P = "\<lambda>l l'. \<not> flag l \<and> l' = l\<lparr>flag := True\<rparr>"])
  fix f l r
  assume IH: "\<And>l r. f l = Some r \<Longrightarrow> \<not> flag l \<and> r = l\<lparr>flag := True\<rparr>"
    and eq: "(let (old, l') = atomic_flag_test_and_set l in if old then f l' else Some l') = Some r"
  show "\<not> flag l \<and> r = l\<lparr>flag := True\<rparr>"
    using eq IH [of "l\<lparr>flag := True\<rparr>" r]
    by (auto simp: atomic_flag_test_and_set_def split: if_splits)
qed

lemma spin_loop_eq [simp, code]:
  "spin_loop l = (if flag l then None else Some (l\<lparr>flag := True\<rparr>))"
proof (cases "flag l")
  case True
  then show ?thesis using spin_loop_Some [of l] by (cases "spin_loop l") auto
next
  case False
  then show ?thesis by (subst spin_loop.simps) (simp add: atomic_flag_test_and_set_def)
qed

lemma SpinLock_Acquire_eq:
  "SpinLock_Acquire l c =
     (if flag l then Inl Spins_Forever
      else Inr (l\<lparr>flag := True\<rparr>, STATE_INCREMENT_PREEMPTION_VETO c))"
  by (simp add: SpinLock_Acquire_def Let_def)

lemma eflags_restore:
  "InterruptsEnabled c \<Longrightarrow> eflags c AND NOT EFLAGS_IF OR EFLAGS_IF = eflags c"
  "\<not> InterruptsEnabled c \<Longrightarrow> eflags c AND NOT EFLAGS_IF = eflags c"
proof -
  have exp: "EFLAGS_IF = 2 ^ 9" by (simp add: EFLAGS_IF_def)
  have IF: "bit EFLAGS_IF n \<longleftrightarrow> n = 9" for n unfolding exp bit_exp_iff by auto
  have enabled: "InterruptsEnabled c \<longleftrightarrow> bit (eflags c) 9"
    unfolding InterruptsEnabled_def exp word_neq_0_conv [symmetric]
    using and_exp_eq_0_iff_not_bit [of "eflags c" 9] by simp
  show "InterruptsEnabled c \<Longrightarrow> eflags c AND NOT EFLAGS_IF OR EFLAGS_IF = eflags c"
    unfolding enabled by (intro bit_word_eqI) (auto simp: bit_simps IF)
  show "\<not> InterruptsEnabled c \<Longrightarrow> eflags c AND NOT EFLAGS_IF = eflags c"
    unfolding enabled by (intro bit_word_eqI) (auto simp: bit_simps IF)
qed

lemma InterruptsEnabled_simps [simp]:
  "\<not> InterruptsEnabled (DisableInterrupts c)"
  "InterruptsEnabled (set_interrupt_priority p c) = InterruptsEnabled c"
  "InterruptsEnabled (STATE_INCREMENT_PREEMPTION_VETO c) = InterruptsEnabled c"
  "InterruptsEnabled (STATE_DECREMENT_PREEMPTION_VETO c) = InterruptsEnabled c"
  by (simp_all add: InterruptsEnabled_def veto_defs EFLAGS_IF_def and.assoc)

section \<open>Several processors over one spin lock\<close>

text \<open>
  Each processor runs \<open>SpinLock_Acquire\<close>, a critical section and \<open>SpinLock_Release\<close>
  again and again. A step is one atomic access: the veto increment that starts an acquisition, one
  test-and-set of the spin loop, the clearing of the flag, or the veto decrement that ends a release.
\<close>

datatype lock_pc = Outside | Spinning | Holding | Releasing

record lock_system =
  sys_lock :: SpinLock
  pcs :: "nat \<Rightarrow> lock_pc"
  cpus :: "nat \<Rightarrow> cpu_state"

inductive lock_step :: "lock_system \<Rightarrow> lock_system \<Rightarrow> bool" where
  begin_acquire: "pcs S c = Outside \<Longrightarrow>
    lock_step S (S\<lparr>pcs := (pcs S)(c := Spinning),
      cpus := (cpus S)(c := STATE_INCREMENT_PREEMPTION_VETO (cpus S c))\<rparr>)"
| spin: "pcs S c = Spinning \<Longrightarrow> atomic_flag_test_and_set (sys_lock S) = (old, l') \<Longrightarrow>
    lock_step S (S\<lparr>sys_lock := l', pcs := (pcs S)(c := if old then Spinning else Holding)\<rparr>)"
| clear_flag: "pcs S c = Holding \<Longrightarrow> l' = fst (SpinLock_Release (sys_lock S) (cpus S c)) \<Longrightarrow>
    lock_step S (S\<lparr>sys_lock := l', pcs := (pcs S)(c := Releasing)\<rparr>)"
| end_release: "pcs S c = Releasing \<Longrightarrow> c' = snd (SpinLock_Release (sys_lock S) (cpus S c)) \<Longrightarrow>
    lock_step S (S\<lparr>pcs := (pcs S)(c := Outside), cpus := (cpus S)(c := c')\<rparr>)"

definition lock_start :: "lock_system \<Rightarrow> bool" where
  "lock_start S \<longleftrightarrow> sys_lock S = SpinLock_Initialize (sys_lock S) \<and> (\<forall>c. pcs S c = Outside \<and> STATE_PREEMPTIBLE (cpus S c))"

definition lock_sys_inv :: "lock_system \<Rightarrow> bool" where
  "lock_sys_inv S \<longleftrightarrow>
     (flag (sys_lock S) \<longleftrightarrow> (\<exists>c. pcs S c = Holding)) \<and>
     (\<forall>c d. pcs S c = Holding \<longrightarrow> pcs S d = Holding \<longrightarrow> c = d) \<and>
     (\<forall>c. preemption_vetos (state_current (cpus S c)) = (if pcs S c = Outside then 0 else 1))"

lemma lock_start_inv: "lock_start S \<Longrightarrow> lock_sys_inv S"
  by (cases "sys_lock S")
    (auto simp: lock_start_def lock_sys_inv_def SpinLock_Initialize_def atomic_flag_clear_def STATE_PREEMPTIBLE_def)

lemma lock_step_inv: "lock_step S S' \<Longrightarrow> lock_sys_inv S \<Longrightarrow> lock_sys_inv S'"
proof (induction rule: lock_step.induct)
  case (begin_acquire S c)
  then have "pcs S d = Holding \<Longrightarrow> d \<noteq> c" for d by auto
  with begin_acquire show ?case
    unfolding lock_sys_inv_def by (auto simp: STATE_INCREMENT_PREEMPTION_VETO_def)
next
  case (spin S c old l')
  then have other: "pcs S d = Holding \<Longrightarrow> d \<noteq> c" for d by auto
  with spin show ?case
    by (cases "flag (sys_lock S)") (auto simp: lock_sys_inv_def atomic_flag_test_and_set_def dest: other)
next
  case (clear_flag S c l')
  have only: "d \<noteq> c \<Longrightarrow> pcs S d \<noteq> Holding" for d using clear_flag by (auto simp: lock_sys_inv_def)
  have "preemption_vetos (state_current (cpus S c)) = 1" using clear_flag by (simp add: lock_sys_inv_def)
  with only clear_flag show ?case
    by (auto simp: lock_sys_inv_def SpinLock_Release_def atomic_flag_clear_def split: if_splits)
next
  case (end_release S c c')
  then have "pcs S d = Holding \<Longrightarrow> d \<noteq> c" for d by auto
  with end_release show ?case
    by (auto simp: lock_sys_inv_def SpinLock_Release_def STATE_DECREMENT_PREEMPTION_VETO_def)
qed

lemma lock_reachable_inv:
  assumes "lock_step\<^sup>*\<^sup>* S S'" and "lock_start S"
  shows "lock_sys_inv S'"
  using assms by (induction rule: rtranclp_induct) (auto intro: lock_start_inv lock_step_inv)

section \<open>Properties\<close>

text \<open>
  C13. Mutual exclusion of spin locks: whatever the interleaving, at most one processor holds the
  lock, the flag is set exactly while one does, and the holder cannot be preempted.
\<close>

theorem SpinLock_mutual_exclusion:
  assumes "lock_start S" and "lock_step\<^sup>*\<^sup>* S S'"
  shows "(\<forall>c d. pcs S' c = Holding \<longrightarrow> pcs S' d = Holding \<longrightarrow> c = d) \<and>
    (flag (sys_lock S') \<longleftrightarrow> (\<exists>c. pcs S' c = Holding)) \<and>
    (\<forall>c. pcs S' c = Holding \<longrightarrow> \<not> STATE_PREEMPTIBLE (cpus S' c))"
proof -
  have "lock_sys_inv S'" using assms(2,1) by (rule lock_reachable_inv)
  then show ?thesis unfolding lock_sys_inv_def STATE_PREEMPTIBLE_def by (metis lock_pc.distinct(3) zero_neq_one)
qed

definition idle_cpu :: cpu_state where
  "idle_cpu = \<lparr>state_current = \<lparr>preemption_vetos = 0, interrupt_priority = 0, process = None, kernel_task = 0\<rparr>,
     eflags = 0x202\<rparr>"

definition idle_locks :: lock_system where
  "idle_locks = \<lparr>sys_lock = \<lparr>flag = False\<rparr>, pcs = (\<lambda>_. Outside), cpus = (\<lambda>_. idle_cpu)\<rparr>"

theorem SpinLock_mutual_exclusion_witness:
  "\<exists>S'. lock_step\<^sup>*\<^sup>* idle_locks S' \<and> pcs S' 0 = Holding \<and> pcs S' 1 \<noteq> Holding \<and>
    \<not> STATE_PREEMPTIBLE (cpus S' 0)"
proof -
  let ?c = "STATE_INCREMENT_PREEMPTION_VETO idle_cpu"
  let ?S1 = "idle_locks\<lparr>pcs := (pcs idle_locks)(0 := Spinning), cpus := (cpus idle_locks)(0 := ?c)\<rparr>"
  let ?S2 = "?S1\<lparr>sys_lock := \<lparr>flag = True\<rparr>, pcs := (pcs ?S1)(0 := Holding)\<rparr>"
  have start: "lock_start idle_locks"
    by (simp add: lock_start_def idle_locks_def SpinLock_Initialize_def atomic_flag_clear_def
        STATE_PREEMPTIBLE_def idle_cpu_def)
  have "lock_step idle_locks ?S1"
    using begin_acquire [of idle_locks 0] by (simp add: idle_locks_def)
  moreover have "lock_step ?S1 ?S2"
    using spin [of ?S1 0 False "\<lparr>flag = True\<rparr>"] by (simp add: idle_locks_def atomic_flag_test_and_set_def)
  ultimately have run: "lock_step\<^sup>*\<^sup>* idle_locks ?S2" by (meson converse_rtranclp_into_rtranclp r_into_rtranclp)
  have "pcs ?S2 0 = Holding" by simp
  moreover have "pcs ?S2 1 \<noteq> Holding \<and> \<not> STATE_PREEMPTIBLE (cpus ?S2 0)"
    using SpinLock_mutual_exclusion [OF start run] \<open>pcs ?S2 0 = Holding\<close> by (metis zero_neq_one)
  ultimately show ?thesis using run by blast
qed

text \<open>
  C14. Interrupt locks nest: with two free locks taken and given back in opposite order,
  interrupts stay off until the outer lock is released, and the interrupt flag and the preemption
  count end up as they were.
\<close>

theorem IRQLock_nested:
  assumes "\<not> flag (spin_lock a)" and "\<not> flag (spin_lock b)"
  shows "\<exists>a1 c1 b1 c2. IRQLock_Acquire a c = Inr (a1, c1) \<and> IRQLock_Acquire b c1 = Inr (b1, c2) \<and>
    \<not> InterruptsEnabled (snd (IRQLock_Release b1 c2)) \<and>
    eflags (snd (IRQLock_Release a1 (snd (IRQLock_Release b1 c2)))) = eflags c \<and>
    preemption_vetos (state_current (snd (IRQLock_Release a1 (snd (IRQLock_Release b1 c2))))) =
      preemption_vetos (state_current c) \<and>
    \<not> flag (spin_lock (fst (IRQLock_Release a1 (snd (IRQLock_Release b1 c2)))))"
  using assms eflags_restore [of c] eflags_restore(2) [of "DisableInterrupts c"]
  by (auto simp: IRQLock_Acquire_def IRQLock_Release_def SpinLock_Acquire_eq SpinLock_Release_def Let_def
      atomic_flag_clear_def)
    (auto simp: veto_defs InterruptsEnabled_def)

theorem IRQLock_nested_witness:
  "\<exists>a1 c1 b1 c2.
    IRQLock_Acquire \<lparr>spin_lock = \<lparr>flag = False\<rparr>, previous_interrupt_priority = 0\<rparr> idle_cpu = Inr (a1, c1) \<and>
    IRQLock_Acquire \<lparr>spin_lock = \<lparr>flag = False\<rparr>, previous_interrupt_priority = 7\<rparr> c1 = Inr (b1, c2) \<and>
    \<not> InterruptsEnabled (snd (IRQLock_Release b1 c2)) \<and>
    eflags (snd (IRQLock_Release a1 (snd (IRQLock_Release b1 c2)))) = 0x202"
  using IRQLock_nested [of "\<lparr>spin_lock = \<lparr>flag = False\<rparr>, previous_interrupt_priority = 0\<rparr>"
      "\<lparr>spin_lock = \<lparr>flag = False\<rparr>, previous_interrupt_priority = 7\<rparr>" idle_cpu]
  by (force simp: idle_cpu_def)

end
