(* ===== verification/AVOS_Buddy.thy ===== *)
theory AVOS_Buddy
  imports AVOS_Setup
begin

text \<open>
  The abstract buddy system that the physical page allocator implements: one list of free block
  indices per order, where block \<open>q\<close> of order \<open>k\<close> is the set of the page frames
  \<open>n\<close> with \<open>n div 2 ^ k = q\<close>. No words, no memory, no bitmaps: these belong to
  the implementation, which refines this theory.
\<close>

definition PAGE_MAX_ORDER :: nat where "PAGE_MAX_ORDER = 10"

text \<open>Page frames that have a kernel address below \<open>KERNEL_MMAP_VIRTUAL_END\<close>.\<close>

definition NUM_FRAMES :: nat where "NUM_FRAMES = 0x70000"

type_synonym free_lists = "nat \<Rightarrow> nat list"

definition blk :: "nat \<Rightarrow> nat \<Rightarrow> nat set" where
  "blk k q = {n. n div 2 ^ k = q}"

definition free_frames :: "free_lists \<Rightarrow> nat set" where
  "free_frames F = {n. \<exists>k \<le> PAGE_MAX_ORDER. n div 2 ^ k \<in> set (F k)}"

definition buddy :: "nat \<Rightarrow> nat" where
  "buddy q = (if even q then q + 1 else q - 1)"

text \<open>
  Well-formed free lists: blocks lie inside the managed range and are listed once; a frame lies in
  at most one free block; below the top order two buddies are never both free (they would have
  been merged).
\<close>

definition buddy_inv :: "free_lists \<Rightarrow> bool" where
  "buddy_inv F \<longleftrightarrow>
     (\<forall>k \<le> PAGE_MAX_ORDER. distinct (F k) \<and> (\<forall>q \<in> set (F k). q < NUM_FRAMES div 2 ^ k)) \<and>
     (\<forall>n k k'. k \<le> PAGE_MAX_ORDER \<longrightarrow> k' \<le> PAGE_MAX_ORDER \<longrightarrow>
        n div 2 ^ k \<in> set (F k) \<longrightarrow> n div 2 ^ k' \<in> set (F k') \<longrightarrow> k = k') \<and>
     (\<forall>k < PAGE_MAX_ORDER. \<forall>q \<in> set (F k). buddy q \<notin> set (F k))"

section \<open>Operations\<close>

function a_find :: "free_lists \<Rightarrow> nat \<Rightarrow> nat option" where
  "a_find F i =
     (if i > PAGE_MAX_ORDER then None else if F i \<noteq> [] then Some i else a_find F (Suc i))"
  by pat_completeness auto
termination
  by (relation "measure (\<lambda>(F, i). Suc PAGE_MAX_ORDER - i)") auto

declare a_find.simps [simp del]

fun a_split :: "free_lists \<Rightarrow> nat \<Rightarrow> nat \<Rightarrow> nat \<Rightarrow> free_lists \<times> nat" where
  "a_split F q 0 k = (F, q)"
| "a_split F q (Suc i) k =
     (if Suc i \<le> k then (F, q) else a_split (F(i := [2 * q + 1])) (2 * q) i k)"

definition a_acquire :: "free_lists \<Rightarrow> nat \<Rightarrow> (free_lists \<times> nat) option" where
  "a_acquire F k =
     (case a_find F k of None \<Rightarrow> None
      | Some i \<Rightarrow> Some (a_split (F(i := tl (F i))) (hd (F i)) i k))"

function a_release :: "free_lists \<Rightarrow> nat \<Rightarrow> nat \<Rightarrow> free_lists" where
  "a_release F k q =
     (if k \<ge> PAGE_MAX_ORDER \<or> buddy q \<notin> set (F k) then F(k := q # F k)
      else a_release (F(k := remove1 (buddy q) (F k))) (Suc k) (q div 2))"
  by pat_completeness auto
termination
  by (relation "measure (\<lambda>(F, k, q). PAGE_MAX_ORDER - k)") auto

declare a_release.simps [simp del]

section \<open>Blocks and buddies\<close>

lemma buddy_buddy [simp]: "buddy (buddy q) = q"
  by (auto simp: buddy_def elim: oddE)

lemma buddy_neq [simp]: "buddy q \<noteq> q"
  by (auto simp: buddy_def elim: oddE)

lemma buddy_div [simp]: "buddy q div 2 = q div 2"
  by (auto simp: buddy_def elim!: evenE oddE)

lemma div_2_eq_iff: "n div 2 = q div 2 \<longleftrightarrow> n = q \<or> n = buddy q"
  by (auto simp: buddy_def elim!: evenE oddE)

lemma div_Suc_power: "(n :: nat) div 2 ^ Suc k = n div 2 ^ k div 2"
  by (simp only: power_Suc2 div_mult2_eq)

lemma blk_Suc: "blk (Suc k) (q div 2) = blk k q \<union> blk k (buddy q)"
  unfolding blk_def div_Suc_power by (auto simp: div_2_eq_iff)

lemma blk_halves: "blk (Suc k) q = blk k (2 * q) \<union> blk k (2 * q + 1)"
  using blk_Suc [of k "2 * q"] by (simp add: buddy_def)

lemma blk_disjoint: "q \<noteq> q' \<Longrightarrow> blk k q \<inter> blk k q' = {}"
  by (auto simp: blk_def)

lemma blk_nonempty: "q * 2 ^ k \<in> blk k q"
  by (simp add: blk_def)

lemma blk_interval: "blk k q = {q * 2 ^ k ..< (q + 1) * 2 ^ k}"
proof -
  have "n div 2 ^ k = q \<longleftrightarrow> q * 2 ^ k \<le> n \<and> n < (q + 1) * 2 ^ k" for n
  proof
    assume "n div 2 ^ k = q"
    then show "q * 2 ^ k \<le> n \<and> n < (q + 1) * 2 ^ k"
      using div_times_less_eq_dividend [of n "2 ^ k"] dividend_less_div_times [of "2 ^ k" n]
      by (simp add: algebra_simps)
  next
    assume "q * 2 ^ k \<le> n \<and> n < (q + 1) * 2 ^ k"
    then show "n div 2 ^ k = q"
      by (intro div_nat_eqI) (simp_all add: algebra_simps)
  qed
  then show ?thesis unfolding blk_def set_eq_iff mem_Collect_eq atLeastLessThan_iff by blast
qed

lemma frames_div: "k \<le> 16 \<Longrightarrow> NUM_FRAMES div 2 ^ k = 7 * 2 ^ (16 - k)"
proof -
  assume "k \<le> 16"
  then have "NUM_FRAMES = 7 * 2 ^ (16 - k) * 2 ^ k"
    by (simp add: NUM_FRAMES_def mult.assoc flip: power_add)
  then show ?thesis by (metis nonzero_mult_div_cancel_right power_not_zero zero_neq_numeral)
qed

lemma even_frames_div: "k < PAGE_MAX_ORDER \<Longrightarrow> even (NUM_FRAMES div 2 ^ k)"
  by (simp add: frames_div PAGE_MAX_ORDER_def)

lemma free_frames_alt: "free_frames F = (\<Union>k \<in> {..PAGE_MAX_ORDER}. \<Union>q \<in> set (F k). blk k q)"
  by (auto simp: free_frames_def blk_def)

lemma buddy_invD:
  assumes "buddy_inv F" and "k \<le> PAGE_MAX_ORDER"
  shows "distinct (F k)" and "q \<in> set (F k) \<Longrightarrow> q < NUM_FRAMES div 2 ^ k"
    and "k < PAGE_MAX_ORDER \<Longrightarrow> q \<in> set (F k) \<Longrightarrow> buddy q \<notin> set (F k)"
  using assms by (auto simp: buddy_inv_def)

lemma buddy_inv_unique:
  "buddy_inv F \<Longrightarrow> k \<le> PAGE_MAX_ORDER \<Longrightarrow> k' \<le> PAGE_MAX_ORDER \<Longrightarrow>
    n div 2 ^ k \<in> set (F k) \<Longrightarrow> n div 2 ^ k' \<in> set (F k') \<Longrightarrow> k = k'"
  unfolding buddy_inv_def by blast

lemma in_free_frames: "k \<le> PAGE_MAX_ORDER \<Longrightarrow> n div 2 ^ k \<in> set (F k) \<Longrightarrow> n \<in> free_frames F"
  by (auto simp: free_frames_def)

section \<open>Removing and adding one block\<close>

lemma buddy_inv_subset:
  assumes "buddy_inv F" and "set xs \<subseteq> set (F k)" and "distinct xs"
  shows "buddy_inv (F(k := xs))"
proof -
  have sub: "set ((F(k := xs)) j) \<subseteq> set (F j)" for j using assms(2) by simp
  have "distinct ((F(k := xs)) j)" if "j \<le> PAGE_MAX_ORDER" for j
    using assms(1,3) that by (auto simp: buddy_inv_def)
  moreover have "\<forall>n i j. i \<le> PAGE_MAX_ORDER \<longrightarrow> j \<le> PAGE_MAX_ORDER \<longrightarrow>
        n div 2 ^ i \<in> set ((F(k := xs)) i) \<longrightarrow> n div 2 ^ j \<in> set ((F(k := xs)) j) \<longrightarrow> i = j"
    using buddy_inv_unique [OF assms(1)] sub by blast
  moreover have "\<forall>j < PAGE_MAX_ORDER. \<forall>q \<in> set ((F(k := xs)) j). buddy q \<notin> set ((F(k := xs)) j)"
    using assms(1) sub unfolding buddy_inv_def by blast
  moreover have "q < NUM_FRAMES div 2 ^ j"
    if "j \<le> PAGE_MAX_ORDER" "q \<in> set ((F(k := xs)) j)" for q j
    using buddy_invD(2) [OF assms(1)] that sub by blast
  ultimately show ?thesis unfolding buddy_inv_def by blast
qed

lemma free_frames_remove:
  assumes "buddy_inv F" and "k \<le> PAGE_MAX_ORDER" and "q \<in> set (F k)"
    and "set xs = set (F k) - {q}"
  shows "free_frames (F(k := xs)) = free_frames F - blk k q"
proof (intro set_eqI iffI)
  fix n assume "n \<in> free_frames (F(k := xs))"
  then obtain j where j: "j \<le> PAGE_MAX_ORDER" "n div 2 ^ j \<in> set ((F(k := xs)) j)"
    by (auto simp: free_frames_def)
  then have nj: "n div 2 ^ j \<in> set (F j)" using assms(4) by (auto split: if_splits)
  have "n \<notin> blk k q"
  proof
    assume "n \<in> blk k q"
    then have nq: "n div 2 ^ k = q" by (simp add: blk_def)
    with assms nj j(1) have "j = k" by (metis buddy_inv_unique)
    with j nq assms(4) show False by simp
  qed
  with nj j(1) show "n \<in> free_frames F - blk k q" by (auto simp: free_frames_def)
next
  fix n assume n: "n \<in> free_frames F - blk k q"
  then obtain j where j: "j \<le> PAGE_MAX_ORDER" "n div 2 ^ j \<in> set (F j)"
    by (auto simp: free_frames_def)
  with n assms(4) have "n div 2 ^ j \<in> set ((F(k := xs)) j)" by (auto simp: blk_def)
  with j(1) show "n \<in> free_frames (F(k := xs))" by (rule in_free_frames)
qed

lemma free_frames_add:
  assumes "k \<le> PAGE_MAX_ORDER" and "set xs = insert q (set (F k))"
  shows "free_frames (F(k := xs)) = free_frames F \<union> blk k q"
  using assms by (auto simp: free_frames_def blk_def split: if_splits)

lemma buddy_inv_add:
  assumes inv: "buddy_inv F" and k: "k \<le> PAGE_MAX_ORDER" and q: "q < NUM_FRAMES div 2 ^ k"
    and fresh: "blk k q \<inter> free_frames F = {}"
    and nobuddy: "k < PAGE_MAX_ORDER \<Longrightarrow> buddy q \<notin> set (F k)"
  shows "buddy_inv (F(k := q # F k))"
proof -
  let ?F = "F(k := q # F k)"
  have notin: "q \<notin> set (F k)"
    using fresh blk_nonempty [of q k] in_free_frames [OF k, of "q * 2 ^ k" F] by auto
  have dist: "distinct (?F j) \<and> (\<forall>p \<in> set (?F j). p < NUM_FRAMES div 2 ^ j)"
    if "j \<le> PAGE_MAX_ORDER" for j
    using inv that notin q by (auto simp: buddy_inv_def)
  have uniq: "i = j" if "i \<le> PAGE_MAX_ORDER" "j \<le> PAGE_MAX_ORDER"
      "n div 2 ^ i \<in> set (?F i)" "n div 2 ^ j \<in> set (?F j)" for n i j
  proof (cases "n \<in> blk k q")
    case True
    with fresh have "n \<notin> free_frames F" by auto
    with in_free_frames [of i n F] in_free_frames [of j n F] that
    have "i = k" and "j = k" by (auto split: if_splits)
    then show ?thesis by simp
  next
    case False
    with that have "n div 2 ^ i \<in> set (F i)" "n div 2 ^ j \<in> set (F j)"
      by (auto simp: blk_def split: if_splits)
    with buddy_inv_unique [OF inv that(1,2)] show ?thesis by blast
  qed
  have "buddy p \<notin> set (?F j)" if "j < PAGE_MAX_ORDER" "p \<in> set (?F j)" for j p
  proof (cases "j = k \<and> (p = q \<or> buddy p = q)")
    case True
    then show ?thesis using nobuddy that by (auto simp: buddy_neq [symmetric])
  next
    case False
    with that inv show ?thesis by (auto simp: buddy_inv_def)
  qed
  with dist uniq show ?thesis unfolding buddy_inv_def by blast
qed

section \<open>Acquiring a block\<close>

lemma a_find_Some:
  "a_find F i = Some j \<Longrightarrow>
    i \<le> j \<and> j \<le> PAGE_MAX_ORDER \<and> F j \<noteq> [] \<and> (\<forall>l. i \<le> l \<longrightarrow> l < j \<longrightarrow> F l = [])"
proof (induction F i rule: a_find.induct)
  case (1 F i)
  show ?case
  proof (cases "i > PAGE_MAX_ORDER \<or> F i \<noteq> []")
    case True
    with "1.prems" show ?thesis by (auto simp: a_find.simps [of F i] split: if_splits)
  next
    case False
    with "1.prems" have "a_find F (Suc i) = Some j" by (simp add: a_find.simps [of F i])
    with "1.IH" False have IH: "Suc i \<le> j" "j \<le> PAGE_MAX_ORDER" "F j \<noteq> []"
        "\<forall>l. Suc i \<le> l \<longrightarrow> l < j \<longrightarrow> F l = []" by auto
    moreover have "F l = []" if "i \<le> l" "l < j" for l
      using that IH(4) False by (cases "l = i") auto
    ultimately show ?thesis by auto
  qed
qed

lemma a_find_None: "a_find F i = None \<longleftrightarrow> (\<forall>l. i \<le> l \<longrightarrow> l \<le> PAGE_MAX_ORDER \<longrightarrow> F l = [])"
proof (induction F i rule: a_find.induct)
  case (1 F i)
  have split: "(\<forall>l. i \<le> l \<longrightarrow> l \<le> PAGE_MAX_ORDER \<longrightarrow> F l = []) \<longleftrightarrow>
      F i = [] \<and> (\<forall>l. Suc i \<le> l \<longrightarrow> l \<le> PAGE_MAX_ORDER \<longrightarrow> F l = [])" if "i \<le> PAGE_MAX_ORDER"
    using that by (metis Suc_leD le_antisym not_less_eq_eq order_refl)
  show ?case
  proof (cases "i > PAGE_MAX_ORDER \<or> F i \<noteq> []")
    case True
    then show ?thesis by (auto simp: a_find.simps [of F i])
  next
    case False
    with "1.IH" split show ?thesis by (simp add: a_find.simps [of F i])
  qed
qed

lemma a_split_correct:
  assumes "buddy_inv F" and "i \<le> PAGE_MAX_ORDER" and "k \<le> i" and "q < NUM_FRAMES div 2 ^ i"
    and "blk i q \<inter> free_frames F = {}" and "\<And>l. k \<le> l \<Longrightarrow> l < i \<Longrightarrow> F l = []"
    and "a_split F q i k = (F', p)"
  shows "buddy_inv F' \<and> p < NUM_FRAMES div 2 ^ k \<and> blk k p \<subseteq> blk i q \<and> p = q * 2 ^ (i - k) \<and>
    free_frames F' = free_frames F \<union> (blk i q - blk k p)"
  using assms
proof (induction i arbitrary: F q)
  case 0
  then show ?case by simp
next
  case (Suc i)
  show ?case
  proof (cases "Suc i \<le> k")
    case True
    with Suc.prems show ?thesis by (simp add: le_antisym)
  next
    case False
    let ?F = "F(i := (2 * q + 1) # F i)"
    have ki: "k \<le> i" and i: "i \<le> PAGE_MAX_ORDER" using False Suc.prems by simp_all
    have Fi: "F i = []" using Suc.prems(6) [of i] ki by simp
    have halves: "blk (Suc i) q = blk i (2 * q) \<union> blk i (2 * q + 1)" by (rule blk_halves)
    have bound: "2 * q + 1 < NUM_FRAMES div 2 ^ i"
      using Suc.prems(4) unfolding div_Suc_power by simp
    have inv: "buddy_inv ?F"
      using Suc.prems(5) Fi by (intro buddy_inv_add [OF Suc.prems(1) i bound]) (auto simp: halves)
    have free: "free_frames ?F = free_frames F \<union> blk i (2 * q + 1)"
      by (rule free_frames_add [OF i]) simp
    have disj: "blk i (2 * q) \<inter> free_frames ?F = {}"
      using Suc.prems(5) blk_disjoint [of "2 * q" "2 * q + 1" i] unfolding free halves by auto
    have split: "a_split ?F (2 * q) i k = (F', p)"
      using Suc.prems(7) False Fi by simp
    have "buddy_inv F' \<and> p < NUM_FRAMES div 2 ^ k \<and> blk k p \<subseteq> blk i (2 * q) \<and>
        p = 2 * q * 2 ^ (i - k) \<and> free_frames F' = free_frames ?F \<union> (blk i (2 * q) - blk k p)"
      using bound Suc.prems(6) by (intro Suc.IH [OF inv i ki _ disj _ split]) auto
    then have IH: "buddy_inv F'" "p < NUM_FRAMES div 2 ^ k" "blk k p \<subseteq> blk i (2 * q)"
        "p = 2 * q * 2 ^ (i - k)" "free_frames F' = free_frames ?F \<union> (blk i (2 * q) - blk k p)"
      by blast+
    have "p = q * 2 ^ (Suc i - k)"
      using IH(4) ki by (simp add: Suc_diff_le)
    moreover have "blk i (2 * q + 1) \<inter> blk k p = {}"
      using IH(3) blk_disjoint [of "2 * q + 1" "2 * q" i] by auto
    ultimately show ?thesis using IH(1,2,3) unfolding IH(5) halves free by blast
  qed
qed

text \<open>
  A successful acquisition returns a block that was entirely free, takes exactly its frames out of
  the free set and keeps the lists well formed; it fails only when no block of the wanted order or
  above is free.
\<close>

lemma a_acquire_correct:
  assumes inv: "buddy_inv F" and "a_acquire F k = Some (F', p)"
  shows "buddy_inv F'" and "p < NUM_FRAMES div 2 ^ k" and "blk k p \<subseteq> free_frames F"
    and "free_frames F' = free_frames F - blk k p"
proof -
  obtain i where i: "a_find F k = Some i" "a_split (F(i := tl (F i))) (hd (F i)) i k = (F', p)"
    using assms(2) by (auto simp: a_acquire_def split: option.splits)
  note find = a_find_Some [OF i(1)]
  let ?q = "hd (F i)" let ?F = "F(i := tl (F i))"
  have q: "?q \<in> set (F i)" "F i = ?q # tl (F i)" using find by simp_all
  have dist: "distinct (F i)" using buddy_invD(1) inv find by blast
  then have tl: "set (tl (F i)) = set (F i) - {?q}" using q(2) by (metis Diff_insert_absorb distinct.simps(2) list.simps(15))
  have inv': "buddy_inv ?F"
    using dist tl by (intro buddy_inv_subset [OF inv]) (auto intro: distinct_tl)
  have free: "free_frames ?F = free_frames F - blk i ?q"
    using find tl q(1) by (intro free_frames_remove [OF inv]) auto
  have sub: "blk i ?q \<subseteq> free_frames F"
    using q(1) find by (auto simp: free_frames_def blk_def)
  have "buddy_inv F' \<and> p < NUM_FRAMES div 2 ^ k \<and> blk k p \<subseteq> blk i ?q \<and> p = ?q * 2 ^ (i - k) \<and>
      free_frames F' = free_frames ?F \<union> (blk i ?q - blk k p)"
    using find buddy_invD(2) [OF inv _ q(1)] free
    by (intro a_split_correct [OF inv' _ _ _ _ _ i(2)]) auto
  with free sub show "buddy_inv F'" and "p < NUM_FRAMES div 2 ^ k" and "blk k p \<subseteq> free_frames F"
    and "free_frames F' = free_frames F - blk k p" by auto
qed

section \<open>Releasing a block\<close>

lemma a_release_correct:
  assumes "buddy_inv F" and "k \<le> PAGE_MAX_ORDER" and "q < NUM_FRAMES div 2 ^ k"
    and "blk k q \<inter> free_frames F = {}"
  shows "buddy_inv (a_release F k q) \<and> free_frames (a_release F k q) = free_frames F \<union> blk k q"
  using assms
proof (induction F k q rule: a_release.induct)
  case (1 F k q)
  show ?case
  proof (cases "k \<ge> PAGE_MAX_ORDER \<or> buddy q \<notin> set (F k)")
    case True
    then have rel: "a_release F k q = F(k := q # F k)" by (simp add: a_release.simps [of F k q])
    have "buddy_inv (F(k := q # F k))"
      using True "1.prems" by (intro buddy_inv_add) auto
    moreover have "free_frames (F(k := q # F k)) = free_frames F \<union> blk k q"
      using "1.prems"(2) by (rule free_frames_add) simp
    ultimately show ?thesis unfolding rel by blast
  next
    case False
    let ?F = "F(k := remove1 (buddy q) (F k))"
    have k: "Suc k \<le> PAGE_MAX_ORDER" and bq: "buddy q \<in> set (F k)" using False by auto
    have dist: "distinct (F k)" using buddy_invD(1) "1.prems" by blast
    then have set: "set (remove1 (buddy q) (F k)) = set (F k) - {buddy q}" by simp
    have inv: "buddy_inv ?F"
      using dist set by (intro buddy_inv_subset "1.prems") auto
    have free: "free_frames ?F = free_frames F - blk k (buddy q)"
      using free_frames_remove [OF "1.prems"(1,2) bq set] .
    have bound: "q div 2 < NUM_FRAMES div 2 ^ Suc k"
    proof -
      have "even (NUM_FRAMES div 2 ^ k)" using even_frames_div k by simp
      with "1.prems"(3) show ?thesis unfolding div_Suc_power by (auto elim!: evenE)
    qed
    have disj: "blk (Suc k) (q div 2) \<inter> free_frames ?F = {}"
      using "1.prems"(4) by (auto simp: blk_Suc free)
    have sub: "blk k (buddy q) \<subseteq> free_frames F"
      using bq "1.prems"(2) by (auto simp: free_frames_def blk_def)
    have rel: "a_release F k q = a_release ?F (Suc k) (q div 2)"
      using False by (simp add: a_release.simps [of F k q])
    have "buddy_inv (a_release ?F (Suc k) (q div 2)) \<and>
        free_frames (a_release ?F (Suc k) (q div 2)) = free_frames ?F \<union> blk (Suc k) (q div 2)"
      by (rule "1.IH" [OF False inv k bound disj])
    with sub show ?thesis unfolding rel free blk_Suc by blast
  qed
qed

end
