(* ===== verification/AVOS_Physmem.thy ===== *)
theory AVOS_Physmem
  imports AVOS_Synch AVOS_Buddy
begin

text \<open>
  The physical page allocator of the kernel, \<open>kernel/core/memory/src/physmem.c\<close> and its
  header: the bitmaps \<open>Page_maps\<close>, the free lists \<open>Page_lists\<close> threaded through
  the free pages themselves, and the operations on them, statement by statement.

  \<open>mem\<close> is memory as the kernel addresses it (higher-half virtual addresses). A bitmap
  access outside its array and an order above \<open>PAGE_MAX_ORDER\<close> are
  \<open>Inl Out_Of_Bounds\<close>. Orders are \<open>uint8_t\<close> in the source; they are natural
  numbers here because an order outside \<open>0..10\<close> faults before it could wrap.
\<close>

record physmem =
  mem :: memory
  Page_maps :: "nat \<Rightarrow> nat \<Rightarrow> u8"
  Page_lists :: "nat \<Rightarrow> u32"
  Page_operation_lock :: IRQLock
  cpu :: cpu_state

section \<open>Macros of physmem.h\<close>

definition PAGE_LIST_NULL :: u32 where "PAGE_LIST_NULL = 0xFFFFFFFF"

definition PAGE_MAP_IDX :: "u32 \<Rightarrow> nat \<Rightarrow> u32" where
  "PAGE_MAP_IDX addr order =
     drop_bit (KERNEL_PAGE_SIZE_IN_BITS + 1 + KERNEL_BYTE_IN_BITS + order) addr"

definition PAGE_MAP_BIT :: "u32 \<Rightarrow> nat \<Rightarrow> u32" where
  "PAGE_MAP_BIT addr order =
     drop_bit (KERNEL_PAGE_SIZE_IN_BITS + 1 + order) addr AND (push_bit KERNEL_BYTE_IN_BITS 1 - 1)"

definition PAGE_BUDDY :: "u32 \<Rightarrow> nat \<Rightarrow> u32" where
  "PAGE_BUDDY addr order =
     (if addr mod push_bit (KERNEL_PAGE_SIZE_IN_BITS + 1 + order) 1 = 0
      then addr + push_bit (KERNEL_PAGE_SIZE_IN_BITS + order) 1
      else addr - push_bit (KERNEL_PAGE_SIZE_IN_BITS + order) 1)"

definition PAGE_SIZE_AT_ORDER :: "nat \<Rightarrow> u32" where
  "PAGE_SIZE_AT_ORDER order = push_bit (KERNEL_PAGE_SIZE_IN_BITS + order) 1"

definition Page_maps_size :: "nat \<Rightarrow> nat" where
  "Page_maps_size order =
     unat (KERNEL_MMAP_VIRTUAL_END - KERNEL_MMAP_VIRTUAL_START) div
       ([0x10000, 0x20000, 0x40000, 0x80000, 0x100000, 0x200000, 0x400000, 0x800000,
         0x1000000, 0x2000000, 0x4000000] ! order)"

definition page_map_in_bounds :: "u32 \<Rightarrow> nat \<Rightarrow> bool" where
  "page_map_in_bounds addr order \<longleftrightarrow>
     order \<le> PAGE_MAX_ORDER \<and> unat (PAGE_MAP_IDX addr order) < Page_maps_size order"

definition page_map_update ::
  "(u8 \<Rightarrow> u8) \<Rightarrow> 'a physmem_scheme \<Rightarrow> u32 \<Rightarrow> nat \<Rightarrow> ('a physmem_scheme) result" where
  "page_map_update f s addr order =
     res_bind (res_guard (page_map_in_bounds addr order) Out_Of_Bounds) (\<lambda>_.
       (let idx = unat (PAGE_MAP_IDX addr order)
        in Inr (s\<lparr>Page_maps := (Page_maps s)(order := (Page_maps s order)(idx := f (Page_maps s order idx)))\<rparr>)))"

definition PAGE_MAP_ISBITSET :: "'a physmem_scheme \<Rightarrow> u32 \<Rightarrow> nat \<Rightarrow> bool result" where
  "PAGE_MAP_ISBITSET s addr order =
     res_bind (res_guard (page_map_in_bounds addr order) Out_Of_Bounds) (\<lambda>_.
       Inr (0 < Page_maps s order (unat (PAGE_MAP_IDX addr order))
              AND push_bit (unat (PAGE_MAP_BIT addr order)) 1))"

definition PAGE_MAP_SETBIT :: "'a physmem_scheme \<Rightarrow> u32 \<Rightarrow> nat \<Rightarrow> ('a physmem_scheme) result" where
  "PAGE_MAP_SETBIT s addr order =
     page_map_update (\<lambda>b. b OR push_bit (unat (PAGE_MAP_BIT addr order)) 1) s addr order"

definition PAGE_MAP_TOGGLEBIT :: "'a physmem_scheme \<Rightarrow> u32 \<Rightarrow> nat \<Rightarrow> ('a physmem_scheme) result" where
  "PAGE_MAP_TOGGLEBIT s addr order =
     page_map_update (\<lambda>b. b XOR push_bit (unat (PAGE_MAP_BIT addr order)) 1) s addr order"

section \<open>List nodes in memory\<close>

text \<open>\<open>struct Page_List\<close>: the pointer \<open>next\<close> at offset 0, \<open>prev\<close> at offset 4.\<close>

definition pl_next :: "memory \<Rightarrow> u32 \<Rightarrow> u32" where "pl_next m p = load32 m p"
definition pl_prev :: "memory \<Rightarrow> u32 \<Rightarrow> u32" where "pl_prev m p = load32 m (p + 4)"
definition set_next :: "memory \<Rightarrow> u32 \<Rightarrow> u32 \<Rightarrow> memory" where "set_next m p v = store32 m p v"
definition set_prev :: "memory \<Rightarrow> u32 \<Rightarrow> u32 \<Rightarrow> memory" where "set_prev m p v = store32 m (p + 4) v"

definition page_list_push :: "'a physmem_scheme \<Rightarrow> nat \<Rightarrow> u32 \<Rightarrow> 'a physmem_scheme" where
  "page_list_push s i p =
     (let m1 = set_prev (mem s) p PAGE_LIST_NULL;
          m2 = set_next m1 p (Page_lists s i);
          m3 = (if Page_lists s i \<noteq> PAGE_LIST_NULL then set_prev m2 (Page_lists s i) p else m2)
      in s\<lparr>mem := m3, Page_lists := (Page_lists s)(i := p)\<rparr>)"

section \<open>Page_Release\<close>

function release_toggle ::
  "'a physmem_scheme \<Rightarrow> u32 \<Rightarrow> nat \<Rightarrow> ('a physmem_scheme \<times> nat) result" where
  "release_toggle s addr i =
     res_bind (PAGE_MAP_TOGGLEBIT s addr i) (\<lambda>s'.
       if i = PAGE_MAX_ORDER then Inr (s', i)
       else res_bind (PAGE_MAP_ISBITSET s' addr i) (\<lambda>b.
         if b then Inr (s', i) else release_toggle s' addr (i + 1)))"
  by pat_completeness auto
termination
  by (relation "measure (\<lambda>(s, addr, i). PAGE_MAX_ORDER - i)")
    (auto simp: PAGE_MAP_TOGGLEBIT_def page_map_update_def page_map_in_bounds_def res_simps)

declare release_toggle.simps [simp del]

definition release_unlink :: "'a physmem_scheme \<Rightarrow> u32 \<Rightarrow> nat \<Rightarrow> 'a physmem_scheme" where
  "release_unlink s addr j =
     (let b = PAGE_BUDDY addr j + KERNEL_HIGHER_HALF_OFFSET;
          m1 = (if pl_prev (mem s) b \<noteq> PAGE_LIST_NULL
                then set_next (mem s) (pl_prev (mem s) b) (pl_next (mem s) b) else mem s);
          m2 = (if pl_next m1 b \<noteq> PAGE_LIST_NULL then set_prev m1 (pl_next m1 b) (pl_prev m1 b) else m1);
          pls = (if pl_prev m2 b = PAGE_LIST_NULL then (Page_lists s)(j := pl_next m2 b) else Page_lists s);
          m3 = set_prev m2 b 0;
          m4 = set_next m3 b 0
      in s\<lparr>mem := m4, Page_lists := pls\<rparr>)"

function release_merge :: "'a physmem_scheme \<Rightarrow> u32 \<Rightarrow> nat \<Rightarrow> nat \<Rightarrow> 'a physmem_scheme" where
  "release_merge s addr j i =
     (if j < i then release_merge (release_unlink s addr j) addr (j + 1) i else s)"
  by pat_completeness auto
termination
  by (relation "measure (\<lambda>(s, addr, j, i). i - j)") auto

declare release_merge.simps [simp del]

definition lock_pages :: "'a physmem_scheme \<Rightarrow> ('a physmem_scheme) result" where
  "lock_pages s =
     res_bind (IRQLock_Acquire (Page_operation_lock s) (cpu s)) (\<lambda>(l, c).
       Inr (s\<lparr>Page_operation_lock := l, cpu := c\<rparr>))"

definition unlock_pages :: "'a physmem_scheme \<Rightarrow> 'a physmem_scheme" where
  "unlock_pages s =
     (let (l, c) = IRQLock_Release (Page_operation_lock s) (cpu s)
      in s\<lparr>Page_operation_lock := l, cpu := c\<rparr>)"

definition Page_Release :: "'a physmem_scheme \<Rightarrow> u32 \<Rightarrow> nat \<Rightarrow> ('a physmem_scheme) result" where
  "Page_Release s pointer order =
     (if pointer = PAGE_LIST_NULL then Inr s
      else res_bind (lock_pages s) (\<lambda>s1.
        let addr = pointer - KERNEL_HIGHER_HALF_OFFSET
        in res_bind (release_toggle s1 addr order) (\<lambda>(s2, i).
          let s3 = release_merge s2 addr order i;
              pagelist_ptr = (addr AND NOT (push_bit (12 + i) 1 - 1)) + KERNEL_HIGHER_HALF_OFFSET
          in Inr (unlock_pages (page_list_push s3 i pagelist_ptr)))))"

section \<open>Page_Acquire\<close>

text \<open>
  The search for a non-empty list: \<open>None\<close> is the early \<open>return PAGE_LIST_NULL\<close>,
  which leaves \<open>Page_operation_lock\<close> held.
\<close>

function acquire_find :: "'a physmem_scheme \<Rightarrow> nat \<Rightarrow> nat option" where
  "acquire_find s i =
     (if i \<le> PAGE_MAX_ORDER then
        (if Page_lists s i \<noteq> PAGE_LIST_NULL then Some i
         else if i = PAGE_MAX_ORDER then None
         else acquire_find s (i + 1))
      else Some i)"
  by pat_completeness auto
termination
  by (relation "measure (\<lambda>(s, i). Suc PAGE_MAX_ORDER - i)") auto

declare acquire_find.simps [simp del]

definition acquire_pop :: "'a physmem_scheme \<Rightarrow> nat \<Rightarrow> 'a physmem_scheme" where
  "acquire_pop s j =
     (let h = pl_next (mem s) (Page_lists s j);
          m' = (if h \<noteq> PAGE_LIST_NULL then set_prev (mem s) h PAGE_LIST_NULL else mem s)
      in s\<lparr>mem := m', Page_lists := (Page_lists s)(j := h)\<rparr>)"

definition acquire_break :: "'a physmem_scheme \<Rightarrow> u32 \<Rightarrow> nat \<Rightarrow> 'a physmem_scheme" where
  "acquire_break s addr j =
     (let breakup_addr = addr + push_bit (12 + j) 1;
          p = breakup_addr + KERNEL_HIGHER_HALF_OFFSET;
          m1 = set_next (mem s) p PAGE_LIST_NULL;
          m2 = set_prev m1 p PAGE_LIST_NULL
      in s\<lparr>mem := m2, Page_lists := (Page_lists s)(j := p)\<rparr>)"

text \<open>The loop variable \<open>j\<close> is an \<open>int8_t\<close>: it goes down to \<open>order - 1\<close>, at least \<open>-1\<close>.\<close>

function acquire_loop ::
  "'a physmem_scheme \<Rightarrow> u32 \<Rightarrow> nat \<Rightarrow> nat \<Rightarrow> int \<Rightarrow> ('a physmem_scheme) result" where
  "acquire_loop s addr i order j =
     (if j \<ge> int order then
        res_bind (PAGE_MAP_TOGGLEBIT s addr (nat j)) (\<lambda>s1.
          let s2 = (if j = int i then acquire_pop s1 (nat j) else acquire_break s1 addr (nat j))
          in acquire_loop s2 addr i order (j - 1))
      else Inr s)"
  by pat_completeness auto
termination
  by (relation "measure (\<lambda>(s, addr, i, order, j). nat (j - int order + 1))") auto

declare acquire_loop.simps [simp del]

definition Page_Acquire :: "'a physmem_scheme \<Rightarrow> nat \<Rightarrow> (u32 \<times> 'a physmem_scheme) result" where
  "Page_Acquire s order =
     res_bind (lock_pages s) (\<lambda>s1.
       case acquire_find s1 order of
         None \<Rightarrow> Inr (PAGE_LIST_NULL, s1)
       | Some i \<Rightarrow>
           res_bind (res_guard (i \<le> PAGE_MAX_ORDER) Out_Of_Bounds) (\<lambda>_.
             let page = Page_lists s1 i;
                 addr = page - KERNEL_HIGHER_HALF_OFFSET
             in res_bind (acquire_loop s1 addr i order (int i)) (\<lambda>s2.
               Inr (page, unlock_pages s2))))"

section \<open>Page_MapMemoryChunk\<close>

definition chunk_max_order :: "u32 \<Rightarrow> nat" where
  "chunk_max_order sz =
     fold (\<lambda>i max_order. if PAGE_SIZE_AT_ORDER i \<le> sz then i else max_order)
       [0..<PAGE_MAX_ORDER + 1] 0"

function map_central ::
  "'a physmem_scheme \<Rightarrow> u32 \<Rightarrow> u32 \<Rightarrow> nat \<Rightarrow> u32 \<Rightarrow> ('a physmem_scheme) result" where
  "map_central s base_central n max_order i =
     (if i < n then
        (let page_ptr = base_central + (n - 1 - i) * PAGE_SIZE_AT_ORDER max_order;
             plist = page_ptr + KERNEL_HIGHER_HALF_OFFSET
         in res_bind (PAGE_MAP_SETBIT (page_list_push s max_order plist) page_ptr max_order) (\<lambda>s'.
              map_central s' base_central n max_order (i + 1)))
      else Inr s)"
  by pat_completeness auto
termination
  by (relation "measure (\<lambda>(s, base_central, n, max_order, i). unat (n - i))")
    (auto intro: word_loop_measure)

declare map_central.simps [simp del]

text \<open>
  The recursion on the two skimmed ends is bounded by a fuel argument: for a page-aligned chunk the
  order strictly falls, so 12 levels are enough; for an unaligned one the C code may recurse for ever.
\<close>

fun Page_MapMemoryChunk ::
  "nat \<Rightarrow> 'a physmem_scheme \<Rightarrow> u64 \<Rightarrow> u64 \<Rightarrow> ('a physmem_scheme) result" where
  "Page_MapMemoryChunk 0 s chunk_base chunk_size = Inl Loops_Forever"
| "Page_MapMemoryChunk (Suc fuel) s chunk_base chunk_size =
     (if chunk_size = 0 then Inr s
      else if chunk_base < ucast (KERNEL_MMAP_LOWMEM_END - KERNEL_HIGHER_HALF_OFFSET) then Inr s
      else if chunk_base \<ge> ucast (KERNEL_MMAP_VIRTUAL_END - KERNEL_HIGHER_HALF_OFFSET) then Inr s
      else
        (let base = ucast chunk_base :: u32;
             sz = ucast (if chunk_base + chunk_size > 0x100000000
                           then 0x100000000 - chunk_base else chunk_size) :: u32;
             max_order = chunk_max_order sz;
             base_lowskim = base;
             size_lowskim = (if base mod PAGE_SIZE_AT_ORDER max_order = 0 then 0
                             else PAGE_SIZE_AT_ORDER max_order - (base mod PAGE_SIZE_AT_ORDER max_order));
             base_topskim = (base + sz) AND NOT (PAGE_SIZE_AT_ORDER max_order - 1);
             size_topskim = base + sz - base_topskim;
             base_central = base_lowskim + size_lowskim;
             size_central = base_topskim - base_central
         in res_bind (Page_MapMemoryChunk fuel s (ucast base_topskim) (ucast size_topskim)) (\<lambda>s1.
            res_bind (map_central s1 base_central (size_central div PAGE_SIZE_AT_ORDER max_order) max_order 0) (\<lambda>s2.
            Page_MapMemoryChunk fuel s2 (ucast base_lowskim) (ucast size_lowskim)))))"

section \<open>Page_BuddyMaps_Initialize\<close>

definition MULTIBOOT_TAG_TYPE_RAM_INFO_PAGE_ALIGNED :: u32 where
  "MULTIBOOT_TAG_TYPE_RAM_INFO_PAGE_ALIGNED = 99"

text \<open>
  The walk over the boot information: \<open>type\<close> at offset 0 and \<open>size\<close> at offset 4
  of a tag, \<open>entry_size\<close> at 8 and the entries at 16 of a memory map. The walk ends at a
  tag of type 0; a tag of size 0 makes it run for ever.
\<close>

definition next_tag :: "memory \<Rightarrow> u32 \<Rightarrow> u32" where
  "next_tag m tag = tag + ((load32 m (tag + 4) + 7) AND NOT 7)"

partial_function (option) find_mmap :: "memory \<Rightarrow> u32 \<Rightarrow> u32 \<times> u32 \<Rightarrow> (u32 \<times> u32) option" where
  "find_mmap m tag acc =
     (if load32 m tag = 0 then Some acc
      else find_mmap m (next_tag m tag)
        (if load32 m tag = MULTIBOOT_TAG_TYPE_RAM_INFO_PAGE_ALIGNED
         then (tag + 16, if load32 m (tag + 8) = 0 then 0
                         else (load32 m (tag + 4) - 16) div load32 m (tag + 8))
         else acc))"

definition PAGE_MAP_FUEL :: nat where "PAGE_MAP_FUEL = 12"

function map_entries :: "'a physmem_scheme \<Rightarrow> u32 \<Rightarrow> u32 \<Rightarrow> u32 \<Rightarrow> ('a physmem_scheme) result" where
  "map_entries s mmap n i =
     (if i < n then
        (let e = mmap + 16 * (n - 1 - i)
         in res_bind (Page_MapMemoryChunk PAGE_MAP_FUEL s (load64 (mem s) e) (load64 (mem s) (e + 8))) (\<lambda>s'.
              map_entries s' mmap n (i + 1)))
      else Inr s)"
  by pat_completeness auto
termination
  by (relation "measure (\<lambda>(s, mmap, n, i). unat (n - i))") (auto intro: word_loop_measure)

declare map_entries.simps [simp del]

definition clear_maps :: "'a physmem_scheme \<Rightarrow> 'a physmem_scheme" where
  "clear_maps s = s\<lparr>Page_maps := (\<lambda>i j. if i \<le> PAGE_MAX_ORDER \<and> j < Page_maps_size i then 0
                                      else Page_maps s i j)\<rparr>"

definition Page_BuddyMaps_Initialize :: "'a physmem_scheme \<Rightarrow> u32 \<Rightarrow> ('a physmem_scheme) result" where
  "Page_BuddyMaps_Initialize s BootInfo =
     (let s1 = clear_maps s
      in case find_mmap (mem s1) (BootInfo + 8) (0, 0) of
           None \<Rightarrow> Inl Loops_Forever
         | Some (mmap, mmap_nentries) \<Rightarrow>
             if mmap = 0 \<or> mmap_nentries = 0 then Inr s1
             else res_bind (map_entries s1 mmap mmap_nentries 0) (\<lambda>s2.
               Inr (s2\<lparr>Page_operation_lock := IRQLock_Initialize (Page_operation_lock s2)\<rparr>)))"

end
