(* ===== verification/AVOS_Page_Lists.thy ===== *)
theory AVOS_Page_Lists
  imports AVOS_Physmem
begin

text \<open>
  The doubly linked free lists in memory. \<open>dll m p xs t\<close>: in memory \<open>m\<close> the nodes
  \<open>xs\<close> are chained in both directions, the predecessor of the first is \<open>p\<close> and
  the successor of the last is \<open>t\<close>. Then: what pushing, popping and unlinking a node do to
  the lists, in terms of the block indices of \<^const>\<open>buddy_inv\<close>.
\<close>

section \<open>Nodes\<close>

definition page_aligned :: "u32 \<Rightarrow> bool" where
  "page_aligned p \<longleftrightarrow> unat p mod 4096 = 0"

lemma page_aligned_not_null: "page_aligned p \<Longrightarrow> p \<noteq> PAGE_LIST_NULL"
  by (auto simp: page_aligned_def PAGE_LIST_NULL_def)

lemma page_alignedE:
  assumes "page_aligned p"
  obtains k where "unat p = 4096 * k" and "k < 1048576"
proof -
  from assms obtain k where k: "unat p = 4096 * k" unfolding page_aligned_def by auto
  with unat_u32_lt [of p] show thesis by (intro that [of k]) auto
qed

lemma unat_page_add:
  assumes "page_aligned p" and "i < 4096"
  shows "unat (p + of_nat i) = unat p + i"
proof -
  obtain k where "unat p = 4096 * k" "k < 1048576" using assms(1) by (rule page_alignedE)
  then have "unat p + i < 4294967296" using assms(2) by linarith
  moreover have "unat (of_nat i :: u32) = i" using assms(2) by (simp add: unat_of_nat)
  ultimately show ?thesis by (simp add: unat_word_ariths)
qed

lemma page_aligned4 [simp]:
  assumes "page_aligned p"
  shows "aligned4 p" and "aligned4 (p + 4)"
proof -
  obtain k where k: "unat p = 4096 * k" using assms by (rule page_alignedE)
  have "unat p = 4 * (1024 * k)" unfolding k by simp
  then show "aligned4 p" unfolding aligned4_def by (metis mod_mult_self1_is_0)
  then show "aligned4 (p + 4)"
    using unat_page_add [OF assms, of 4] by (simp add: aligned4_def)
qed

lemma page_aligned_add4_neq:
  assumes "page_aligned p" and "page_aligned q"
  shows "p + 4 \<noteq> q" and "q \<noteq> p + 4"
proof -
  obtain k where k: "unat p = 4096 * k" using assms(1) by (rule page_alignedE)
  have "unat (p + 4) = 4 + 4096 * k" using unat_page_add [OF assms(1), of 4] k by simp
  then have "unat (p + 4) mod 4096 = 4" by simp
  with assms(2) show "p + 4 \<noteq> q" and "q \<noteq> p + 4" unfolding page_aligned_def by auto
qed

lemma node_access [simp]:
  assumes "page_aligned p" and "page_aligned q"
  shows "pl_next (set_next m p v) q = (if p = q then v else pl_next m q)"
    and "pl_prev (set_prev m p v) q = (if p = q then v else pl_prev m q)"
    and "pl_next (set_prev m p v) q = pl_next m q"
    and "pl_prev (set_next m p v) q = pl_prev m q"
  using assms page_aligned_add4_neq [OF assms] page_aligned_add4_neq [OF assms(2,1)]
  by (auto simp: pl_next_def pl_prev_def set_next_def set_prev_def load32_store32_other)

section \<open>Chains\<close>

fun dll :: "memory \<Rightarrow> u32 \<Rightarrow> u32 list \<Rightarrow> u32 \<Rightarrow> bool" where
  "dll m p [] t = True"
| "dll m p (x # xs) t \<longleftrightarrow>
     page_aligned x \<and> pl_prev m x = p \<and> pl_next m x = hd_or t xs \<and> dll m x xs t"

lemma dll_append:
  "dll m p (xs @ ys) t \<longleftrightarrow> dll m p xs (hd_or t ys) \<and> dll m (last_or p xs) ys t"
  by (induction xs arbitrary: p) (auto simp: hd_or_append)

lemma dll_aligned: "dll m p xs t \<Longrightarrow> x \<in> set xs \<Longrightarrow> page_aligned x"
  by (induction xs arbitrary: p) auto

lemma dll_cong:
  "(\<And>x. x \<in> set xs \<Longrightarrow> pl_next m' x = pl_next m x \<and> pl_prev m' x = pl_prev m x)
    \<Longrightarrow> dll m' p xs t = dll m p xs t"
  by (induction xs arbitrary: p) auto

lemma dll_set_next_other [simp]:
  "page_aligned a \<Longrightarrow> a \<notin> set xs \<Longrightarrow> dll m p xs t \<Longrightarrow> dll (set_next m a v) p xs t"
  by (induction xs arbitrary: p) auto

lemma dll_set_prev_other [simp]:
  "page_aligned a \<Longrightarrow> a \<notin> set xs \<Longrightarrow> dll m p xs t \<Longrightarrow> dll (set_prev m a v) p xs t"
  by (induction xs arbitrary: p) auto

lemma dll_set_prev_hd:
  "dll m p (x # xs) t \<Longrightarrow> x \<notin> set xs \<Longrightarrow> dll (set_prev m x v) v (x # xs) t"
  by auto

lemma dll_set_next_last:
  assumes "dll m p (xs @ [x]) t" and "x \<notin> set xs"
  shows "dll (set_next m x v) p (xs @ [x]) v"
  using assms by (auto simp: dll_append)

lemma dll_prev_of:
  assumes "dll m p (xs @ b # ys) t"
  shows "pl_prev m b = last_or p xs" and "pl_next m b = hd_or t ys"
  using assms by (simp_all add: dll_append)

text \<open>Unlinking the node \<open>b\<close> from the middle, the front or the end of a chain.\<close>

lemma dll_unlink:
  assumes chain: "dll m PAGE_LIST_NULL (xs @ b # ys) PAGE_LIST_NULL" and dist: "distinct (xs @ b # ys)"
    and m1: "m1 = (if last_or PAGE_LIST_NULL xs \<noteq> PAGE_LIST_NULL
                   then set_next m (last_or PAGE_LIST_NULL xs) (hd_or PAGE_LIST_NULL ys) else m)"
    and m2: "m2 = (if hd_or PAGE_LIST_NULL ys \<noteq> PAGE_LIST_NULL
                   then set_prev m1 (hd_or PAGE_LIST_NULL ys) (last_or PAGE_LIST_NULL xs) else m1)"
  shows "dll m2 PAGE_LIST_NULL (xs @ ys) PAGE_LIST_NULL"
proof -
  let ?N = PAGE_LIST_NULL
  have c: "dll m ?N xs b" "dll m b ys ?N" using chain by (simp_all add: dll_append)
  have al: "page_aligned x" if "x \<in> set (xs @ b # ys)" for x using dll_aligned [OF chain that] .
  have A: "dll m1 ?N xs (hd_or ?N ys) \<and> dll m1 b ys ?N"
  proof (cases xs rule: rev_cases)
    case Nil
    then show ?thesis using c m1 by simp
  next
    case (snoc zs z)
    have z: "page_aligned z" using al snoc by simp
    have eq: "m1 = set_next m z (hd_or ?N ys)" using m1 page_aligned_not_null [OF z] snoc by simp
    have "dll m1 ?N xs (hd_or ?N ys)"
      unfolding snoc eq using c(1) dist snoc by (intro dll_set_next_last) auto
    moreover have "dll m1 b ys ?N" unfolding eq using z c(2) dist snoc by auto
    ultimately show ?thesis by simp
  qed
  have "dll m2 ?N xs (hd_or ?N ys) \<and> dll m2 (last_or ?N xs) ys ?N"
  proof (cases ys)
    case Nil
    then show ?thesis using A m2 by simp
  next
    case (Cons y zs)
    have y: "page_aligned y" using al Cons by simp
    have eq: "m2 = set_prev m1 y (last_or ?N xs)" using m2 page_aligned_not_null [OF y] Cons by simp
    have "dll m2 (last_or ?N xs) ys ?N"
      unfolding Cons eq using A dist Cons by (intro dll_set_prev_hd) auto
    moreover have "dll m2 ?N xs (hd_or ?N ys)" unfolding eq using y A dist Cons by auto
    ultimately show ?thesis by simp
  qed
  then show ?thesis by (simp add: dll_append)
qed

lemma unlink_heads:
  assumes "dll m PAGE_LIST_NULL (xs @ b # ys) PAGE_LIST_NULL" and "distinct (xs @ b # ys)"
  shows "(if last_or PAGE_LIST_NULL xs = PAGE_LIST_NULL then hd_or PAGE_LIST_NULL ys
          else hd_or PAGE_LIST_NULL (xs @ b # ys)) = hd_or PAGE_LIST_NULL (xs @ ys)"
proof (cases xs rule: rev_cases)
  case (snoc zs z)
  then have "page_aligned z" using dll_aligned [OF assms(1), of z] by simp
  with snoc show ?thesis by (cases zs) (simp_all add: page_aligned_not_null)
qed simp

end
