(* ===== verification/AVOS_Page_Bitmaps.thy ===== *)
theory AVOS_Page_Bitmaps
  imports AVOS_Page_Lists
begin

text \<open>
  Addresses of blocks and bits of the buddy bitmaps as natural numbers: the frame \<open>n\<close> has
  the kernel address \<open>frame_ptr n\<close>, the block \<open>q\<close> of order \<open>k\<close> starts at
  frame \<open>q * 2 ^ k\<close>, and the bit that a pair of buddies shares is bit \<open>q div 2\<close>
  of the bitmap of order \<open>k\<close>.
\<close>

section \<open>Addresses of frames and blocks\<close>

definition frame_addr :: "nat \<Rightarrow> u32" where
  "frame_addr n = of_nat (n * 4096)"

definition frame_ptr :: "nat \<Rightarrow> u32" where
  "frame_ptr n = frame_addr n + KERNEL_HIGHER_HALF_OFFSET"

definition blk_addr :: "nat \<Rightarrow> nat \<Rightarrow> u32" where
  "blk_addr k q = frame_addr (q * 2 ^ k)"

definition blk_ptr :: "nat \<Rightarrow> nat \<Rightarrow> u32" where
  "blk_ptr k q = frame_ptr (q * 2 ^ k)"

lemma unat_frame_addr: "n < NUM_FRAMES \<Longrightarrow> unat (frame_addr n) = n * 4096"
  by (simp add: frame_addr_def unat_of_nat NUM_FRAMES_def flip: of_nat_mult)

lemma unat_frame_ptr: "n < NUM_FRAMES \<Longrightarrow> unat (frame_ptr n) = n * 4096 + 0x80000000"
  using unat_frame_addr [of n]
  by (simp add: frame_ptr_def KERNEL_HIGHER_HALF_OFFSET_def unat_word_ariths NUM_FRAMES_def)

lemma frame_ptr_aligned [simp]: "n < NUM_FRAMES \<Longrightarrow> page_aligned (frame_ptr n)"
  unfolding page_aligned_def by (simp add: unat_frame_ptr mod_add_eq [symmetric])

lemma frame_ptr_not_null [simp]: "n < NUM_FRAMES \<Longrightarrow> frame_ptr n \<noteq> PAGE_LIST_NULL"
  by (simp add: page_aligned_not_null)

lemma frame_ptr_inj:
  "n < NUM_FRAMES \<Longrightarrow> n' < NUM_FRAMES \<Longrightarrow> frame_ptr n = frame_ptr n' \<longleftrightarrow> n = n'"
  by (metis add_right_cancel mult_cancel2 unat_frame_ptr zero_neq_numeral)

lemma frame_ptr_sub [simp]: "frame_ptr n - KERNEL_HIGHER_HALF_OFFSET = frame_addr n"
  by (simp add: frame_ptr_def)

lemma blk_ptr_sub [simp]: "blk_ptr k q - KERNEL_HIGHER_HALF_OFFSET = blk_addr k q"
  by (simp add: blk_ptr_def blk_addr_def)

lemma blk_addr_add [simp]: "blk_addr k q + KERNEL_HIGHER_HALF_OFFSET = blk_ptr k q"
  by (simp add: blk_ptr_def blk_addr_def frame_ptr_def)

lemma blk_end:
  assumes "k \<le> PAGE_MAX_ORDER" and "q < NUM_FRAMES div 2 ^ k"
  shows "(q + 1) * 2 ^ k \<le> NUM_FRAMES"
proof -
  have "(q + 1) * 2 ^ k \<le> NUM_FRAMES div 2 ^ k * 2 ^ k"
    using assms(2) by (intro mult_le_mono1) simp
  also have "\<dots> \<le> NUM_FRAMES" by (rule div_times_less_eq_dividend)
  finally show ?thesis .
qed

lemma blk_start [simp]:
  assumes "k \<le> PAGE_MAX_ORDER" and "q < NUM_FRAMES div 2 ^ k"
  shows "q * 2 ^ k < NUM_FRAMES"
proof -
  have "q * 2 ^ k < (q + 1) * 2 ^ k" by simp
  also have "\<dots> \<le> NUM_FRAMES" using assms by (rule blk_end)
  finally show ?thesis .
qed

lemma blk_ptr_facts [simp]:
  assumes "k \<le> PAGE_MAX_ORDER" and "q < NUM_FRAMES div 2 ^ k"
  shows "page_aligned (blk_ptr k q)" and "blk_ptr k q \<noteq> PAGE_LIST_NULL"
  using assms by (simp_all add: blk_ptr_def)

lemma unat_blk_addr:
  assumes "k \<le> PAGE_MAX_ORDER" and "q < NUM_FRAMES div 2 ^ k"
  shows "unat (blk_addr k q) = q * 2 ^ (12 + k)"
  using assms by (simp add: blk_addr_def unat_frame_addr power_add)

lemma unat_blk_addr_less:
  assumes "k \<le> PAGE_MAX_ORDER" and "q < NUM_FRAMES div 2 ^ k"
  shows "unat (blk_addr k q) < 0x70000000"
  using blk_start [OF assms] by (simp add: blk_addr_def unat_frame_addr NUM_FRAMES_def)

lemma blk_ptr_inj:
  assumes "k \<le> PAGE_MAX_ORDER" and "q < NUM_FRAMES div 2 ^ k" and "q' < NUM_FRAMES div 2 ^ k"
  shows "blk_ptr k q = blk_ptr k q' \<longleftrightarrow> q = q'"
  using assms by (simp add: blk_ptr_def frame_ptr_inj)

lemma blk_addr_half: "blk_addr k (2 * q) = blk_addr (Suc k) q"
  by (simp add: blk_addr_def ac_simps)

lemma blk_addr_upper_half: "blk_addr (Suc k) q + push_bit (12 + k) 1 = blk_addr k (2 * q + 1)"
proof -
  have "(2 * q + 1) * 2 ^ k * 4096 = q * 2 ^ Suc k * 4096 + 2 ^ (12 + k)"
    by (simp add: algebra_simps power_add)
  then show ?thesis
    unfolding blk_addr_def frame_addr_def push_bit_eq_mult by (simp only: of_nat_add of_nat_power) simp
qed

section \<open>Bits of the bitmaps\<close>

definition map_bit :: "(nat \<Rightarrow> nat \<Rightarrow> u8) \<Rightarrow> nat \<Rightarrow> nat \<Rightarrow> bool" where
  "map_bit M k p = bit (M k (p div 8)) (p mod 8)"

definition map_apply :: "(u8 \<Rightarrow> nat \<Rightarrow> u8) \<Rightarrow> (nat \<Rightarrow> nat \<Rightarrow> u8) \<Rightarrow> nat \<Rightarrow> nat \<Rightarrow> (nat \<Rightarrow> nat \<Rightarrow> u8)" where
  "map_apply f M k p = M(k := (M k)(p div 8 := f (M k (p div 8)) (p mod 8)))"

definition map_toggle :: "(nat \<Rightarrow> nat \<Rightarrow> u8) \<Rightarrow> nat \<Rightarrow> nat \<Rightarrow> (nat \<Rightarrow> nat \<Rightarrow> u8)" where
  "map_toggle = map_apply (\<lambda>b i. b XOR push_bit i 1)"

definition map_set :: "(nat \<Rightarrow> nat \<Rightarrow> u8) \<Rightarrow> nat \<Rightarrow> nat \<Rightarrow> (nat \<Rightarrow> nat \<Rightarrow> u8)" where
  "map_set = map_apply (\<lambda>b i. b OR push_bit i 1)"

lemma same_byte: "p div 8 = p' div 8 \<Longrightarrow> p mod 8 = p' mod 8 \<longleftrightarrow> p = (p' :: nat)"
  by (metis div_mult_mod_eq)

lemma map_bit_toggle: "map_bit (map_toggle M k p) k' p' \<longleftrightarrow> map_bit M k' p' \<noteq> (k = k' \<and> p = p')"
proof -
  have "p' mod 8 < 8" by simp
  then show ?thesis using same_byte [of p p']
    by (auto simp: map_bit_def map_toggle_def map_apply_def bit_simps)
qed

lemma map_bit_set: "map_bit (map_set M k p) k' p' \<longleftrightarrow> map_bit M k' p' \<or> (k = k' \<and> p = p')"
proof -
  have "p' mod 8 < 8" by simp
  then show ?thesis using same_byte [of p p']
    by (auto simp: map_bit_def map_set_def map_apply_def bit_simps)
qed

lemma unat_PAGE_MAP_IDX: "unat (PAGE_MAP_IDX addr k) = unat addr div 2 ^ (13 + k) div 8"
proof -
  have "unat (PAGE_MAP_IDX addr k) = drop_bit (16 + k) (unat addr)"
    unfolding PAGE_MAP_IDX_def unat_drop_bit_eq by (simp add: kernel_consts)
  also have "\<dots> = unat addr div (2 ^ (13 + k) * 8)"
    by (simp add: drop_bit_eq_div power_add)
  finally have "unat (PAGE_MAP_IDX addr k) = unat addr div (2 ^ (13 + k) * 8)" .
  then show ?thesis by (simp only: div_mult2_eq)
qed

lemma unat_PAGE_MAP_BIT: "unat (PAGE_MAP_BIT addr k) = unat addr div 2 ^ (13 + k) mod 8"
proof -
  have "PAGE_MAP_BIT addr k = take_bit 3 (drop_bit (13 + k) addr)"
    by (simp add: PAGE_MAP_BIT_def kernel_consts take_bit_eq_mask mask_eq_exp_minus_1)
  then show ?thesis
    by (simp only: unsigned_take_bit_eq unat_drop_bit_eq) (simp add: drop_bit_eq_div take_bit_eq_mod)
qed

lemma Page_maps_size_eq: "k \<le> PAGE_MAX_ORDER \<Longrightarrow> Page_maps_size k = 7 * 2 ^ (12 - k)"
proof -
  assume "k \<le> PAGE_MAX_ORDER"
  then have "k \<in> set [0, 1, 2, 3, 4, 5, 6, 7, 8, 9, 10]" unfolding PAGE_MAX_ORDER_def by simp presburger
  then show ?thesis by (auto simp: Page_maps_size_def kernel_consts)
qed

text \<open>A bitmap access is inside its array exactly for addresses below \<open>0x70000000\<close>.\<close>

lemma page_map_in_bounds_iff:
  "page_map_in_bounds addr k \<longleftrightarrow> k \<le> PAGE_MAX_ORDER \<and> unat addr < 0x70000000"
proof (cases "k \<le> PAGE_MAX_ORDER")
  case True
  have "unat (PAGE_MAP_IDX addr k) = unat addr div 2 ^ (16 + k)"
    unfolding unat_PAGE_MAP_IDX by (simp add: power_add flip: div_mult2_eq)
  moreover have "unat addr div 2 ^ (16 + k) < 7 * 2 ^ (12 - k) \<longleftrightarrow> unat addr < 7 * 2 ^ (12 - k) * 2 ^ (16 + k)"
    by (rule div_less_iff_less_mult) simp
  moreover have "7 * 2 ^ (12 - k) * 2 ^ (16 + k) = (0x70000000 :: nat)"
    using True by (simp add: PAGE_MAX_ORDER_def mult.assoc flip: power_add)
  ultimately show ?thesis using True by (simp add: page_map_in_bounds_def Page_maps_size_eq)
qed (simp add: page_map_in_bounds_def)

lemma TOGGLEBIT_eq:
  assumes "k \<le> PAGE_MAX_ORDER" and "unat addr < 0x70000000"
  shows "PAGE_MAP_TOGGLEBIT s addr k =
    Inr (s\<lparr>Page_maps := map_toggle (Page_maps s) k (unat addr div 2 ^ (13 + k))\<rparr>)"
  using assms by (simp add: PAGE_MAP_TOGGLEBIT_def page_map_update_def page_map_in_bounds_iff Let_def
      map_toggle_def map_apply_def unat_PAGE_MAP_IDX unat_PAGE_MAP_BIT del: push_bit_of_1)

lemma SETBIT_eq:
  assumes "k \<le> PAGE_MAX_ORDER" and "unat addr < 0x70000000"
  shows "PAGE_MAP_SETBIT s addr k =
    Inr (s\<lparr>Page_maps := map_set (Page_maps s) k (unat addr div 2 ^ (13 + k))\<rparr>)"
  using assms by (simp add: PAGE_MAP_SETBIT_def page_map_update_def page_map_in_bounds_iff Let_def
      map_set_def map_apply_def unat_PAGE_MAP_IDX unat_PAGE_MAP_BIT del: push_bit_of_1)

lemma ISBITSET_eq:
  assumes "k \<le> PAGE_MAX_ORDER" and "unat addr < 0x70000000"
  shows "PAGE_MAP_ISBITSET s addr k = Inr (map_bit (Page_maps s) k (unat addr div 2 ^ (13 + k)))"
proof -
  have "(0 < b AND push_bit i 1) = bit b i" if "i < 8" for b :: u8 and i
  proof -
    have "0 < b AND push_bit i 1 \<longleftrightarrow> b AND push_bit i 1 \<noteq> 0" by (rule word_neq_0_conv [symmetric])
    also have "\<dots> \<longleftrightarrow> bit b i" using and_exp_eq_0_iff_not_bit [of b i] by simp
    finally show ?thesis .
  qed
  then show ?thesis using assms
    by (simp add: PAGE_MAP_ISBITSET_def page_map_in_bounds_iff map_bit_def unat_PAGE_MAP_IDX
        unat_PAGE_MAP_BIT del: push_bit_of_1)
qed

end
