(* ===== verification/AVOS_Page_Refine.thy ===== *)
theory AVOS_Page_Refine
  imports AVOS_Page_Bitmaps
begin

text \<open>
  The refinement relation between the physical page allocator and the abstract buddy system: the
  linked lists in memory hold the blocks of the abstract lists (\<open>lists_ok\<close>), the bitmaps
  say which pairs of buddies have exactly one free member (\<open>bits_ok\<close>), and what every
  single list operation of the code does to that relation.
\<close>

definition lists_ok :: "memory \<Rightarrow> (nat \<Rightarrow> u32) \<Rightarrow> free_lists \<Rightarrow> bool" where
  "lists_ok m H F \<longleftrightarrow> (\<forall>k \<le> PAGE_MAX_ORDER.
     H k = hd_or PAGE_LIST_NULL (map (blk_ptr k) (F k)) \<and>
     dll m PAGE_LIST_NULL (map (blk_ptr k) (F k)) PAGE_LIST_NULL)"

definition bits_ok :: "(nat \<Rightarrow> nat \<Rightarrow> u8) \<Rightarrow> free_lists \<Rightarrow> bool" where
  "bits_ok M F \<longleftrightarrow> (\<forall>k < PAGE_MAX_ORDER. \<forall>q < NUM_FRAMES div 2 ^ k.
     map_bit M k (q div 2) \<longleftrightarrow> q \<in> set (F k) \<or> buddy q \<in> set (F k))"

section \<open>Which memory an operation may write\<close>

definition frame_of :: "u32 \<Rightarrow> nat" where
  "frame_of a = unat (a - KERNEL_HIGHER_HALF_OFFSET) div 4096"

definition same_outside :: "nat set \<Rightarrow> memory \<Rightarrow> memory \<Rightarrow> bool" where
  "same_outside A m m' \<longleftrightarrow> (\<forall>a. frame_of a \<notin> A \<longrightarrow> m' a = m a)"

lemma same_outside_refl [simp]: "same_outside A m m"
  by (simp add: same_outside_def)

lemma same_outside_trans:
  "same_outside A m m' \<Longrightarrow> same_outside B m' m'' \<Longrightarrow> A \<subseteq> C \<Longrightarrow> B \<subseteq> C \<Longrightarrow> same_outside C m m''"
  unfolding same_outside_def by (metis subsetD)

lemma same_outside_mono: "same_outside A m m' \<Longrightarrow> A \<subseteq> C \<Longrightarrow> same_outside C m m'"
  unfolding same_outside_def by blast

lemma frame_of_ptr:
  assumes "n < NUM_FRAMES" and "i < 4096"
  shows "frame_of (frame_ptr n + of_nat i) = n"
proof -
  have eq: "frame_ptr n + of_nat i - KERNEL_HIGHER_HALF_OFFSET = frame_addr n + of_nat i"
    by (simp add: frame_ptr_def)
  have "unat (frame_addr n + of_nat i) = n * 4096 + i"
  proof -
    have "unat (of_nat i :: u32) = i" using assms(2) by (simp add: unat_of_nat)
    with assms show ?thesis
      using unat_frame_addr [OF assms(1)] by (simp add: unat_word_ariths NUM_FRAMES_def)
  qed
  then show ?thesis unfolding frame_of_def eq using assms(2) by simp
qed

lemma same_outside_store32:
  assumes "n < NUM_FRAMES" and "n \<in> A" and "i + 3 < 4096"
  shows "same_outside A m (store32 m (frame_ptr n + of_nat i) v)"
  unfolding same_outside_def
proof (intro allI impI)
  fix a assume a: "frame_of a \<notin> A"
  have "a \<noteq> frame_ptr n + of_nat j" if "j < 4096" for j
    using frame_of_ptr [OF assms(1) that] assms(2) a by auto
  from this [of i] this [of "i + 1"] this [of "i + 2"] this [of "i + 3"] assms(3)
  show "store32 m (frame_ptr n + of_nat i) v a = m a"
    by (intro store32_other) (simp_all add: ac_simps)
qed

lemma same_outside_set [intro]:
  assumes "n < NUM_FRAMES" and "n \<in> A"
  shows "same_outside A m (set_next m (frame_ptr n) v)" and "same_outside A m (set_prev m (frame_ptr n) v)"
  using same_outside_store32 [OF assms, of 0] same_outside_store32 [OF assms, of 4]
  by (simp_all add: set_next_def set_prev_def)

lemma same_outside_blk:
  assumes "k \<le> PAGE_MAX_ORDER" and "q < NUM_FRAMES div 2 ^ k" and "blk k q \<subseteq> A"
    and "same_outside A m0 m"
  shows "same_outside A m0 (set_next m (blk_ptr k q) v)" and "same_outside A m0 (set_prev m (blk_ptr k q) v)"
proof -
  have "q * 2 ^ k \<in> A" using assms(3) blk_nonempty by blast
  then have "same_outside A m (set_next m (blk_ptr k q) v)" "same_outside A m (set_prev m (blk_ptr k q) v)"
    unfolding blk_ptr_def using assms(1,2) by auto
  with assms(4) show "same_outside A m0 (set_next m (blk_ptr k q) v)"
    and "same_outside A m0 (set_prev m (blk_ptr k q) v)" by (blast intro: same_outside_trans)+
qed

section \<open>Nodes of different lists are different\<close>

lemma blk_ptr_fresh:
  assumes inv: "buddy_inv F" and j: "j \<le> PAGE_MAX_ORDER" and k: "k \<le> PAGE_MAX_ORDER"
    and q: "q < NUM_FRAMES div 2 ^ k" and fresh: "blk k q \<inter> free_frames F = {}"
  shows "blk_ptr k q \<notin> set (map (blk_ptr j) (F j))"
proof
  assume "blk_ptr k q \<in> set (map (blk_ptr j) (F j))"
  then obtain p where p: "p \<in> set (F j)" and eq: "blk_ptr k q = blk_ptr j p" by auto
  have "q * 2 ^ k = p * 2 ^ j"
    using eq blk_start [OF k q] blk_start [OF j buddy_invD(2) [OF inv j p]]
    unfolding blk_ptr_def by (simp add: frame_ptr_inj)
  then have "q * 2 ^ k \<in> free_frames F"
    using p by (intro in_free_frames [OF j]) simp
  with fresh blk_nonempty show False by blast
qed

lemma blk_ptr_other_list:
  assumes inv: "buddy_inv F" and j: "j \<le> PAGE_MAX_ORDER" and k: "k \<le> PAGE_MAX_ORDER"
    and q: "q \<in> set (F k)" and "j \<noteq> k"
  shows "blk_ptr k q \<notin> set (map (blk_ptr j) (F j))"
proof
  assume "blk_ptr k q \<in> set (map (blk_ptr j) (F j))"
  then obtain p where p: "p \<in> set (F j)" and eq: "blk_ptr k q = blk_ptr j p" by auto
  have "q * 2 ^ k = p * 2 ^ j"
    using eq blk_start [OF k buddy_invD(2) [OF inv k q]] blk_start [OF j buddy_invD(2) [OF inv j p]]
    unfolding blk_ptr_def by (simp add: frame_ptr_inj)
  then have "q * 2 ^ k div 2 ^ j \<in> set (F j)" using p by simp
  moreover have "q * 2 ^ k div 2 ^ k \<in> set (F k)" using q by simp
  ultimately show False using buddy_inv_unique [OF inv j k] assms(5) by blast
qed

lemma distinct_nodes:
  assumes "buddy_inv F" and "k \<le> PAGE_MAX_ORDER"
  shows "distinct (map (blk_ptr k) (F k))"
  using assms buddy_invD(1,2) [OF assms] by (auto simp: distinct_map inj_on_def blk_ptr_inj)

lemma listed_block:
  assumes "buddy_inv F" and "k \<le> PAGE_MAX_ORDER" and "q \<in> set (F k)"
  shows "page_aligned (blk_ptr k q)" and "blk_ptr k q \<noteq> PAGE_LIST_NULL" and "blk k q \<subseteq> free_frames F"
  using assms buddy_invD(2) [OF assms(1,2)] by (auto simp: blk_def free_frames_def)

lemma lists_okD:
  assumes "lists_ok m H F" and "k \<le> PAGE_MAX_ORDER"
  shows "H k = hd_or PAGE_LIST_NULL (map (blk_ptr k) (F k))"
    and "dll m PAGE_LIST_NULL (map (blk_ptr k) (F k)) PAGE_LIST_NULL"
  using assms by (auto simp: lists_ok_def)

lemma lists_ok_change:
  assumes "lists_ok m H F"
    and "h = hd_or PAGE_LIST_NULL (map (blk_ptr k) xs)"
    and "dll m' PAGE_LIST_NULL (map (blk_ptr k) xs) PAGE_LIST_NULL"
    and "\<And>j. j \<le> PAGE_MAX_ORDER \<Longrightarrow> j \<noteq> k \<Longrightarrow>
      dll m' PAGE_LIST_NULL (map (blk_ptr j) (F j)) PAGE_LIST_NULL"
  shows "lists_ok m' (H(k := h)) (F(k := xs))"
  using assms by (auto simp: lists_ok_def)

section \<open>Pushing, popping and unlinking\<close>

lemma push_ok:
  assumes inv: "buddy_inv F" and ok: "lists_ok (mem s) (Page_lists s) F"
    and k: "k \<le> PAGE_MAX_ORDER" and q: "q < NUM_FRAMES div 2 ^ k"
    and fresh: "blk k q \<inter> free_frames F = {}"
  shows "lists_ok (mem (page_list_push s k (blk_ptr k q))) (Page_lists (page_list_push s k (blk_ptr k q)))
           (F(k := q # F k))"
    and "same_outside (free_frames F \<union> blk k q) (mem s) (mem (page_list_push s k (blk_ptr k q)))"
proof -
  let ?p = "blk_ptr k q" and ?N = PAGE_LIST_NULL
  let ?m2 = "set_next (set_prev (mem s) ?p ?N) ?p (Page_lists s k)"
  let ?m3 = "if Page_lists s k \<noteq> ?N then set_prev ?m2 (Page_lists s k) ?p else ?m2"
  have al: "page_aligned ?p" using k q by simp
  have notin: "?p \<notin> set (map (blk_ptr j) (F j))" if "j \<le> PAGE_MAX_ORDER" for j
    by (rule blk_ptr_fresh [OF inv that k q fresh])
  have m2: "dll ?m2 ?N (map (blk_ptr j) (F j)) ?N" if "j \<le> PAGE_MAX_ORDER" for j
    using lists_okD(2) [OF ok that] notin [OF that] al by (intro dll_set_next_other dll_set_prev_other)
  have other: "dll ?m3 ?N (map (blk_ptr j) (F j)) ?N" if j: "j \<le> PAGE_MAX_ORDER" "j \<noteq> k" for j
  proof (cases "F k")
    case Nil
    then show ?thesis using m2 [OF j(1)] lists_okD(1) [OF ok k] by simp
  next
    case (Cons r rs)
    then have "blk_ptr k r \<notin> set (map (blk_ptr j) (F j))" "page_aligned (blk_ptr k r)"
      using blk_ptr_other_list [OF inv j(1) k _ j(2)] listed_block [OF inv k] by auto
    then show ?thesis using m2 [OF j(1)] lists_okD(1) [OF ok k] Cons by (simp add: page_aligned_not_null)
  qed
  have chain: "dll ?m3 ?N (map (blk_ptr k) (q # F k)) ?N"
  proof (cases "F k")
    case Nil
    then show ?thesis using lists_okD(1) [OF ok k] al by simp
  next
    case (Cons r rs)
    have r: "page_aligned (blk_ptr k r)" "blk_ptr k r \<noteq> ?N" using listed_block [OF inv k] Cons by auto
    have "blk_ptr k r \<notin> set (map (blk_ptr k) rs)" "?p \<noteq> blk_ptr k r"
      using distinct_nodes [OF inv k] notin [OF k] Cons by auto
    then have "dll (set_prev ?m2 (blk_ptr k r) ?p) ?p (map (blk_ptr k) (F k)) ?N"
      using m2 [OF k] unfolding Cons list.map by (intro dll_set_prev_hd) auto
    then show ?thesis using lists_okD(1) [OF ok k] al r Cons \<open>?p \<noteq> blk_ptr k r\<close> by simp
  qed
  have push: "mem (page_list_push s k ?p) = ?m3" "Page_lists (page_list_push s k ?p) = (Page_lists s)(k := ?p)"
    by (simp_all add: page_list_push_def Let_def)
  show "lists_ok (mem (page_list_push s k ?p)) (Page_lists (page_list_push s k ?p)) (F(k := q # F k))"
    unfolding push using chain other by (intro lists_ok_change [OF ok]) simp_all
  have A: "same_outside (free_frames F \<union> blk k q) (mem s) ?m2"
    using k q by (intro same_outside_blk) auto
  show "same_outside (free_frames F \<union> blk k q) (mem s) (mem (page_list_push s k ?p))"
    unfolding push
  proof (cases "F k")
    case (Cons r rs)
    with listed_block(3) [OF inv k, of r] buddy_invD(2) [OF inv k, of r] lists_okD(1) [OF ok k] A k
    show "same_outside (free_frames F \<union> blk k q) (mem s) ?m3" by (auto intro!: same_outside_blk)
  qed (use lists_okD(1) [OF ok k] A in simp)
qed

lemma pop_ok:
  assumes inv: "buddy_inv F" and ok: "lists_ok (mem s) (Page_lists s) F"
    and k: "k \<le> PAGE_MAX_ORDER" and F: "F k = q # qs"
  shows "lists_ok (mem (acquire_pop s k)) (Page_lists (acquire_pop s k)) (F(k := qs))"
    and "same_outside (free_frames F) (mem s) (mem (acquire_pop s k))"
proof -
  let ?N = PAGE_LIST_NULL let ?h = "hd_or ?N (map (blk_ptr k) qs)"
  let ?m = "if ?h \<noteq> ?N then set_prev (mem s) ?h ?N else mem s"
  have chain: "dll (mem s) ?N (blk_ptr k q # map (blk_ptr k) qs) ?N" and hd: "Page_lists s k = blk_ptr k q"
    using lists_okD [OF ok k] F by simp_all
  have pop: "mem (acquire_pop s k) = ?m" "Page_lists (acquire_pop s k) = (Page_lists s)(k := ?h)"
    using chain hd by (simp_all add: acquire_pop_def Let_def)
  have both: "dll ?m ?N (map (blk_ptr k) qs) ?N \<and>
      (\<forall>j \<le> PAGE_MAX_ORDER. j \<noteq> k \<longrightarrow> dll ?m ?N (map (blk_ptr j) (F j)) ?N) \<and>
      same_outside (free_frames F) (mem s) ?m"
  proof (cases qs)
    case Nil
    then show ?thesis using lists_okD(2) [OF ok] by simp
  next
    case (Cons r rs)
    have r: "r \<in> set (F k)" using F Cons by simp
    have m: "?m = set_prev (mem s) (blk_ptr k r) ?N" using listed_block(2) [OF inv k r] Cons by simp
    have "blk_ptr k r \<notin> set (map (blk_ptr k) rs)" using distinct_nodes [OF inv k] F Cons by auto
    then have "dll ?m ?N (map (blk_ptr k) qs) ?N"
      unfolding m unfolding Cons list.map using chain Cons by (intro dll_set_prev_hd) auto
    moreover have "dll ?m ?N (map (blk_ptr j) (F j)) ?N" if "j \<le> PAGE_MAX_ORDER" "j \<noteq> k" for j
      unfolding m using blk_ptr_other_list [OF inv that(1) k r that(2)] listed_block(1) [OF inv k r]
        lists_okD(2) [OF ok that(1)] by simp
    moreover have "same_outside (free_frames F) (mem s) ?m"
      unfolding m using buddy_invD(2) [OF inv k r] listed_block(3) [OF inv k r] k
      by (intro same_outside_blk) auto
    ultimately show ?thesis by blast
  qed
  show "lists_ok (mem (acquire_pop s k)) (Page_lists (acquire_pop s k)) (F(k := qs))"
    unfolding pop using both by (intro lists_ok_change [OF ok]) simp_all
  show "same_outside (free_frames F) (mem s) (mem (acquire_pop s k))"
    unfolding pop using both by simp
qed

lemma break_ok:
  assumes inv: "buddy_inv F" and ok: "lists_ok (mem s) (Page_lists s) F"
    and k: "k \<le> PAGE_MAX_ORDER" and q: "2 * q + 1 < NUM_FRAMES div 2 ^ k"
    and fresh: "blk k (2 * q + 1) \<inter> free_frames F = {}"
  shows "lists_ok (mem (acquire_break s (blk_addr (Suc k) q) k))
           (Page_lists (acquire_break s (blk_addr (Suc k) q) k)) (F(k := [2 * q + 1]))"
    and "same_outside (blk k (2 * q + 1)) (mem s) (mem (acquire_break s (blk_addr (Suc k) q) k))"
proof -
  let ?p = "blk_ptr k (2 * q + 1)" and ?N = PAGE_LIST_NULL
  let ?m = "set_prev (set_next (mem s) ?p ?N) ?p ?N"
  have brk: "mem (acquire_break s (blk_addr (Suc k) q) k) = ?m"
      "Page_lists (acquire_break s (blk_addr (Suc k) q) k) = (Page_lists s)(k := ?p)"
    unfolding acquire_break_def blk_addr_upper_half blk_addr_add by (simp_all add: Let_def)
  have al: "page_aligned ?p" using blk_ptr_facts(1) [OF k q] .
  have other: "dll ?m ?N (map (blk_ptr j) (F j)) ?N" if j: "j \<le> PAGE_MAX_ORDER" "j \<noteq> k" for j
    using blk_ptr_fresh [OF inv j(1) k q fresh] al lists_okD(2) [OF ok j(1)]
    by (intro dll_set_next_other dll_set_prev_other)
  show "lists_ok (mem (acquire_break s (blk_addr (Suc k) q) k))
      (Page_lists (acquire_break s (blk_addr (Suc k) q) k)) (F(k := [2 * q + 1]))"
    unfolding brk using al other by (intro lists_ok_change [OF ok]) simp_all
  show "same_outside (blk k (2 * q + 1)) (mem s) (mem (acquire_break s (blk_addr (Suc k) q) k))"
    unfolding brk by (intro same_outside_blk k q) simp_all
qed

end
