(* ===== verification/AVOS_Page_Merge.thy ===== *)
theory AVOS_Page_Merge
  imports AVOS_Page_Refine
begin

text \<open>
  The merging half of the allocator: the buddy of a block, unlinking it from its list, the loop
  that toggles the bitmaps up to the level where the released block stays, and the loop that
  unlinks the buddies met on the way.
\<close>

section \<open>Buddies as addresses\<close>

lemma buddy_bound:
  assumes "k < PAGE_MAX_ORDER" and "q < NUM_FRAMES div 2 ^ k"
  shows "buddy q < NUM_FRAMES div 2 ^ k"
proof (cases "even q")
  case True
  with even_frames_div [OF assms(1)] assms(2) show ?thesis
    by (auto simp: buddy_def elim!: evenE)
qed (use assms(2) in \<open>simp add: buddy_def\<close>)

lemma parent_bound:
  assumes "k < PAGE_MAX_ORDER" and "q < NUM_FRAMES div 2 ^ k"
  shows "q div 2 < NUM_FRAMES div 2 ^ Suc k"
  using even_frames_div [OF assms(1)] assms(2) unfolding div_Suc_power by (auto elim!: evenE)

lemma blk_addr_nat: "blk_addr k q = of_nat (q * 2 ^ (12 + k))"
  by (simp add: blk_addr_def frame_addr_def power_add ac_simps)

lemma PAGE_BUDDY_eq:
  assumes "k < PAGE_MAX_ORDER" and "q < NUM_FRAMES div 2 ^ k"
  shows "PAGE_BUDDY (blk_addr k q) k = blk_addr k (buddy q)"
proof -
  have k: "k \<le> PAGE_MAX_ORDER" "k < 10" using assms(1) by (simp_all add: PAGE_MAX_ORDER_def)
  have two: "unat (push_bit (13 + k) 1 :: u32) = 2 ^ (13 + k)"
    using k unat_2_power [where ?'a = 32, of "13 + k"] by (simp only: push_bit_of_1) simp
  have "blk_addr k q mod push_bit (13 + k) 1 = 0 \<longleftrightarrow> unat (blk_addr k q mod push_bit (13 + k) 1) = 0"
    by (rule unat_eq_zero [symmetric])
  also have "\<dots> \<longleftrightarrow> q * 2 ^ (12 + k) mod (2 * 2 ^ (12 + k)) = 0"
    unfolding unat_mod two unat_blk_addr [OF k(1) assms(2)] by (simp only: power_add) simp
  also have "\<dots> \<longleftrightarrow> even q" unfolding mod_mult_mult2 by (simp add: even_iff_mod_2_eq_zero)
  finally have mod: "blk_addr k q mod push_bit (13 + k) 1 = 0 \<longleftrightarrow> even q" .
  have *: "q * 2 ^ (12 + k) + 2 ^ (12 + k) = (q + 1) * 2 ^ (12 + k)" by simp
  show ?thesis
  proof (cases "even q")
    case True
    have "blk_addr k q + push_bit (12 + k) 1 = of_nat (q * 2 ^ (12 + k) + 2 ^ (12 + k))"
      unfolding blk_addr_nat push_bit_of_1 by simp
    with True mod show ?thesis
      unfolding PAGE_BUDDY_def * by (simp add: kernel_consts buddy_def blk_addr_nat)
  next
    case False
    then obtain r where r: "q = r + 1" by (metis Suc_eq_plus1 not0_implies_Suc even_zero)
    have "blk_addr k q = of_nat (r * 2 ^ (12 + k)) + push_bit (12 + k) 1"
      unfolding blk_addr_nat push_bit_of_1 r by (simp add: algebra_simps)
    with False mod show ?thesis
      unfolding PAGE_BUDDY_def by (simp add: kernel_consts buddy_def blk_addr_nat r del: push_bit_of_1)
  qed
qed

section \<open>Unlinking the buddy\<close>

text \<open>Writing a link of a node of one list keeps the other lists and writes only to free frames.\<close>

lemma dll_other_list:
  assumes "buddy_inv F" "j \<le> PAGE_MAX_ORDER" "k \<le> PAGE_MAX_ORDER" "r \<in> set (F k)" "j \<noteq> k"
    and "dll m PAGE_LIST_NULL (map (blk_ptr j) (F j)) PAGE_LIST_NULL"
  shows "dll (set_next m (blk_ptr k r) v) PAGE_LIST_NULL (map (blk_ptr j) (F j)) PAGE_LIST_NULL"
    and "dll (set_prev m (blk_ptr k r) v) PAGE_LIST_NULL (map (blk_ptr j) (F j)) PAGE_LIST_NULL"
  using assms(6) listed_block(1) [OF assms(1,3,4)] blk_ptr_other_list [OF assms(1-5)]
  by (auto intro: dll_set_next_other dll_set_prev_other simp del: set_map)

lemma same_outside_node:
  assumes "buddy_inv F" "k \<le> PAGE_MAX_ORDER" "r \<in> set (F k)" "same_outside (free_frames F) m0 m"
  shows "same_outside (free_frames F) m0 (set_next m (blk_ptr k r) v)"
    and "same_outside (free_frames F) m0 (set_prev m (blk_ptr k r) v)"
  using same_outside_blk [OF assms(2) buddy_invD(2) [OF assms(1-3)] listed_block(3) [OF assms(1-3)] assms(4)] by blast+

lemma unlink_ok:
  assumes inv: "buddy_inv F" and ok: "lists_ok (mem s) (Page_lists s) F"
    and k: "k \<le> PAGE_MAX_ORDER" and b: "b \<in> set (F k)" and addr: "PAGE_BUDDY addr k = blk_addr k b"
  shows "lists_ok (mem (release_unlink s addr k)) (Page_lists (release_unlink s addr k))
           (F(k := remove1 b (F k)))"
    and "same_outside (free_frames F) (mem s) (mem (release_unlink s addr k))"
proof -
  let ?N = PAGE_LIST_NULL and ?b = "blk_ptr k b"
  obtain xs ys where F: "F k = xs @ b # ys" using b by (meson split_list)
  let ?X = "map (blk_ptr k) xs" and ?Y = "map (blk_ptr k) ys"
  have dist: "distinct (?X @ ?b # ?Y)" using distinct_nodes [OF inv k] F by simp
  have chain: "dll (mem s) ?N (?X @ ?b # ?Y) ?N" and hd: "Page_lists s k = hd_or ?N (?X @ ?b # ?Y)"
    using lists_okD [OF ok k] F by simp_all
  have al: "page_aligned ?b" by (rule listed_block [OF inv k b])
  have memb: "r \<in> set (F k)" if "r \<in> set xs \<union> set ys" for r using that F by auto
  let ?p = "last_or ?N ?X" and ?n = "hd_or ?N ?Y"
  define m1 where "m1 = (if ?p \<noteq> ?N then set_next (mem s) ?p ?n else mem s)"
  define m2 where "m2 = (if ?n \<noteq> ?N then set_prev m1 ?n ?p else m1)"
  define m4 where "m4 = set_next (set_prev m2 ?b 0) ?b 0"
  have p: "?p = ?N \<or> (\<exists>r \<in> set xs. ?p = blk_ptr k r)"
    by (cases xs rule: rev_cases) auto
  have n: "?n = ?N \<or> (\<exists>r \<in> set ys. ?n = blk_ptr k r)"
    by (cases ys) auto
  have pa: "page_aligned ?p" if "?p \<noteq> ?N" using p that listed_block(1) [OF inv k memb] by fastforce
  have na: "page_aligned ?n" if "?n \<noteq> ?N" using n that listed_block(1) [OF inv k memb] by fastforce
  have nb: "?n \<noteq> ?b" "?p \<noteq> ?b" using n p dist page_aligned_not_null [OF al] by (fastforce simp: image_iff)+
  have links: "pl_prev (mem s) ?b = ?p" "pl_next (mem s) ?b = ?n" using dll_prev_of [OF chain] .
  have l1: "pl_prev m1 ?b = ?p" "pl_next m1 ?b = ?n"
    using links al pa nb by (simp_all add: m1_def)
  have l2: "pl_prev m2 ?b = ?p" "pl_next m2 ?b = ?n"
    using l1 al na nb by (simp_all add: m2_def)
  have pls: "(if ?p = ?N then (Page_lists s)(k := ?n) else Page_lists s) =
      (Page_lists s)(k := hd_or ?N (?X @ ?Y))"
    using unlink_heads [OF chain dist] hd by (cases "?p = ?N") auto
  have unl: "mem (release_unlink s addr k) = m4"
      "Page_lists (release_unlink s addr k) = (Page_lists s)(k := hd_or ?N (?X @ ?Y))"
    using pls unfolding release_unlink_def addr blk_addr_add Let_def links m1_def [symmetric] l1
      m2_def [symmetric] l2 m4_def [symmetric] by simp_all
  have rem: "remove1 b (F k) = xs @ ys" using dist F by (auto simp: remove1_append)
  have "dll m2 ?N (?X @ ?Y) ?N" by (rule dll_unlink [OF chain dist m1_def m2_def])
  then have main: "dll m4 ?N (?X @ ?Y) ?N"
    unfolding m4_def using al dist by (intro dll_set_next_other dll_set_prev_other) auto
  have other: "dll m4 ?N (map (blk_ptr j) (F j)) ?N" if j: "j \<le> PAGE_MAX_ORDER" "j \<noteq> k" for j
  proof -
    note keep = dll_other_list [OF inv j(1) k _ j(2)]
    have "dll m1 ?N (map (blk_ptr j) (F j)) ?N" unfolding m1_def using lists_okD(2) [OF ok j(1)] p keep [OF memb] by auto
    then have "dll m2 ?N (map (blk_ptr j) (F j)) ?N" unfolding m2_def using n keep [OF memb] by auto
    then show ?thesis unfolding m4_def by (intro keep b)
  qed
  show "lists_ok (mem (release_unlink s addr k)) (Page_lists (release_unlink s addr k))
      (F(k := remove1 b (F k)))"
    unfolding unl rem using main other by (intro lists_ok_change [OF ok]) simp_all
  note so = same_outside_node [OF inv k]
  have "same_outside (free_frames F) (mem s) m1"
    unfolding m1_def using p so [OF memb] by auto
  then have "same_outside (free_frames F) (mem s) m2"
    unfolding m2_def using n so [OF memb] by auto
  then show "same_outside (free_frames F) (mem s) (mem (release_unlink s addr k))"
    unfolding unl m4_def using so [OF b] by blast
qed

section \<open>The bitmap of a pair of buddies\<close>

lemma bits_ok_toggle:
  assumes ok: "bits_ok M F"
    and flip: "k < PAGE_MAX_ORDER \<Longrightarrow>
      (q \<in> set xs \<or> buddy q \<in> set xs) \<noteq> (q \<in> set (F k) \<or> buddy q \<in> set (F k))"
    and other: "\<And>p. p \<noteq> q \<Longrightarrow> p \<noteq> buddy q \<Longrightarrow> p \<in> set xs \<longleftrightarrow> p \<in> set (F k)"
  shows "bits_ok (map_toggle M k (q div 2)) (F(k := xs))"
  unfolding bits_ok_def
proof (intro allI impI)
  fix j p assume j: "j < PAGE_MAX_ORDER" and p: "p < NUM_FRAMES div 2 ^ j"
  have old: "map_bit M j (p div 2) \<longleftrightarrow> p \<in> set (F j) \<or> buddy p \<in> set (F j)"
    using ok j p by (simp add: bits_ok_def)
  show "map_bit (map_toggle M k (q div 2)) j (p div 2) \<longleftrightarrow>
      p \<in> set ((F(k := xs)) j) \<or> buddy p \<in> set ((F(k := xs)) j)"
  proof (cases "j = k \<and> (p = q \<or> p = buddy q)")
    case True
    then have "map_bit (map_toggle M k (q div 2)) j (p div 2) \<longleftrightarrow> \<not> map_bit M j (p div 2)"
      by (auto simp: map_bit_toggle)
    with True flip j old show ?thesis by auto
  next
    case False
    then have "map_bit (map_toggle M k (q div 2)) j (p div 2) \<longleftrightarrow> map_bit M j (p div 2)"
      by (auto simp: map_bit_toggle div_2_eq_iff [of q p])
    moreover have "j = k \<Longrightarrow> p \<in> set xs \<longleftrightarrow> p \<in> set (F k)" using False by (intro other) auto
    moreover have "j = k \<Longrightarrow> buddy p \<in> set xs \<longleftrightarrow> buddy p \<in> set (F k)"
      using False by (intro other) (metis buddy_buddy)+
    ultimately show ?thesis using old by auto
  qed
qed

section \<open>The level at which a released block stays\<close>

function a_level :: "free_lists \<Rightarrow> nat \<Rightarrow> nat \<Rightarrow> nat" where
  "a_level F k q =
     (if k \<ge> PAGE_MAX_ORDER \<or> buddy q \<notin> set (F k) then k
      else a_level (F(k := remove1 (buddy q) (F k))) (Suc k) (q div 2))"
  by pat_completeness auto
termination
  by (relation "measure (\<lambda>(F, k, q). PAGE_MAX_ORDER - k)") auto

declare a_level.simps [simp del]

lemma level_stop:
  assumes "k \<ge> PAGE_MAX_ORDER \<or> buddy q \<notin> set (F k)"
  shows "a_level F k q = k" and "a_release F k q = F(k := q # F k)"
  using assms by (simp_all only: a_level.simps [of F k q] a_release.simps [of F k q] if_True)

lemma level_merge:
  assumes "\<not> (k \<ge> PAGE_MAX_ORDER \<or> buddy q \<notin> set (F k))"
  shows "a_level F k q = a_level (F(k := remove1 (buddy q) (F k))) (Suc k) (q div 2)"
    and "a_release F k q = a_release (F(k := remove1 (buddy q) (F k))) (Suc k) (q div 2)"
  using assms by (simp_all only: a_level.simps [of F k q] a_release.simps [of F k q] if_False)

lemma a_level_bounds: "k \<le> PAGE_MAX_ORDER \<Longrightarrow> k \<le> a_level F k q \<and> a_level F k q \<le> PAGE_MAX_ORDER"
proof (induction F k q rule: a_level.induct)
  case (1 F k q)
  show ?case
  proof (cases "k \<ge> PAGE_MAX_ORDER \<or> buddy q \<notin> set (F k)")
    case True
    then show ?thesis using "1.prems" by (simp only: level_stop order_refl simp_thms)
  next
    case False
    then have "Suc k \<le> PAGE_MAX_ORDER" by simp
    from "1.IH" [OF False this] show ?thesis unfolding level_merge(1) [of k q F, OF False] by linarith
  qed
qed

lemma released_not_listed:
  assumes "k \<le> PAGE_MAX_ORDER" and "blk k q \<inter> free_frames F = {}"
  shows "q \<notin> set (F k)"
proof
  assume "q \<in> set (F k)"
  then have "q * 2 ^ k \<in> free_frames F" by (intro in_free_frames [OF assms(1)]) simp
  with assms(2) blk_nonempty show False by blast
qed

lemma merge_step:
  assumes inv: "buddy_inv F" and k: "k < PAGE_MAX_ORDER" and q: "q < NUM_FRAMES div 2 ^ k"
    and fresh: "blk k q \<inter> free_frames F = {}" and b: "buddy q \<in> set (F k)"
  defines "F' \<equiv> F(k := remove1 (buddy q) (F k))"
  shows "buddy_inv F'" and "q div 2 < NUM_FRAMES div 2 ^ Suc k"
    and "blk (Suc k) (q div 2) \<inter> free_frames F' = {}"
    and "free_frames F' \<union> blk (Suc k) (q div 2) = free_frames F \<union> blk k q"
proof -
  have dist: "distinct (F k)" using buddy_invD(1) [OF inv] k by simp
  have set: "set (remove1 (buddy q) (F k)) = set (F k) - {buddy q}" using dist by simp
  have free: "free_frames F' = free_frames F - blk k (buddy q)"
    unfolding F'_def using free_frames_remove [OF inv _ b set] k by simp
  show "buddy_inv F'" unfolding F'_def using dist set by (intro buddy_inv_subset [OF inv]) auto
  show "q div 2 < NUM_FRAMES div 2 ^ Suc k" using k q by (rule parent_bound)
  show "blk (Suc k) (q div 2) \<inter> free_frames F' = {}" using fresh by (auto simp: blk_Suc free)
  show "free_frames F' \<union> blk (Suc k) (q div 2) = free_frames F \<union> blk k q"
    using listed_block(3) [OF inv _ b] k by (auto simp: blk_Suc free)
qed

lemma toggle_ok:
  assumes "buddy_inv F" and "bits_ok (Page_maps s) F" and "k \<le> PAGE_MAX_ORDER"
    and "q < NUM_FRAMES div 2 ^ k" and "blk k q \<inter> free_frames F = {}"
    and "unat addr div 2 ^ (12 + k) = q" and "unat addr < 0x70000000"
  shows "\<exists>M. release_toggle s addr k = Inr (s\<lparr>Page_maps := M\<rparr>, a_level F k q) \<and>
    bits_ok M (a_release F k q)"
  using assms
proof (induction F k q arbitrary: s rule: a_release.induct)
  case (1 F k q)
  let ?M = "map_toggle (Page_maps s) k (q div 2)"
  have pair: "unat addr div 2 ^ (13 + k) = q div 2"
    using "1.prems"(6) div_Suc_power [of "unat addr" "12 + k"] by simp
  have tog: "PAGE_MAP_TOGGLEBIT s addr k = Inr (s\<lparr>Page_maps := ?M\<rparr>)"
    using TOGGLEBIT_eq [OF "1.prems"(3,7), of s] unfolding pair .
  have isset: "PAGE_MAP_ISBITSET (s\<lparr>Page_maps := ?M\<rparr>) addr k = Inr (map_bit ?M k (q div 2))"
    using ISBITSET_eq [OF "1.prems"(3,7), of "s\<lparr>Page_maps := ?M\<rparr>"] unfolding pair by simp
  have notin: "q \<notin> set (F k)" using released_not_listed "1.prems"(3,5) by blast
  have bit: "map_bit ?M k (q div 2) \<longleftrightarrow> buddy q \<notin> set (F k)" if "k < PAGE_MAX_ORDER"
    using "1.prems"(2,4) that notin by (simp add: bits_ok_def map_bit_toggle)
  show ?case
  proof (cases "k \<ge> PAGE_MAX_ORDER \<or> buddy q \<notin> set (F k)")
    case True
    have "release_toggle s addr k = Inr (s\<lparr>Page_maps := ?M\<rparr>, k)"
      using True "1.prems"(3) bit by (subst release_toggle.simps) (auto simp: tog isset)
    moreover have "bits_ok ?M (F(k := q # F k))"
      using True notin by (intro bits_ok_toggle "1.prems") auto
    ultimately show ?thesis
      unfolding level_stop [of k q F, OF True] by (intro exI [of _ ?M] conjI)
  next
    case False
    let ?F = "F(k := remove1 (buddy q) (F k))"
    have k: "k < PAGE_MAX_ORDER" and b: "buddy q \<in> set (F k)" using False by auto
    note step = merge_step [OF "1.prems"(1) k "1.prems"(4,5) b]
    have dist: "distinct (F k)" using buddy_invD(1) "1.prems"(1,3) by blast
    have pm: "Page_maps (s\<lparr>Page_maps := ?M\<rparr>) = ?M" by simp
    have bits: "bits_ok (Page_maps (s\<lparr>Page_maps := ?M\<rparr>)) ?F" unfolding pm
      using notin b dist by (intro bits_ok_toggle "1.prems") auto
    have addr: "unat addr div 2 ^ (12 + Suc k) = q div 2" using pair by simp
    have "\<exists>M. release_toggle (s\<lparr>Page_maps := ?M\<rparr>) addr (Suc k) =
          Inr (s\<lparr>Page_maps := ?M\<rparr>\<lparr>Page_maps := M\<rparr>, a_level ?F (Suc k) (q div 2)) \<and>
        bits_ok M (a_release ?F (Suc k) (q div 2))"
      using k by (intro "1.IH" [OF False step(1) bits _ step(2,3) addr "1.prems"(7)]) simp
    moreover have "release_toggle s addr k = release_toggle (s\<lparr>Page_maps := ?M\<rparr>) addr (Suc k)"
      using k b bit by (subst release_toggle.simps) (auto simp: tog isset)
    ultimately show ?thesis unfolding level_merge [of k q F, OF False] by simp
  qed
qed

text \<open>
  The second loop computes the buddy at level \<open>j\<close> from the address that was passed in, not
  from the merged block, so it finds the buddy only if that address is aligned to the levels the
  block is merged through.
\<close>

definition merge_aligned :: "u32 \<Rightarrow> nat \<Rightarrow> nat \<Rightarrow> bool" where
  "merge_aligned addr k i \<longleftrightarrow> (\<forall>j. k \<le> j \<longrightarrow> j < i \<longrightarrow> unat addr mod 2 ^ (12 + j) = 0)"

lemma merge_alignedD:
  assumes "merge_aligned addr k i" and "k < i" and "unat addr div 2 ^ (12 + k) = q"
  shows "addr = blk_addr k q"
proof -
  have "unat addr mod 2 ^ (12 + k) = 0" using assms(1,2) by (simp add: merge_aligned_def)
  with assms(3) have "unat addr = q * 2 ^ (12 + k)" by (metis div_mult_mod_eq add_0_right)
  then show ?thesis unfolding blk_addr_nat by (metis of_nat_unat ucast_id)
qed

lemma unlink_rest [simp]:
  "Page_maps (release_unlink s addr j) = Page_maps s"
  "Page_operation_lock (release_unlink s addr j) = Page_operation_lock s"
  "cpu (release_unlink s addr j) = cpu s"
  by (simp_all add: release_unlink_def Let_def)

lemma push_rest [simp]:
  "Page_maps (page_list_push s k p) = Page_maps s"
  "Page_operation_lock (page_list_push s k p) = Page_operation_lock s"
  "cpu (page_list_push s k p) = cpu s"
  by (simp_all add: page_list_push_def Let_def)

lemma merge_rest [simp]:
  "Page_maps (release_merge s addr j i) = Page_maps s"
  "Page_operation_lock (release_merge s addr j i) = Page_operation_lock s"
  "cpu (release_merge s addr j i) = cpu s"
  by (induction s addr j i rule: release_merge.induct, subst release_merge.simps, simp)+

lemma merge_ok:
  assumes "buddy_inv F" and "lists_ok (mem s) (Page_lists s) F" and "k \<le> PAGE_MAX_ORDER"
    and "q < NUM_FRAMES div 2 ^ k" and "blk k q \<inter> free_frames F = {}"
    and "unat addr div 2 ^ (12 + k) = q" and "i = a_level F k q" and "merge_aligned addr k i"
  defines "s' \<equiv> page_list_push (release_merge s addr k i) i (blk_ptr i (q div 2 ^ (i - k)))"
  shows "lists_ok (mem s') (Page_lists s') (a_release F k q) \<and>
    same_outside (free_frames F \<union> blk k q) (mem s) (mem s')"
  using assms(1-8) unfolding s'_def
proof (induction F k q arbitrary: s rule: a_release.induct)
  case (1 F k q)
  show ?case
  proof (cases "k \<ge> PAGE_MAX_ORDER \<or> buddy q \<notin> set (F k)")
    case True
    then have "i = k" using "1.prems"(7) by (simp only: level_stop)
    then have "release_merge s addr k i = s" "q div 2 ^ (i - k) = q"
      by (simp_all add: release_merge.simps [of s addr k k])
    with push_ok [OF "1.prems"(1-5)] \<open>i = k\<close> show ?thesis unfolding level_stop [of k q F, OF True] by metis
  next
    case False
    let ?F = "F(k := remove1 (buddy q) (F k))" and ?s = "release_unlink s addr k"
    have k: "k < PAGE_MAX_ORDER" and b: "buddy q \<in> set (F k)" using False by auto
    note step = merge_step [OF "1.prems"(1) k "1.prems"(4,5) b]
    have lev: "i = a_level ?F (Suc k) (q div 2)" using "1.prems"(7) unfolding level_merge(1) [of k q F, OF False] .
    have ki: "k < i" using a_level_bounds [of "Suc k" ?F "q div 2"] lev k by simp
    have addr: "addr = blk_addr k q" using merge_alignedD "1.prems"(6,8) ki by blast
    have bud: "PAGE_BUDDY addr k = blk_addr k (buddy q)"
      unfolding addr using k "1.prems"(4) by (rule PAGE_BUDDY_eq)
    note un = unlink_ok [OF "1.prems"(1-3) b bud]
    have idx: "q div 2 ^ (i - k) = q div 2 div 2 ^ (i - Suc k)"
      using ki by (metis Suc_diff_Suc div_mult2_eq power_Suc)
    have down: "unat addr div 2 ^ (12 + Suc k) = q div 2"
      using "1.prems"(6) div_Suc_power [of "unat addr" "12 + k"] by simp
    have al: "merge_aligned addr (Suc k) i" using "1.prems"(8) by (auto simp: merge_aligned_def)
    let ?t = "page_list_push (release_merge ?s addr (Suc k) i) i (blk_ptr i (q div 2 div 2 ^ (i - Suc k)))"
    have IH: "lists_ok (mem ?t) (Page_lists ?t) (a_release ?F (Suc k) (q div 2)) \<and>
        same_outside (free_frames ?F \<union> blk (Suc k) (q div 2)) (mem ?s) (mem ?t)"
      using k by (intro "1.IH" [OF False step(1) un(1) _ step(2,3) down lev al]) simp
    have unfold: "release_merge s addr k i = release_merge ?s addr (Suc k) i"
      using ki by (subst release_merge.simps) simp
    have "same_outside (free_frames F \<union> blk k q) (mem s) (mem ?t)"
      using un(2) IH by (rule_tac same_outside_trans [of "free_frames F"]) (auto simp: step(4))
    with IH show ?thesis unfolding unfold idx level_merge(2) [of k q F, OF False] by blast
  qed
qed

end
