(* ===== verification/AVOS_Physmem_Correct.thy ===== *)
theory AVOS_Physmem_Correct
  imports AVOS_Page_Merge
begin

text \<open>
  Correctness of the physical page allocator: \<open>Page_Acquire\<close> and \<open>Page_Release\<close>
  implement the abstract buddy system, write only to free pages (and the released block), and give
  back the lock and the interrupt flag. The interface other components rely on is the locale
  \<open>page_allocator\<close>, interpreted here on the model.
\<close>

definition page_inv :: "'a physmem_scheme \<Rightarrow> free_lists \<Rightarrow> bool" where
  "page_inv s F \<longleftrightarrow> buddy_inv F \<and> lists_ok (mem s) (Page_lists s) F \<and> bits_ok (Page_maps s) F"

definition page_unlocked :: "'a physmem_scheme \<Rightarrow> bool" where
  "page_unlocked s \<longleftrightarrow> \<not> flag (spin_lock (Page_operation_lock s))"

text \<open>What the lock operations give back: the interrupt flag and the preemption vetoes.\<close>

definition same_cpu :: "'a physmem_scheme \<Rightarrow> 'a physmem_scheme \<Rightarrow> bool" where
  "same_cpu s s' \<longleftrightarrow> eflags (cpu s') = eflags (cpu s) \<and>
     preemption_vetos (state_current (cpu s')) = preemption_vetos (state_current (cpu s)) \<and>
     process (state_current (cpu s')) = process (state_current (cpu s))"

section \<open>The lock\<close>

lemma lock_pages_eq:
  "lock_pages s =
     (if page_unlocked s
      then Inr (s\<lparr>Page_operation_lock := (Page_operation_lock s)\<lparr>
             spin_lock := (spin_lock (Page_operation_lock s))\<lparr>flag := True\<rparr>,
             previous_interrupt_priority := (if InterruptsEnabled (cpu s) then 0 else 0xFF)\<rparr>,
           cpu := set_interrupt_priority 0xFF (STATE_INCREMENT_PREEMPTION_VETO (DisableInterrupts (cpu s)))\<rparr>)
      else Inl Spins_Forever)"
  by (simp add: lock_pages_def IRQLock_Acquire_def SpinLock_Acquire_eq page_unlocked_def Let_def)

text \<open>Whatever happens to the lists in between, unlocking after locking restores the processor.\<close>

lemma lock_unlock:
  assumes "lock_pages s = Inr s1" and "cpu s2 = cpu s1" and "Page_operation_lock s2 = Page_operation_lock s1"
  shows "page_unlocked (unlock_pages s2)" and "same_cpu s (unlock_pages s2)"
    and "mem (unlock_pages s2) = mem s2" and "Page_maps (unlock_pages s2) = Page_maps s2"
    and "Page_lists (unlock_pages s2) = Page_lists s2"
  using assms eflags_restore [of "cpu s"]
  by (auto simp: lock_pages_eq unlock_pages_def IRQLock_Release_def SpinLock_Release_def Let_def
      page_unlocked_def same_cpu_def atomic_flag_clear_def veto_defs split: if_splits)

lemma lock_pages_rest:
  assumes "lock_pages s = Inr s1"
  shows "page_unlocked s" and "mem s1 = mem s" and "Page_maps s1 = Page_maps s"
    and "Page_lists s1 = Page_lists s" and "\<not> page_unlocked s1"
  using assms by (auto simp: lock_pages_eq page_unlocked_def split: if_splits)

lemma lock_pages_free:
  assumes "page_unlocked s"
  obtains s1 where "lock_pages s = Inr s1"
  using assms by (simp add: lock_pages_eq)

section \<open>Acquiring\<close>

lemma head_null_iff:
  assumes "lists_ok m H F" and "buddy_inv F" and "k \<le> PAGE_MAX_ORDER"
  shows "H k = PAGE_LIST_NULL \<longleftrightarrow> F k = []"
  using lists_okD(1) [OF assms(1,3)] listed_block(2) [OF assms(2,3)] by (cases "F k") auto

lemma acquire_find_eq:
  assumes "lists_ok (mem s) (Page_lists s) F" and "buddy_inv F" and "k \<le> PAGE_MAX_ORDER"
  shows "acquire_find s k = a_find F k"
  using assms
proof (induction F k rule: a_find.induct)
  case (1 F k)
  note head = head_null_iff [OF "1.prems"]
  show ?case
  proof (cases "F k = [] \<and> k \<noteq> PAGE_MAX_ORDER")
    case True
    with "1.prems" 1 have "acquire_find s (Suc k) = a_find F (Suc k)" by simp
    with True head "1.prems"(3) show ?thesis by (simp add: acquire_find.simps [of s k] a_find.simps [of F k])
  next
    case False
    with head "1.prems"(3) show ?thesis
      by (auto simp: acquire_find.simps [of s k] a_find.simps [of F k] a_find.simps [of F "Suc k"])
  qed
qed

lemma acquire_rest [simp]:
  "Page_maps (acquire_pop s k) = Page_maps s" "Page_maps (acquire_break s a k) = Page_maps s"
  "Page_operation_lock (acquire_pop s k) = Page_operation_lock s"
  "Page_operation_lock (acquire_break s a k) = Page_operation_lock s"
  "cpu (acquire_pop s k) = cpu s" "cpu (acquire_break s a k) = cpu s"
  by (simp_all add: acquire_pop_def acquire_break_def Let_def)

lemma acquire_pop_maps: "acquire_pop (s\<lparr>Page_maps := M\<rparr>) k = (acquire_pop s k)\<lparr>Page_maps := M\<rparr>"
  and acquire_break_maps: "acquire_break (s\<lparr>Page_maps := M\<rparr>) a k = (acquire_break s a k)\<lparr>Page_maps := M\<rparr>"
  by (simp_all add: acquire_pop_def acquire_break_def Let_def)

text \<open>
  The loop after the first iteration breaks the block up: from a block of order \<open>n\<close> in hand,
  it puts the upper halves on the lists below, as \<^const>\<open>a_split\<close> does.
\<close>

text \<open>One turn of the loop: the upper half of the block goes on its list, the lower half is broken up further.\<close>

lemma acquire_split_step:
  assumes "page_inv s F" "Suc n \<le> PAGE_MAX_ORDER" "q < NUM_FRAMES div 2 ^ Suc n" "blk (Suc n) q \<inter> free_frames F = {}" "F n = []"
  defines "a \<equiv> blk_addr (Suc n) q" and "M \<equiv> map_toggle (Page_maps s) n q"
  defines "s1 \<equiv> (acquire_break s a n)\<lparr>Page_maps := M\<rparr>" and "F1 \<equiv> F(n := [2 * q + 1])"
  shows "PAGE_MAP_TOGGLEBIT s a n = Inr (s\<lparr>Page_maps := M\<rparr>)" "page_inv s1 F1" "2 * q < NUM_FRAMES div 2 ^ n"
    and "blk n (2 * q) \<inter> free_frames F1 = {}" "same_outside (blk n (2 * q + 1)) (mem s) (mem s1)"
    and "cpu s1 = cpu s" "Page_operation_lock s1 = Page_operation_lock s"
proof -
  have n: "n < PAGE_MAX_ORDER" "n \<le> PAGE_MAX_ORDER" using assms(2) by simp_all
  have inv: "buddy_inv F" "lists_ok (mem s) (Page_lists s) F" "bits_ok (Page_maps s) F"
    using assms(1) by (simp_all add: page_inv_def)
  have bound: "2 * q + 1 < NUM_FRAMES div 2 ^ n" "2 * q < NUM_FRAMES div 2 ^ n"
    using assms(3) unfolding div_Suc_power by simp_all
  have fresh: "blk n (2 * q + 1) \<inter> free_frames F = {}" "blk n (2 * q) \<inter> free_frames F = {}"
    using assms(4) by (auto simp: blk_halves)
  have invF: "buddy_inv F1" unfolding F1_def
    using buddy_inv_add [OF inv(1) n(2) bound(1) fresh(1)] assms(5) by simp
  have free: "free_frames F1 = free_frames F \<union> blk n (2 * q + 1)" unfolding F1_def
    using assms(5) by (intro free_frames_add n) simp
  note brk = break_ok [OF inv(1,2) n(2) bound(1) fresh(1)]
  have bits: "bits_ok M F1" unfolding F1_def M_def
    using bits_ok_toggle [OF inv(3), of n "2 * q" "[2 * q + 1]"] assms(5) by (auto simp: buddy_def)
  show "page_inv s1 F1" using invF brk(1) bits by (simp add: page_inv_def s1_def a_def F1_def)
  have "unat a div 2 ^ (13 + n) = q" using unat_blk_addr [OF assms(2,3)] by (simp add: a_def)
  then show "PAGE_MAP_TOGGLEBIT s a n = Inr (s\<lparr>Page_maps := M\<rparr>)"
    using TOGGLEBIT_eq [OF n(2) unat_blk_addr_less [OF assms(2,3)], of s] by (simp add: a_def M_def)
  show "blk n (2 * q) \<inter> free_frames F1 = {}"
    using fresh(2) blk_disjoint [of "2 * q" "2 * q + 1" n] unfolding free by auto
  show "same_outside (blk n (2 * q + 1)) (mem s) (mem s1)" using brk(2) by (simp add: s1_def a_def)
  show "2 * q < NUM_FRAMES div 2 ^ n" by (rule bound(2))
  show "cpu s1 = cpu s" "Page_operation_lock s1 = Page_operation_lock s" by (simp_all add: s1_def)
qed

lemma acquire_split_ok:
  assumes "page_inv s F" and "n \<le> PAGE_MAX_ORDER" and "k \<le> n" and "n \<le> i"
    and "q < NUM_FRAMES div 2 ^ n" and "blk n q \<inter> free_frames F = {}"
    and "\<And>l. k \<le> l \<Longrightarrow> l < n \<Longrightarrow> F l = []"
  shows "\<exists>s'. acquire_loop s (blk_addr n q) i k (int n - 1) = Inr s' \<and>
    page_inv s' (fst (a_split F q n k)) \<and> blk_addr k (snd (a_split F q n k)) = blk_addr n q \<and>
    same_outside (blk n q) (mem s) (mem s') \<and>
    cpu s' = cpu s \<and> Page_operation_lock s' = Page_operation_lock s"
  using assms
proof (induction n arbitrary: s F q)
  case 0
  then show ?case by (simp add: acquire_loop.simps)
next
  case (Suc n)
  show ?case
  proof (cases "Suc n \<le> k")
    case True
    then have "k = Suc n" using Suc.prems(3) by simp
    then show ?thesis using Suc.prems(1) by (simp add: acquire_loop.simps)
  next
    case False
    let ?F = "F(n := [2 * q + 1])" and ?a = "blk_addr (Suc n) q"
    let ?M = "map_toggle (Page_maps s) n q"
    let ?s = "(acquire_break s ?a n)\<lparr>Page_maps := ?M\<rparr>"
    have n: "n < PAGE_MAX_ORDER" "n \<le> PAGE_MAX_ORDER" "k \<le> n" "n \<le> i" "n \<noteq> i"
      using Suc.prems False by simp_all
    have Fn: "F n = []" using Suc.prems(7) n(3) by simp
    note one = acquire_split_step [OF Suc.prems(1,2,5,6) Fn]
    have step: "acquire_loop s ?a i k (int (Suc n) - 1) = acquire_loop ?s ?a i k (int n - 1)"
      using n one(1) by (subst acquire_loop.simps) (simp add: acquire_break_maps Let_def)
    have empty: "\<And>l. k \<le> l \<Longrightarrow> l < n \<Longrightarrow> ?F l = []" using Suc.prems(7) by simp
    obtain s' where s': "acquire_loop ?s (blk_addr n (2 * q)) i k (int n - 1) = Inr s'"
        "page_inv s' (fst (a_split ?F (2 * q) n k))"
        "blk_addr k (snd (a_split ?F (2 * q) n k)) = blk_addr n (2 * q)"
        "same_outside (blk n (2 * q)) (mem ?s) (mem s')"
        "cpu s' = cpu ?s" "Page_operation_lock s' = Page_operation_lock ?s"
      using Suc.IH [OF one(2) n(2,3,4) one(3,4) empty] by blast
    have "same_outside (blk (Suc n) q) (mem s) (mem s')"
      using one(5) s'(4) by (rule_tac same_outside_trans [of "blk n (2 * q + 1)"]) (auto simp: blk_halves)
    with s' False step one(6,7) show ?thesis
      by (intro exI [of _ s']) (simp add: blk_addr_half del: fun_upd_apply)
  qed
qed

lemma acquire_refines:
  assumes inv: "page_inv s F" and free: "page_unlocked s" and k: "k \<le> PAGE_MAX_ORDER"
    and acq: "a_acquire F k = Some (F', q)"
  obtains s' where "Page_Acquire s k = Inr (blk_ptr k q, s')" and "page_inv s' F'"
    and "same_outside (free_frames F) (mem s) (mem s')" and "page_unlocked s'" and "same_cpu s s'"
proof -
  obtain s1 where s1: "lock_pages s = Inr s1" using free by (rule lock_pages_free)
  note l1 = lock_pages_rest [OF s1]
  have F: "buddy_inv F" "lists_ok (mem s1) (Page_lists s1) F" "bits_ok (Page_maps s1) F"
    using inv l1 by (simp_all add: page_inv_def)
  obtain i where i: "a_find F k = Some i" "a_split (F(i := tl (F i))) (hd (F i)) i k = (F', q)"
    using acq by (auto simp: a_acquire_def split: option.splits)
  note find = a_find_Some [OF i(1)]
  obtain r rs where Fi: "F i = r # rs" using find by (cases "F i") auto
  have im: "i \<le> PAGE_MAX_ORDER" "k \<le> i" and r: "r \<in> set (F i)" using find Fi by simp_all
  have rb: "r < NUM_FRAMES div 2 ^ i" using buddy_invD(2) [OF F(1) im(1) r] .
  have dist: "distinct (r # rs)" using buddy_invD(1) [OF F(1) im(1)] Fi by simp
  let ?F = "F(i := rs)" and ?a = "blk_addr i r"
  let ?M = "map_toggle (Page_maps s1) i (r div 2)"
  let ?s = "(acquire_pop s1 i)\<lparr>Page_maps := ?M\<rparr>"
  have hd: "Page_lists s1 i = blk_ptr i r" using lists_okD(1) [OF F(2) im(1)] Fi by simp
  note pop = pop_ok [OF F(1,2) im(1) Fi]
  have invF: "buddy_inv ?F" using dist Fi by (intro buddy_inv_subset [OF F(1)]) auto
  have freeF: "free_frames ?F = free_frames F - blk i r"
    using dist Fi by (intro free_frames_remove [OF F(1) im(1) r]) auto
  have "bits_ok ?M ?F"
    using buddy_invD(3) [OF F(1) im(1) _ r] dist Fi by (intro bits_ok_toggle [OF F(3)]) auto
  then have pinv: "page_inv ?s ?F" using invF pop(1) by (simp add: page_inv_def)
  have "unat ?a div 2 ^ (13 + i) = r div 2"
    using unat_blk_addr [OF im(1) rb] div_Suc_power [of "unat ?a" "12 + i"] by simp
  then have "PAGE_MAP_TOGGLEBIT s1 ?a i = Inr (s1\<lparr>Page_maps := ?M\<rparr>)"
    using TOGGLEBIT_eq [OF im(1) unat_blk_addr_less [OF im(1) rb], of s1] by simp
  then have step: "acquire_loop s1 ?a i k (int i) = acquire_loop ?s ?a i k (int i - 1)"
    using im by (subst acquire_loop.simps) (simp add: acquire_pop_maps Let_def)
  have split: "a_split ?F r i k = (F', q)" using i(2) Fi by simp
  have disj: "blk i r \<inter> free_frames ?F = {}" unfolding freeF by blast
  have empty: "\<And>l. k \<le> l \<Longrightarrow> l < i \<Longrightarrow> ?F l = []" using find by simp
  obtain s2 where s2: "acquire_loop ?s ?a i k (int i - 1) = Inr s2" "page_inv s2 F'"
      "blk_addr k q = blk_addr i r" "same_outside (blk i r) (mem ?s) (mem s2)"
      "cpu s2 = cpu ?s" "Page_operation_lock s2 = Page_operation_lock ?s"
    using acquire_split_ok [OF pinv im order_refl rb disj empty] unfolding split by auto
  have ptr: "blk_ptr i r = blk_ptr k q" using s2(3) by (metis blk_addr_add)
  have run: "Page_Acquire s k = Inr (blk_ptr k q, unlock_pages s2)"
    using s1 acquire_find_eq [OF F(2,1) k] i(1) im hd step s2(1,3) ptr
    by (simp add: Page_Acquire_def Let_def)
  have un: "page_unlocked (unlock_pages s2)" "same_cpu s (unlock_pages s2)" "mem (unlock_pages s2) = mem s2"
      "Page_maps (unlock_pages s2) = Page_maps s2" "Page_lists (unlock_pages s2) = Page_lists s2"
    using s2(5,6) by (intro lock_unlock [OF s1]; simp)+
  have "same_outside (free_frames F) (mem s1) (mem s2)"
    using pop(2) s2(4) listed_block(3) [OF F(1) im(1) r] by (auto intro: same_outside_trans)
  then show thesis
    using s2(2) un l1(2) by (intro that [OF run]) (simp_all add: page_inv_def)
qed

text \<open>With no block large enough the search returns without releasing the lock it took.\<close>

lemma acquire_exhausted:
  assumes "page_inv s F" and "page_unlocked s" and "k \<le> PAGE_MAX_ORDER" and "a_acquire F k = None"
  obtains s' where "Page_Acquire s k = Inr (PAGE_LIST_NULL, s')" and "\<not> page_unlocked s'"
    and "page_inv s' F" and "mem s' = mem s"
proof -
  obtain s1 where s1: "lock_pages s = Inr s1" using assms(2) by (rule lock_pages_free)
  note l1 = lock_pages_rest [OF s1]
  have "lists_ok (mem s1) (Page_lists s1) F" "buddy_inv F" using assms(1) l1 by (simp_all add: page_inv_def)
  then have "acquire_find s1 k = None"
    using acquire_find_eq [of s1 F k] assms(3,4) by (auto simp: a_acquire_def split: option.splits)
  with s1 have "Page_Acquire s k = Inr (PAGE_LIST_NULL, s1)" by (simp add: Page_Acquire_def)
  then show thesis using l1 assms(1) by (intro that [of s1]) (simp_all add: page_inv_def)
qed

section \<open>Releasing\<close>

lemma and_not_low_bits:
  "n < 32 \<Longrightarrow> addr AND NOT (push_bit n 1 - 1) = (of_nat (unat (addr :: u32) div 2 ^ n * 2 ^ n) :: u32)"
proof -
  have "push_bit n (1 :: u32) - 1 = mask n" by (simp add: mask_eq_exp_minus_1)
  then have "addr AND NOT (push_bit n 1 - 1) = push_bit n (drop_bit n addr)"
    by (intro bit_word_eqI) (auto simp: bit_simps)
  also have "\<dots> = of_nat (unat (drop_bit n addr)) * 2 ^ n"
    by (simp add: push_bit_eq_mult)
  finally show ?thesis unfolding unat_drop_bit_eq by (simp add: drop_bit_eq_div)
qed

text \<open>The page address in the released pointer may be any address of the block.\<close>

lemma release_refines:
  assumes inv: "page_inv s F" and free: "page_unlocked s" and k: "k \<le> PAGE_MAX_ORDER"
    and q: "q < NUM_FRAMES div 2 ^ k" and fresh: "blk k q \<inter> free_frames F = {}"
    and al: "merge_aligned (blk_addr k q) k (a_level F k q)"
  obtains s' where "Page_Release s (blk_ptr k q) k = Inr s'" and "page_inv s' (a_release F k q)"
    and "same_outside (free_frames F \<union> blk k q) (mem s) (mem s')" and "page_unlocked s'" and "same_cpu s s'"
proof -
  let ?a = "blk_addr k q" and ?i = "a_level F k q"
  obtain s1 where s1: "lock_pages s = Inr s1" using free by (rule lock_pages_free)
  note l1 = lock_pages_rest [OF s1]
  have F: "buddy_inv F" "lists_ok (mem s1) (Page_lists s1) F" "bits_ok (Page_maps s1) F"
    using inv l1 by (simp_all add: page_inv_def)
  have addr: "unat ?a div 2 ^ (12 + k) = q" using unat_blk_addr [OF k q] by simp
  obtain M where M: "release_toggle s1 ?a k = Inr (s1\<lparr>Page_maps := M\<rparr>, ?i)" "bits_ok M (a_release F k q)"
    using toggle_ok [OF F(1,3) k q fresh addr unat_blk_addr_less [OF k q]] by blast
  let ?s = "s1\<lparr>Page_maps := M\<rparr>" let ?b = "blk_ptr ?i (q div 2 ^ (?i - k))"
  let ?t = "page_list_push (release_merge ?s ?a k ?i) ?i ?b"
  have lev: "k \<le> ?i" "?i \<le> PAGE_MAX_ORDER" using a_level_bounds [OF k] by simp_all
  have ls: "lists_ok (mem ?s) (Page_lists ?s) F" using F(2) by simp
  note merge = merge_ok [OF F(1) ls k q fresh addr refl al]
  have "unat ?a div 2 ^ (12 + ?i) = q div 2 ^ (?i - k)"
    using addr lev(1) by (metis ab_semigroup_add_class.add_ac(1) div_mult2_eq le_add_diff_inverse power_add)
  then have ptr: "(?a AND NOT (push_bit (12 + ?i) 1 - 1)) + KERNEL_HIGHER_HALF_OFFSET = ?b"
    using lev(2) by (simp only: and_not_low_bits PAGE_MAX_ORDER_def blk_addr_nat [symmetric] blk_addr_add)
  have run: "Page_Release s (blk_ptr k q) k = Inr (unlock_pages ?t)"
    using s1 M(1) ptr blk_ptr_facts(2) [OF k q] by (simp add: Page_Release_def Let_def del: push_bit_of_1)
  have un: "page_unlocked (unlock_pages ?t)" "same_cpu s (unlock_pages ?t)" "mem (unlock_pages ?t) = mem ?t"
      "Page_maps (unlock_pages ?t) = Page_maps ?t" "Page_lists (unlock_pages ?t) = Page_lists ?t"
    by (intro lock_unlock [OF s1]; simp)+
  have "page_inv (unlock_pages ?t) (a_release F k q)"
    using merge M(2) a_release_correct [OF F(1) k q fresh] un by (simp add: page_inv_def)
  moreover have "same_outside (free_frames F \<union> blk k q) (mem s) (mem (unlock_pages ?t))"
    using merge un(3) l1(2) by simp
  ultimately show thesis using un(1,2) by (intro that [OF run])
qed

section \<open>Acquiring and releasing again\<close>

lemma split_release:
  assumes "n \<le> PAGE_MAX_ORDER" and "k \<le> n" and "\<And>l. k \<le> l \<Longrightarrow> l < n \<Longrightarrow> F l = []"
    and "a_split F q n k = (F', p)"
  shows "a_release F' k p = a_release F n q \<and> a_level F' k p = a_level F n q"
  using assms
proof (induction n arbitrary: F q)
  case 0
  then show ?case by simp
next
  case (Suc n)
  show ?case
  proof (cases "Suc n \<le> k")
    case True
    with Suc.prems have "k = Suc n" "F' = F" "p = q" by simp_all
    then show ?thesis by simp
  next
    case False
    let ?F = "F(n := [2 * q + 1])"
    have Fn: "F n = []" using Suc.prems(3) False by simp
    have sp: "a_split ?F (2 * q) n k = (F', p)" using Suc.prems(4) False by simp
    have IH: "a_release F' k p = a_release ?F n (2 * q) \<and> a_level F' k p = a_level ?F n (2 * q)"
      using Suc.prems(1,3) False by (intro Suc.IH [OF _ _ _ sp]) auto
    have b: "buddy (2 * q) = 2 * q + 1" by (simp add: buddy_def)
    have go: "\<not> (n \<ge> PAGE_MAX_ORDER \<or> buddy (2 * q) \<notin> set (?F n))"
      using Suc.prems(1) by (simp add: b)
    have F: "?F(n := remove1 (buddy (2 * q)) (?F n)) = F" "2 * q div 2 = q"
      using Fn b by (auto simp: fun_eq_iff)
    show ?thesis using IH unfolding level_merge [of n "2 * q" ?F, OF go] F by simp
  qed
qed

lemma acquire_release:
  assumes inv: "buddy_inv F" and acq: "a_acquire F k = Some (F', q)" and k: "k \<le> PAGE_MAX_ORDER"
  shows "a_release F' k q = F" and "merge_aligned (blk_addr k q) k (a_level F' k q)"
proof -
  obtain i where i: "a_find F k = Some i" "a_split (F(i := tl (F i))) (hd (F i)) i k = (F', q)"
    using acq by (auto simp: a_acquire_def split: option.splits)
  note find = a_find_Some [OF i(1)]
  obtain r rs where Fi: "F i = r # rs" using find by (cases "F i") auto
  have im: "i \<le> PAGE_MAX_ORDER" "k \<le> i" and r: "r \<in> set (F i)" using find Fi by simp_all
  let ?F = "F(i := rs)"
  have split: "a_split ?F r i k = (F', q)" using i(2) Fi by simp
  have rel: "a_release F' k q = a_release ?F i r \<and> a_level F' k q = a_level ?F i r"
    using find by (intro split_release [OF im _ split]) simp
  have "i < PAGE_MAX_ORDER \<Longrightarrow> buddy r \<notin> set rs" using buddy_invD(3) [OF inv im(1) _ r] Fi by simp
  then have stop: "i \<ge> PAGE_MAX_ORDER \<or> buddy r \<notin> set (?F i)" by auto
  then show "a_release F' k q = F"
    using rel Fi unfolding level_stop [of i r ?F, OF stop] by (auto simp: fun_eq_iff)
  have rb: "r < NUM_FRAMES div 2 ^ i" using buddy_invD(2) [OF inv im(1) r] .
  have disj: "blk i r \<inter> free_frames ?F = {}"
    using free_frames_remove [OF inv im(1) r, of rs] buddy_invD(1) [OF inv im(1)] Fi by auto
  have "buddy_inv ?F" using buddy_invD(1) [OF inv im(1)] Fi by (intro buddy_inv_subset [OF inv]) auto
  then have q: "q = r * 2 ^ (i - k)"
    using a_split_correct [OF _ im rb disj _ split] find by auto
  have "blk_addr k q = blk_addr i r"
    unfolding q blk_addr_def using im(2) by (simp add: mult.assoc flip: power_add)
  then have "unat (blk_addr k q) = r * 2 ^ (12 + i)" using unat_blk_addr [OF im(1) rb] by simp
  then have "unat (blk_addr k q) mod 2 ^ (12 + j) = 0" if "j < i" for j
    using that by (simp add: power_add le_imp_power_dvd flip: dvd_eq_mod_eq_0)
  then show "merge_aligned (blk_addr k q) k (a_level F' k q)"
    using rel unfolding level_stop [of i r ?F, OF stop] by (simp add: merge_aligned_def)
qed

section \<open>The interface of the allocator\<close>

text \<open>
  What a client relies on: an allocator state owns a set of free frames, an acquisition that does
  not fail hands out a block of owned frames, and giving that block back restores the set. Memory
  outside the owned frames is never written.
\<close>

locale page_allocator =
  fixes acquire :: "'s \<Rightarrow> nat \<Rightarrow> (u32 \<times> 's) result"
    and release :: "'s \<Rightarrow> u32 \<Rightarrow> nat \<Rightarrow> 's result"
    and memory_of :: "'s \<Rightarrow> memory"
    and owns :: "'s \<Rightarrow> nat set \<Rightarrow> bool"
  assumes acquire_returns: "owns s A \<Longrightarrow> k \<le> PAGE_MAX_ORDER \<Longrightarrow> \<exists>p s'. acquire s k = Inr (p, s')"
    and acquire_block: "owns s A \<Longrightarrow> k \<le> PAGE_MAX_ORDER \<Longrightarrow> acquire s k = Inr (p, s') \<Longrightarrow> p \<noteq> PAGE_LIST_NULL \<Longrightarrow>
      \<exists>q. p = blk_ptr k q \<and> q < NUM_FRAMES div 2 ^ k \<and> blk k q \<subseteq> A \<and> owns s' (A - blk k q) \<and>
        same_outside A (memory_of s) (memory_of s')"
    and give_back: "owns s A \<Longrightarrow> k \<le> PAGE_MAX_ORDER \<Longrightarrow> acquire s k = Inr (p, s') \<Longrightarrow> p \<noteq> PAGE_LIST_NULL \<Longrightarrow>
      \<exists>s''. release s' p k = Inr s'' \<and> owns s'' A \<and> same_outside A (memory_of s) (memory_of s'')"
begin

lemma acquire_blockE:
  assumes "owns s A" and "k \<le> PAGE_MAX_ORDER" and "acquire s k = Inr (p, s')" and "p \<noteq> PAGE_LIST_NULL"
  obtains q where "p = blk_ptr k q" and "q < NUM_FRAMES div 2 ^ k" and "blk k q \<subseteq> A"
    and "owns s' (A - blk k q)" and "same_outside A (memory_of s) (memory_of s')"
  using acquire_block [OF assms] by blast

text \<open>Two acquisitions in a row never hand out the same frame, and the second leaves the first block alone.\<close>

lemma two_acquisitions:
  assumes "owns s A" and "k \<le> PAGE_MAX_ORDER" and "j \<le> PAGE_MAX_ORDER"
    and "acquire s k = Inr (p, s')" and "acquire s' j = Inr (p', s'')"
    and "p \<noteq> PAGE_LIST_NULL" and "p' \<noteq> PAGE_LIST_NULL"
  shows "\<exists>q r. p = blk_ptr k q \<and> p' = blk_ptr j r \<and> blk k q \<inter> blk j r = {} \<and>
    blk k q \<union> blk j r \<subseteq> A \<and> owns s'' (A - blk k q - blk j r) \<and>
    (\<forall>a. frame_of a \<in> blk k q \<longrightarrow> memory_of s'' a = memory_of s' a)"
proof -
  obtain q where q: "p = blk_ptr k q" "blk k q \<subseteq> A" "owns s' (A - blk k q)"
    using assms(1,2,4,6) by (rule acquire_blockE)
  obtain r where r: "p' = blk_ptr j r" "blk j r \<subseteq> A - blk k q" "owns s'' (A - blk k q - blk j r)"
      "same_outside (A - blk k q) (memory_of s') (memory_of s'')"
    using q(3) assms(3,5,7) by (rule acquire_blockE)
  have "memory_of s'' a = memory_of s' a" if "frame_of a \<in> blk k q" for a
    using r(4) that by (simp add: same_outside_def)
  with q r show ?thesis by (intro exI [of _ q] exI [of _ r]) auto
qed

end

definition page_owns :: "'a physmem_scheme \<Rightarrow> nat set \<Rightarrow> bool" where
  "page_owns s A \<longleftrightarrow> (\<exists>F. page_inv s F \<and> page_unlocked s \<and> A = free_frames F)"

lemma Page_Acquire_cases:
  assumes "page_inv s F" and "page_unlocked s" and "k \<le> PAGE_MAX_ORDER" and "Page_Acquire s k = Inr (p, s')"
    and "p \<noteq> PAGE_LIST_NULL"
  obtains F' q where "a_acquire F k = Some (F', q)" and "p = blk_ptr k q" and "page_inv s' F'"
    and "same_outside (free_frames F) (mem s) (mem s')" and "page_unlocked s'" and "same_cpu s s'"
proof (cases "a_acquire F k")
  case None
  with assms show ?thesis by (elim acquire_exhausted [of s F k]) auto
next
  case (Some r)
  then obtain F' q where r: "a_acquire F k = Some (F', q)" by (cases r) simp
  with assms show ?thesis by (elim acquire_refines [of s F k F' q]) (auto intro: that)
qed

lemma Page_Acquire_returns:
  assumes "page_inv s F" and "page_unlocked s" and "k \<le> PAGE_MAX_ORDER"
  shows "\<exists>p s'. Page_Acquire s k = Inr (p, s')"
proof (cases "a_acquire F k")
  case None
  with acquire_exhausted [OF assms] show ?thesis by blast
next
  case (Some r)
  then obtain F' q where "a_acquire F k = Some (F', q)" by (cases r) simp
  with acquire_refines [OF assms] show ?thesis by blast
qed

lemma Page_give_back:
  assumes "page_inv s F" and "page_unlocked s" and "k \<le> PAGE_MAX_ORDER" and "Page_Acquire s k = Inr (p, s')"
    and "p \<noteq> PAGE_LIST_NULL"
  obtains s'' where "Page_Release s' p k = Inr s''" and "page_inv s'' F" and "page_unlocked s''"
    and "same_outside (free_frames F) (mem s) (mem s'')" and "same_cpu s s''"
proof -
  obtain F' q where a: "a_acquire F k = Some (F', q)" "p = blk_ptr k q" "page_inv s' F'"
      "same_outside (free_frames F) (mem s) (mem s')" "page_unlocked s'" "same_cpu s s'"
    using assms by (rule Page_Acquire_cases)
  have inv: "buddy_inv F" using assms(1) by (simp add: page_inv_def)
  note c = a_acquire_correct [OF inv a(1)] note r = acquire_release [OF inv a(1) assms(3)]
  have "blk k q \<inter> free_frames F' = {}" unfolding c(4) by blast
  then obtain s'' where s'': "Page_Release s' (blk_ptr k q) k = Inr s''" "page_inv s'' (a_release F' k q)"
      "same_outside (free_frames F' \<union> blk k q) (mem s') (mem s'')" "page_unlocked s''" "same_cpu s' s''"
    using release_refines [OF a(3,5) assms(3) c(2) _ r(2)] by blast
  have "same_outside (free_frames F) (mem s) (mem s'')"
    using a(4) s''(3) c(3,4) by (auto intro: same_outside_trans)
  moreover have "same_cpu s s''" using a(6) s''(5) by (simp add: same_cpu_def)
  ultimately show thesis using s'' a(2) r(1) by (intro that [of s'']) simp_all
qed

interpretation pages: page_allocator Page_Acquire Page_Release mem page_owns
proof
  fix s :: "'a physmem_scheme" and A k p s'
  assume own: "page_owns s A" and k: "k \<le> PAGE_MAX_ORDER"
  then obtain F where F: "page_inv s F" "page_unlocked s" "A = free_frames F"
    by (auto simp: page_owns_def)
  show "\<exists>p s'. Page_Acquire s k = Inr (p, s')" using F k by (intro Page_Acquire_returns)
  assume run: "Page_Acquire s k = Inr (p, s')" "p \<noteq> PAGE_LIST_NULL"
  have inv: "buddy_inv F" using F(1) by (simp add: page_inv_def)
  show "\<exists>q. p = blk_ptr k q \<and> q < NUM_FRAMES div 2 ^ k \<and> blk k q \<subseteq> A \<and> page_owns s' (A - blk k q) \<and>
      same_outside A (mem s) (mem s')"
  proof -
    obtain F' q where a: "a_acquire F k = Some (F', q)" "p = blk_ptr k q" "page_inv s' F'"
        "same_outside (free_frames F) (mem s) (mem s')" "page_unlocked s'"
      using F(1,2) k run by (rule Page_Acquire_cases)
    with a_acquire_correct [OF inv a(1)] F(3) show ?thesis
      by (intro exI [of _ q]) (auto simp: page_owns_def)
  qed
  show "\<exists>s''. Page_Release s' p k = Inr s'' \<and> page_owns s'' A \<and> same_outside A (mem s) (mem s'')"
  proof -
    obtain s'' where "Page_Release s' p k = Inr s''" "page_inv s'' F" "page_unlocked s''"
        "same_outside (free_frames F) (mem s) (mem s'')"
      using F(1,2) k run by (rule Page_give_back)
    then show ?thesis using F(3) by (auto simp: page_owns_def)
  qed
qed

section \<open>A pool with one free block\<close>

text \<open>The allocator as the C initialisers leave it, and with one block of order 10 at 4 MB.\<close>

definition no_pages :: physmem where
  "no_pages = \<lparr>mem = (\<lambda>_. 0), Page_maps = (\<lambda>_ _. 0), Page_lists = (\<lambda>_. PAGE_LIST_NULL),
     Page_operation_lock = \<lparr>spin_lock = \<lparr>flag = False\<rparr>, previous_interrupt_priority = 0\<rparr>,
     cpu = \<lparr>state_current = \<lparr>preemption_vetos = 0, interrupt_priority = 0, process = None, kernel_task = 0\<rparr>,
            eflags = 0x202\<rparr>\<rparr>"

definition one_block :: physmem where
  "one_block = page_list_push no_pages 10 (blk_ptr 10 1)"

definition one_block_lists :: free_lists where
  "one_block_lists = (\<lambda>_. [])(10 := [1])"

lemma no_pages_inv: "page_inv no_pages (\<lambda>_. [])" "page_unlocked no_pages"
  by (simp_all add: page_inv_def buddy_inv_def lists_ok_def bits_ok_def map_bit_def no_pages_def page_unlocked_def)

lemma one_block_inv: "page_inv one_block one_block_lists" "page_unlocked one_block"
proof -
  have k: "10 \<le> PAGE_MAX_ORDER" "1 < NUM_FRAMES div 2 ^ 10"
    by (simp_all add: PAGE_MAX_ORDER_def NUM_FRAMES_def)
  have inv: "buddy_inv (\<lambda>_. [])" "lists_ok (mem no_pages) (Page_lists no_pages) (\<lambda>_. [])"
      "bits_ok (Page_maps no_pages) (\<lambda>_. [])"
    using no_pages_inv by (simp_all add: page_inv_def)
  have none: "blk 10 1 \<inter> free_frames (\<lambda>_. []) = {}" by (simp add: free_frames_def)
  have "lists_ok (mem one_block) (Page_lists one_block) one_block_lists"
    using push_ok(1) [OF inv(1,2) k none] by (simp only: one_block_def one_block_lists_def)
  moreover have "buddy_inv one_block_lists"
    using buddy_inv_add [OF inv(1) k none] by (simp add: one_block_lists_def)
  moreover have "bits_ok (Page_maps one_block) one_block_lists"
    using inv(3) by (simp add: one_block_def one_block_lists_def bits_ok_def PAGE_MAX_ORDER_def)
  ultimately show "page_inv one_block one_block_lists" by (simp add: page_inv_def)
  show "page_unlocked one_block" using no_pages_inv by (simp add: page_unlocked_def one_block_def)
qed

section \<open>A release that merges twice\<close>

text \<open>
  For the upper half \<open>q\<close> of a pair the second turn of the unlinking loop, at order
  \<open>k + 1\<close>, takes the page two blocks of order \<open>k\<close> below for the buddy.
\<close>

lemma PAGE_BUDDY_second:
  assumes k: "Suc k < PAGE_MAX_ORDER" and q: "q < NUM_FRAMES div 2 ^ k" "odd q" "2 \<le> q"
  shows "PAGE_BUDDY (blk_addr k q) (Suc k) = blk_addr k (q - 2)"
proof -
  have k': "k \<le> PAGE_MAX_ORDER" "k < 9" using k by (simp_all add: PAGE_MAX_ORDER_def)
  have four: "unat (push_bit (14 + k) 1 :: u32) = 2 ^ (14 + k)"
    using k' unat_2_power [where ?'a = 32, of "14 + k"] by (simp only: push_bit_of_1) simp
  have "unat (blk_addr k q mod push_bit (14 + k) 1) = q * 2 ^ (12 + k) mod (4 * 2 ^ (12 + k))"
    unfolding unat_mod four unat_blk_addr [OF k'(1) q(1)] by (simp only: power_add) simp
  also have "\<dots> = q mod 4 * 2 ^ (12 + k)" by (rule mod_mult_mult2)
  also have "\<dots> \<noteq> 0"
  proof -
    have "q mod 4 \<noteq> 0" using q(2) by presburger
    then show ?thesis by simp
  qed
  finally have mod: "blk_addr k q mod push_bit (14 + k) 1 \<noteq> 0" by (metis unat_0)
  obtain r where r: "q = r + 2" using q(3) by (metis add.commute le_Suc_ex)
  have "blk_addr k q = blk_addr k r + push_bit (13 + k) 1"
    unfolding blk_addr_nat push_bit_of_1 r by (simp add: algebra_simps power_add)
  with mod show ?thesis
    unfolding PAGE_BUDDY_def by (simp add: kernel_consts r del: push_bit_of_1)
qed

text \<open>Unlinking a block leaves the links of every page that is not on its list.\<close>

lemma unlink_other_page:
  assumes inv: "buddy_inv F" and ok: "lists_ok (mem s) (Page_lists s) F" and k: "k \<le> PAGE_MAX_ORDER"
    and b: "b \<in> set (F k)" and addr: "PAGE_BUDDY addr k = blk_addr k b"
    and p: "page_aligned p" "p \<notin> set (map (blk_ptr k) (F k))"
  shows "pl_prev (mem (release_unlink s addr k)) p = pl_prev (mem s) p"
    and "pl_next (mem (release_unlink s addr k)) p = pl_next (mem s) p"
proof -
  let ?N = PAGE_LIST_NULL and ?b = "blk_ptr k b"
  obtain xs ys where F: "F k = xs @ b # ys" using b by (meson split_list)
  let ?X = "map (blk_ptr k) xs" and ?Y = "map (blk_ptr k) ys"
  have chain: "dll (mem s) ?N (?X @ ?b # ?Y) ?N" using lists_okD(2) [OF ok k] F by simp
  note links = dll_prev_of [OF chain]
  have al: "page_aligned ?b" by (rule listed_block [OF inv k b])
  have pb: "?b \<noteq> p" using p(2) b by auto
  have n: "page_aligned (hd_or ?N ?Y) \<and> hd_or ?N ?Y \<noteq> p" if "hd_or ?N ?Y \<noteq> ?N"
    using that p(2) F listed_block(1) [OF inv k] by (cases ys) auto
  have l: "page_aligned (last_or ?N ?X) \<and> last_or ?N ?X \<noteq> p" if "last_or ?N ?X \<noteq> ?N"
    using that p(2) F listed_block(1) [OF inv k] by (cases xs rule: rev_cases) auto
  define m1 where "m1 = (if last_or ?N ?X \<noteq> ?N then set_next (mem s) (last_or ?N ?X) (hd_or ?N ?Y) else mem s)"
  have nb: "last_or ?N ?X \<noteq> ?b" using distinct_nodes [OF inv k] F page_aligned_not_null [OF al]
    by (cases xs rule: rev_cases) auto
  have m1: "pl_prev m1 p = pl_prev (mem s) p" "pl_next m1 p = pl_next (mem s) p" "pl_next m1 ?b = hd_or ?N ?Y" "pl_prev m1 ?b = last_or ?N ?X"
    using l p(1) al nb links by (simp_all add: m1_def)
  have "mem (release_unlink s addr k) = set_next (set_prev
      (if hd_or ?N ?Y \<noteq> ?N then set_prev m1 (hd_or ?N ?Y) (last_or ?N ?X) else m1) ?b 0) ?b 0"
    unfolding release_unlink_def addr blk_addr_add Let_def links m1_def [symmetric] m1(3,4) by simp
  then show "pl_prev (mem (release_unlink s addr k)) p = pl_prev (mem s) p"
    and "pl_next (mem (release_unlink s addr k)) p = pl_next (mem s) p"
    using n pb p(1) al m1(1,2) by simp_all
qed

lemma release_unlink_heads: "l \<noteq> j \<Longrightarrow> Page_lists (release_unlink s addr j) l = Page_lists s l"
  by (simp add: release_unlink_def Let_def)

lemma release_merge_heads: "l < j \<Longrightarrow> Page_lists (release_merge s addr j i) l = Page_lists s l"
  by (induction s addr j i rule: release_merge.induct, subst release_merge.simps)
    (simp add: release_unlink_heads)

text \<open>
  The words such a page holds where a node has its links. When they are not the links of a list
  head (the second one is an aligned word, a zero for example), the list of order \<open>j\<close> keeps
  its head.
\<close>

definition stray_links :: "memory \<Rightarrow> u32 \<Rightarrow> bool" where
  "stray_links m p \<longleftrightarrow> aligned4 (pl_prev m p) \<and> pl_prev m p \<noteq> p + 4 \<and>
     (aligned4 (pl_next m p) \<or> pl_next m p = PAGE_LIST_NULL)"

lemma aligned4_add4: "aligned4 a \<Longrightarrow> aligned4 (a + 4)"
  by (simp add: aligned4_def unat_word_ariths mod_mod_cancel)

lemma not_aligned_null: "\<not> aligned4 PAGE_LIST_NULL"
  by (simp add: aligned4_def PAGE_LIST_NULL_def)

lemma unlink_keeps_head:
  assumes bud: "PAGE_BUDDY addr j = blk_addr k r" and al: "page_aligned (blk_ptr k r)"
    and stray: "stray_links (mem s) (blk_ptr k r)"
  shows "Page_lists (release_unlink s addr j) = Page_lists s"
proof -
  let ?p = "blk_ptr k r" let ?n = "pl_next (mem s) ?p" and ?v = "pl_prev (mem s) ?p"
  note st = stray [unfolded stray_links_def]
  define m1 where "m1 = set_next (mem s) ?v ?n"
  have v: "?v \<noteq> PAGE_LIST_NULL" using st not_aligned_null by metis
  have m1: "pl_prev m1 ?p = ?v" "pl_next m1 ?p = ?n"
    using st page_aligned4 [OF al]
    by (cases "?v = ?p"; auto simp: m1_def pl_prev_def pl_next_def set_next_def load32_store32_other)+
  have prev: "pl_prev (if ?n \<noteq> PAGE_LIST_NULL then set_prev m1 ?n ?v else m1) ?p = ?v"
  proof (cases "?n = PAGE_LIST_NULL \<or> ?n = ?p")
    case True
    then show ?thesis using m1 by (auto simp: pl_prev_def set_prev_def)
  next
    case False
    then have "aligned4 (?n + 4)" "?n + 4 \<noteq> ?p + 4" using st by (auto simp: aligned4_add4)
    then show ?thesis using m1 page_aligned4 [OF al] False
      by (simp add: pl_prev_def set_prev_def load32_store32_other)
  qed
  then show ?thesis
    unfolding release_unlink_def bud blk_addr_add Let_def if_P [OF v] m1_def [symmetric] m1 prev
    using v by simp
qed

text \<open>Acquiring takes the head of a non-empty list, whatever the links in memory are.\<close>

lemma acquire_head:
  assumes "page_unlocked s" and j: "j \<le> PAGE_MAX_ORDER" and p: "Page_lists s j = blk_ptr j p"
    and b: "p < NUM_FRAMES div 2 ^ j"
  obtains s' where "Page_Acquire s j = Inr (blk_ptr j p, s')" and "page_unlocked s'"
    and "\<And>l. l \<noteq> j \<Longrightarrow> Page_lists s' l = Page_lists s l"
proof -
  obtain s1 where s1: "lock_pages s = Inr s1" using assms(1) by (rule lock_pages_free)
  note l1 = lock_pages_rest [OF s1]
  define t where "t = acquire_pop (s1\<lparr>Page_maps :=
    map_toggle (Page_maps s1) j (unat (blk_addr j p) div 2 ^ (13 + j))\<rparr>) j"
  have find: "acquire_find s1 j = Some j"
    using j b p l1(4) by (simp add: acquire_find.simps [of s1 j])
  have "acquire_loop s1 (blk_addr j p) j j (int j) = Inr t"
    by (subst acquire_loop.simps, simp add: TOGGLEBIT_eq [OF j unat_blk_addr_less [OF j b]] t_def del: of_nat_diff)
      (subst acquire_loop.simps, simp)
  then have "Page_Acquire s j = Inr (blk_ptr j p, unlock_pages t)"
    using s1 find j p l1(4) by (simp add: Page_Acquire_def Let_def res_guard_def)
  moreover have "page_unlocked (unlock_pages t)" "Page_lists (unlock_pages t) = Page_lists t"
    by (intro lock_unlock [OF s1]; simp add: t_def)+
  moreover have "Page_lists t l = Page_lists s l" if "l \<noteq> j" for l
    using that l1(4) by (simp add: t_def acquire_pop_def Let_def)
  ultimately show thesis by (intro that [of "unlock_pages t"]) simp_all
qed

lemma blk_up: "blk j p \<subseteq> blk (j + d) (p div 2 ^ d)"
  by (auto simp: blk_def div_mult2_eq power_add)

lemma parent_of_buddy:
  assumes "Suc k < i"
  shows "q div 2 ^ (i - k) = buddy (q div 2) div 2 ^ (i - Suc k)"
proof -
  obtain d where d: "i = Suc (Suc k) + d" using assms by (metis Suc_leI le_Suc_ex)
  have "i - k = Suc (Suc d)" "i - Suc k = Suc d" unfolding d by simp_all
  then show ?thesis by (simp only: power_Suc div_mult2_eq buddy_div)
qed

lemma ancestor_bound:
  assumes "q < NUM_FRAMES div 2 ^ k" and "k \<le> i" and "i \<le> PAGE_MAX_ORDER"
  shows "q div 2 ^ (i - k) < NUM_FRAMES div 2 ^ i"
proof -
  obtain d where d: "i = k + d" using assms(2) by (metis le_Suc_ex)
  have "NUM_FRAMES div 2 ^ k = NUM_FRAMES div 2 ^ i * 2 ^ d"
    using assms(3) unfolding d by (simp add: frames_div PAGE_MAX_ORDER_def power_add [symmetric])
  with assms(1) show ?thesis unfolding d by (simp add: less_mult_imp_div_less)
qed

lemma merge_twice_level:
  assumes "Suc k < PAGE_MAX_ORDER" and "buddy q \<in> set (F k)" and "buddy (q div 2) \<in> set (F (Suc k))"
  shows "Suc k < a_level F k q"
proof -
  let ?F = "F(k := remove1 (buddy q) (F k))"
  have 1: "\<not> (k \<ge> PAGE_MAX_ORDER \<or> buddy q \<notin> set (F k))" using assms by simp
  have 2: "\<not> (Suc k \<ge> PAGE_MAX_ORDER \<or> buddy (q div 2) \<notin> set (?F (Suc k)))" using assms by simp
  show ?thesis
    unfolding level_merge(1) [of k q F, OF 1] level_merge(1) [of "Suc k" "q div 2" ?F, OF 2]
    using a_level_bounds [of "Suc (Suc k)"] assms(1) by (meson Suc_le_eq)
qed

lemma release_unaligned:
  assumes inv: "page_inv s F" and free: "page_unlocked s" and k: "Suc k < PAGE_MAX_ORDER"
    and q: "q < NUM_FRAMES div 2 ^ k" "odd q" "2 \<le> q" and fresh: "blk k q \<inter> free_frames F = {}"
    and b: "buddy q \<in> set (F k)" and pair: "F (Suc k) = buddy (q div 2) # rest"
    and stray: "q - 2 \<notin> set (F k)" "stray_links (mem s) (blk_ptr k (q - 2))"
  obtains s' i where "Page_Release s (blk_ptr k q) k = Inr s'" and "page_unlocked s'"
    and "Suc k < i" and "i \<le> PAGE_MAX_ORDER"
    and "Page_lists s' (Suc k) = blk_ptr (Suc k) (buddy (q div 2))"
    and "Page_lists s' i = blk_ptr i (q div 2 ^ (i - k))"
proof -
  let ?a = "blk_addr k q" and ?i = "a_level F k q"
  have k': "k \<le> PAGE_MAX_ORDER" "k < PAGE_MAX_ORDER" "Suc k \<le> PAGE_MAX_ORDER" using k by simp_all
  obtain s1 where s1: "lock_pages s = Inr s1" using free by (rule lock_pages_free)
  note l1 = lock_pages_rest [OF s1]
  have F: "buddy_inv F" "lists_ok (mem s1) (Page_lists s1) F" "bits_ok (Page_maps s1) F"
    using inv l1 by (simp_all add: page_inv_def)
  have addr: "unat ?a div 2 ^ (12 + k) = q" using unat_blk_addr [OF k'(1) q(1)] by simp
  obtain M where M: "release_toggle s1 ?a k = Inr (s1\<lparr>Page_maps := M\<rparr>, ?i)"
    using toggle_ok [OF F(1,3) k'(1) q(1) fresh addr unat_blk_addr_less [OF k'(1) q(1)]] by blast
  let ?s = "s1\<lparr>Page_maps := M\<rparr>" let ?s1 = "release_unlink ?s ?a k" let ?s2 = "release_unlink ?s1 ?a (Suc k)"
  let ?b = "blk_ptr ?i (q div 2 ^ (?i - k))" let ?t = "page_list_push (release_merge ?s ?a k ?i) ?i ?b"
  have lev: "Suc k < ?i" "?i \<le> PAGE_MAX_ORDER"
    using merge_twice_level [of k q F, OF k b] pair a_level_bounds [OF k'(1)] by simp_all
  have r: "q - 2 < NUM_FRAMES div 2 ^ k" using q(1) by simp
  have p: "page_aligned (blk_ptr k (q - 2))" "blk_ptr k (q - 2) \<notin> set (map (blk_ptr k) (F k))"
    using blk_ptr_facts(1) [OF k'(1) r] stray(1) buddy_invD(2) [OF F(1) k'(1)] blk_ptr_inj [OF k'(1) r] by auto
  have ls: "lists_ok (mem ?s) (Page_lists ?s) F" using F(2) by simp
  note other = unlink_other_page [OF F(1) ls k'(1) b PAGE_BUDDY_eq [OF k'(2) q(1)] p]
  have "stray_links (mem ?s1) (blk_ptr k (q - 2))"
    using stray(2) l1(2) other unfolding stray_links_def by simp
  then have heads: "Page_lists ?s2 = Page_lists ?s1"
    by (rule unlink_keeps_head [OF PAGE_BUDDY_second [OF k q] p(1)])
  have merge: "release_merge ?s ?a k ?i = release_merge ?s2 ?a (Suc (Suc k)) ?i"
    using lev(1) by (subst release_merge.simps, simp, subst release_merge.simps, simp)
  have "unat ?a div 2 ^ (12 + ?i) = q div 2 ^ (?i - k)"
    using addr lev(1) by (metis ab_semigroup_add_class.add_ac(1) div_mult2_eq le_add_diff_inverse
        power_add Suc_leD less_imp_le)
  then have ptr: "(?a AND NOT (push_bit (12 + ?i) 1 - 1)) + KERNEL_HIGHER_HALF_OFFSET = ?b"
    using lev(2) by (simp only: and_not_low_bits PAGE_MAX_ORDER_def blk_addr_nat [symmetric] blk_addr_add)
  have run: "Page_Release s (blk_ptr k q) k = Inr (unlock_pages ?t)"
    using s1 M ptr blk_ptr_facts(2) [OF k'(1) q(1)] by (simp add: Page_Release_def Let_def del: push_bit_of_1)
  have un: "page_unlocked (unlock_pages ?t)" "Page_lists (unlock_pages ?t) = Page_lists ?t"
    by (intro lock_unlock [OF s1]; simp)+
  have push: "Page_lists ?t = (Page_lists (release_merge ?s ?a k ?i))(?i := ?b)"
    by (simp add: page_list_push_def Let_def)
  have "Page_lists (release_merge ?s ?a k ?i) (Suc k) = Page_lists s (Suc k)"
    unfolding merge using heads l1(4) by (simp add: release_merge_heads release_unlink_heads)
  also have "\<dots> = blk_ptr (Suc k) (buddy (q div 2))"
    using inv lists_okD(1) [OF _ k'(3), of "mem s" "Page_lists s" F] pair by (simp add: page_inv_def)
  finally have "Page_lists (unlock_pages ?t) (Suc k) = blk_ptr (Suc k) (buddy (q div 2))"
    unfolding un(2) push using lev(1) by simp
  moreover have "Page_lists (unlock_pages ?t) ?i = ?b" unfolding un(2) push by simp
  ultimately show thesis using run un(1) lev by (intro that)
qed

text \<open>
  Frame \<open>0x100\<close> free at order 0, the block \<open>0x81\<close> (frames \<open>0x102\<close> and
  \<open>0x103\<close>) free at order 1, frame \<open>0x101\<close> allocated.
\<close>

definition merge_twice :: physmem where
  "merge_twice =
     (page_list_push (page_list_push no_pages 0 (blk_ptr 0 0x100)) 1 (blk_ptr 1 0x81))
       \<lparr>Page_maps := map_toggle (map_toggle (\<lambda>_ _. 0) 0 0x80) 1 0x40\<rparr>"

definition merge_twice_lists :: free_lists where
  "merge_twice_lists = (\<lambda>_. [])(0 := [0x100], 1 := [0x81])"

lemma map_bit_zero [simp]: "\<not> map_bit (\<lambda>_ _. 0) k p"
  by (simp add: map_bit_def)

lemma merge_twice_inv: "page_inv merge_twice merge_twice_lists" "page_unlocked merge_twice"
proof -
  let ?F0 = "\<lambda>_. [] :: nat list" let ?F1 = "?F0(0 := [0x100])"
  have k: "0 \<le> PAGE_MAX_ORDER" "1 \<le> PAGE_MAX_ORDER" "0x100 < NUM_FRAMES div 2 ^ 0" "0x81 < NUM_FRAMES div 2 ^ 1"
    by (simp_all add: PAGE_MAX_ORDER_def NUM_FRAMES_def)
  have inv: "buddy_inv ?F0" "lists_ok (mem no_pages) (Page_lists no_pages) ?F0" "bits_ok (Page_maps no_pages) ?F0"
    using no_pages_inv by (simp_all add: page_inv_def)
  have none: "blk 0 0x100 \<inter> free_frames ?F0 = {}" by (simp add: free_frames_def)
  have free: "free_frames ?F1 = blk 0 0x100"
    using free_frames_add [OF k(1), of "[0x100]" "0x100" ?F0] by (simp add: free_frames_def)
  have none1: "blk 1 0x81 \<inter> free_frames ?F1 = {}" unfolding free by (auto simp: blk_def)
  have inv1: "buddy_inv ?F1" using buddy_inv_add [OF inv(1) k(1,3) none] by simp
  have l1: "lists_ok (mem (page_list_push no_pages 0 (blk_ptr 0 0x100)))
      (Page_lists (page_list_push no_pages 0 (blk_ptr 0 0x100))) ?F1"
    using push_ok(1) [OF inv(1,2) k(1,3) none] by simp
  have "lists_ok (mem merge_twice) (Page_lists merge_twice) merge_twice_lists"
    using push_ok(1) [OF inv1 l1 k(2,4) none1] by (simp add: merge_twice_def merge_twice_lists_def)
  moreover have "buddy_inv merge_twice_lists"
    using buddy_inv_add [OF inv1 k(2,4) none1] by (simp add: merge_twice_lists_def)
  moreover have "bits_ok (map_toggle (\<lambda>_ _. 0) 0 0x80) ?F1"
    using bits_ok_toggle [where M = "\<lambda>_ _. 0" and F = ?F0 and k = 0 and q = "0x100" and xs = "[0x100]"] inv(3) by (simp add: no_pages_def)
  then have "bits_ok (Page_maps merge_twice) merge_twice_lists"
    using bits_ok_toggle [where M = "map_toggle (\<lambda>_ _. 0) 0 0x80" and F = ?F1 and k = 1 and q = "0x81" and xs = "[0x81]"]
    by (simp add: merge_twice_def merge_twice_lists_def)
  ultimately show "page_inv merge_twice merge_twice_lists" by (simp add: page_inv_def)
  show "page_unlocked merge_twice" using no_pages_inv by (simp add: page_unlocked_def merge_twice_def)
qed

lemma merge_twice_stray: "stray_links (mem merge_twice) (blk_ptr 0 (0x101 - 2))"
proof -
  have m: "mem merge_twice = store32 (store32 (store32 (store32 (\<lambda>_. 0) 0x80100004 0xFFFFFFFF) 0x80100000 0xFFFFFFFF)
      0x80102004 0xFFFFFFFF) 0x80102000 0xFFFFFFFF"
    by (simp_all add: merge_twice_def page_list_push_def Let_def no_pages_def blk_ptr_def frame_ptr_def frame_addr_def
        PAGE_LIST_NULL_def KERNEL_HIGHER_HALF_OFFSET_def set_next_def set_prev_def)
  have p: "blk_ptr 0 (0x101 - 2) = 0x800FF000"
    by (simp add: blk_ptr_def frame_ptr_def frame_addr_def KERNEL_HIGHER_HALF_OFFSET_def)
  have "load32 (mem merge_twice) 0x800FF000 = 0" "load32 (mem merge_twice) 0x800FF004 = 0"
    unfolding m by (simp_all add: load32_store32_other aligned4_def) (simp_all add: load32_def)
  then show ?thesis unfolding stray_links_def p pl_prev_def pl_next_def by (simp add: aligned4_def)
qed

section \<open>Properties\<close>

text \<open>
  C2. \<open>Page_Acquire\<close> refines the abstract buddy system: from a state that represents the
  free lists \<open>F\<close>, it returns the kernel address of the block that the abstract acquisition
  picks, leaves a state that represents the resulting lists, writes no byte outside the frames
  that were free, and gives back lock, interrupt flag and preemption count.
\<close>

theorem Page_Acquire_refines_buddy:
  assumes "page_inv s F" and "page_unlocked s" and "k \<le> PAGE_MAX_ORDER"
    and "a_acquire F k = Some (F', q)"
  shows "\<exists>s'. Page_Acquire s k = Inr (blk_ptr k q, s') \<and> page_inv s' F' \<and>
    blk k q \<subseteq> free_frames F \<and> free_frames F' = free_frames F - blk k q \<and>
    same_outside (free_frames F) (mem s) (mem s') \<and> page_unlocked s' \<and> same_cpu s s'"
proof -
  have inv: "buddy_inv F" using assms(1) by (simp add: page_inv_def)
  show ?thesis using acquire_refines [OF assms] a_acquire_correct [OF inv assms(4)] by blast
qed

lemma one_block_acquire:
  "a_acquire one_block_lists 9 = Some ((\<lambda>_. [])(9 := [3]), 2)"
  by (simp add: a_acquire_def one_block_lists_def a_find.simps PAGE_MAX_ORDER_def numeral_eq_Suc fun_eq_iff)

theorem Page_Acquire_refines_buddy_witness:
  "\<exists>s'. Page_Acquire one_block 9 = Inr (blk_ptr 9 2, s') \<and> page_inv s' ((\<lambda>_. [])(9 := [3])) \<and>
    blk 9 2 \<subseteq> free_frames one_block_lists \<and>
    free_frames ((\<lambda>_. [])(9 := [3])) = free_frames one_block_lists - blk 9 2 \<and>
    same_outside (free_frames one_block_lists) (mem one_block) (mem s') \<and> page_unlocked s' \<and>
    same_cpu one_block s'"
  by (rule Page_Acquire_refines_buddy [OF one_block_inv _ one_block_acquire]) (simp add: PAGE_MAX_ORDER_def)

text \<open>
  C3. \<open>Page_Release\<close> refines the abstract release: a block none of whose frames is free
  becomes free and is merged with its free buddies as far as possible, provided the block's address
  is aligned to the orders it is merged through.
\<close>

theorem Page_Release_refines_buddy:
  assumes "page_inv s F" and "page_unlocked s" and "k \<le> PAGE_MAX_ORDER"
    and "q < NUM_FRAMES div 2 ^ k" and "blk k q \<inter> free_frames F = {}"
    and "merge_aligned (blk_addr k q) k (a_level F k q)"
  shows "\<exists>s'. Page_Release s (blk_ptr k q) k = Inr s' \<and> page_inv s' (a_release F k q) \<and>
    free_frames (a_release F k q) = free_frames F \<union> blk k q \<and>
    same_outside (free_frames F \<union> blk k q) (mem s) (mem s') \<and> page_unlocked s' \<and> same_cpu s s'"
proof -
  have inv: "buddy_inv F" using assms(1) by (simp add: page_inv_def)
  show ?thesis using release_refines [OF assms] a_release_correct [OF inv assms(3-5)] by blast
qed

theorem Page_Release_refines_buddy_witness:
  "\<exists>s'. Page_Release no_pages (blk_ptr 3 40) 3 = Inr s' \<and> page_inv s' (a_release (\<lambda>_. []) 3 40) \<and>
    free_frames (a_release (\<lambda>_. []) 3 40) = free_frames (\<lambda>_. []) \<union> blk 3 40 \<and>
    same_outside (free_frames (\<lambda>_. []) \<union> blk 3 40) (mem no_pages) (mem s') \<and> page_unlocked s' \<and>
    same_cpu no_pages s'"
  by (rule Page_Release_refines_buddy [OF no_pages_inv])
    (simp_all add: PAGE_MAX_ORDER_def NUM_FRAMES_def free_frames_def merge_aligned_def a_level.simps)

text \<open>
  C5. Round trip: releasing a block right after acquiring it always succeeds, needs no alignment
  condition, and brings back exactly the free lists from before the acquisition.
\<close>

theorem Page_Acquire_Release_roundtrip:
  assumes "page_inv s F" and "page_unlocked s" and "k \<le> PAGE_MAX_ORDER"
    and "Page_Acquire s k = Inr (p, s')" and "p \<noteq> PAGE_LIST_NULL"
  shows "\<exists>s''. Page_Release s' p k = Inr s'' \<and> page_inv s'' F \<and> page_unlocked s'' \<and>
    same_outside (free_frames F) (mem s) (mem s'') \<and> same_cpu s s''"
  using Page_give_back [OF assms] by blast

theorem Page_Acquire_Release_roundtrip_witness:
  "\<exists>p s' s''. Page_Acquire one_block 9 = Inr (p, s') \<and> Page_Release s' p 9 = Inr s'' \<and>
    page_inv s'' one_block_lists"
proof -
  have k: "9 \<le> PAGE_MAX_ORDER" by (simp add: PAGE_MAX_ORDER_def)
  obtain s' where s': "Page_Acquire one_block 9 = Inr (blk_ptr 9 2, s')"
    using acquire_refines [OF one_block_inv k one_block_acquire] by blast
  moreover have "blk_ptr 9 2 \<noteq> PAGE_LIST_NULL" using k by (intro blk_ptr_facts) (simp_all add: NUM_FRAMES_def)
  ultimately show ?thesis using Page_Acquire_Release_roundtrip [OF one_block_inv k] by blast
qed

text \<open>
  C6. Two successful acquisitions in a row hand out disjoint blocks of free frames, and the second
  one leaves every byte of the first block unchanged.
\<close>

theorem Page_Acquire_disjoint:
  assumes "page_owns s A" and "k \<le> PAGE_MAX_ORDER" and "j \<le> PAGE_MAX_ORDER"
    and "Page_Acquire s k = Inr (p, s')" and "Page_Acquire s' j = Inr (p', s'')"
    and "p \<noteq> PAGE_LIST_NULL" and "p' \<noteq> PAGE_LIST_NULL"
  shows "\<exists>q r. p = blk_ptr k q \<and> p' = blk_ptr j r \<and> blk k q \<inter> blk j r = {} \<and>
    blk k q \<union> blk j r \<subseteq> A \<and> page_owns s'' (A - blk k q - blk j r) \<and>
    (\<forall>a. frame_of a \<in> blk k q \<longrightarrow> mem s'' a = mem s' a)"
  using assms by (rule pages.two_acquisitions)

theorem Page_Acquire_disjoint_witness:
  "\<exists>p s' p' s'' q r. Page_Acquire one_block 9 = Inr (p, s') \<and> Page_Acquire s' 9 = Inr (p', s'') \<and>
    p = blk_ptr 9 q \<and> p' = blk_ptr 9 r \<and> blk 9 q \<inter> blk 9 r = {}"
proof -
  have k: "9 \<le> PAGE_MAX_ORDER" by (simp add: PAGE_MAX_ORDER_def)
  have nn: "blk_ptr 9 2 \<noteq> PAGE_LIST_NULL" "blk_ptr 9 3 \<noteq> PAGE_LIST_NULL"
    using k by (auto intro!: blk_ptr_facts simp: NUM_FRAMES_def)
  have next_block: "a_acquire ((\<lambda>_. [])(9 := [3])) 9 = Some (\<lambda>_. [], 3)"
    by (simp add: a_acquire_def a_find.simps PAGE_MAX_ORDER_def numeral_eq_Suc fun_eq_iff)
  obtain s' where s': "Page_Acquire one_block 9 = Inr (blk_ptr 9 2, s')" "page_inv s' ((\<lambda>_. [])(9 := [3]))"
      "page_unlocked s'"
    using acquire_refines [OF one_block_inv k one_block_acquire] by blast
  obtain s'' where s'': "Page_Acquire s' 9 = Inr (blk_ptr 9 3, s'')"
    using acquire_refines [OF s'(2,3) k next_block] by blast
  have "page_owns one_block (free_frames one_block_lists)"
    using one_block_inv by (auto simp: page_owns_def)
  from Page_Acquire_disjoint [OF this k k s'(1) s'' nn] s'(1) s'' show ?thesis by blast
qed

text \<open>
  C7. Running out of memory is fatal: when no block of the wanted order or above is free,
  \<open>Page_Acquire\<close> returns \<open>PAGE_LIST_NULL\<close> with the lock still held, so every later
  acquisition and every later release of a page spins for ever.
\<close>

theorem Page_Acquire_exhausted_deadlocks:
  assumes "page_inv s F" and "page_unlocked s" and "k \<le> PAGE_MAX_ORDER"
    and "\<forall>l. k \<le> l \<longrightarrow> l \<le> PAGE_MAX_ORDER \<longrightarrow> F l = []"
  shows "\<exists>s'. Page_Acquire s k = Inr (PAGE_LIST_NULL, s') \<and>
    (\<forall>j. Page_Acquire s' j = Inl Spins_Forever) \<and>
    (\<forall>p j. p \<noteq> PAGE_LIST_NULL \<longrightarrow> Page_Release s' p j = Inl Spins_Forever)"
proof -
  have "a_acquire F k = None" using assms(4) a_find_None [of F k] by (simp add: a_acquire_def)
  from acquire_exhausted [OF assms(1-3) this] obtain s'
    where s': "Page_Acquire s k = Inr (PAGE_LIST_NULL, s')" "\<not> page_unlocked s'" by blast
  then have "lock_pages s' = Inl Spins_Forever" by (simp add: lock_pages_eq)
  then show ?thesis using s'(1) by (auto simp: Page_Acquire_def Page_Release_def)
qed

theorem Page_Acquire_exhausted_deadlocks_witness:
  "\<exists>s'. Page_Acquire no_pages 0 = Inr (PAGE_LIST_NULL, s') \<and>
    (\<forall>j. Page_Acquire s' j = Inl Spins_Forever) \<and>
    (\<forall>p j. p \<noteq> PAGE_LIST_NULL \<longrightarrow> Page_Release s' p j = Inl Spins_Forever)"
  by (rule Page_Acquire_exhausted_deadlocks [OF no_pages_inv]) simp_all

text \<open>
  C8. Merging through two orders can hand out a block twice. Let \<open>q\<close> be the upper half of a
  pair whose lower half is free, and let the neighbour of that pair be free and the first of its list.
  Releasing \<open>q\<close> merges at least twice, but the code computes the second buddy from the
  address that was passed in and unlinks the page two blocks below instead. When that page is not a free block of the order
  itself and its first two words are aligned and not the links of a list head (zeros for example), the
  neighbour stays on its list and is part of the merged block as well: an acquisition of each of the two
  orders returns overlapping blocks.
\<close>

theorem Page_Release_merge_overlap:
  assumes "page_inv s F" and "page_unlocked s" and "Suc k < PAGE_MAX_ORDER"
    and "q < NUM_FRAMES div 2 ^ k" and "odd q" and "2 \<le> q" and "blk k q \<inter> free_frames F = {}"
    and "buddy q \<in> set (F k)" and "F (Suc k) = buddy (q div 2) # rest"
    and "q - 2 \<notin> set (F k)" and "stray_links (mem s) (blk_ptr k (q - 2))"
  shows "\<exists>s1 s2 s3 i. Page_Release s (blk_ptr k q) k = Inr s1 \<and>
    Page_Acquire s1 (Suc k) = Inr (blk_ptr (Suc k) (buddy (q div 2)), s2) \<and>
    Suc k < i \<and> i \<le> PAGE_MAX_ORDER \<and>
    Page_Acquire s2 i = Inr (blk_ptr i (q div 2 ^ (i - k)), s3) \<and>
    blk (Suc k) (buddy (q div 2)) \<subseteq> blk i (q div 2 ^ (i - k))"
proof -
  obtain s1 i where s1: "Page_Release s (blk_ptr k q) k = Inr s1" "page_unlocked s1"
      "Suc k < i" "i \<le> PAGE_MAX_ORDER" "Page_lists s1 (Suc k) = blk_ptr (Suc k) (buddy (q div 2))"
      "Page_lists s1 i = blk_ptr i (q div 2 ^ (i - k))"
    using assms by (rule release_unaligned)
  have "buddy_inv F" using assms(1) by (simp add: page_inv_def)
  then have b: "buddy (q div 2) < NUM_FRAMES div 2 ^ Suc k"
    by (rule buddy_invD(2)) (use assms(3,9) in simp_all)
  obtain s2 where s2: "Page_Acquire s1 (Suc k) = Inr (blk_ptr (Suc k) (buddy (q div 2)), s2)"
      "page_unlocked s2" "Page_lists s2 i = Page_lists s1 i"
    using s1(2) less_imp_le [OF assms(3)] s1(5) b by (rule acquire_head) (use s1(3) in auto)
  have up: "q div 2 ^ (i - k) = buddy (q div 2) div 2 ^ (i - Suc k)"
    using s1(3) by (intro parent_of_buddy)
  have bi: "q div 2 ^ (i - k) < NUM_FRAMES div 2 ^ i"
    using assms(4) s1(3,4) by (intro ancestor_bound) simp_all
  obtain s3 where "Page_Acquire s2 i = Inr (blk_ptr i (q div 2 ^ (i - k)), s3)"
    using s2(2) s1(4) _ bi by (rule acquire_head) (simp add: s2(3) s1(6))
  moreover have "blk (Suc k) (buddy (q div 2)) \<subseteq> blk i (q div 2 ^ (i - k))"
    unfolding up using blk_up [of "Suc k" "buddy (q div 2)" "i - Suc k"] s1(3) by simp
  ultimately show ?thesis using s1 s2(1) by blast
qed

theorem Page_Release_merge_overlap_witness:
  "\<exists>s1 s2 s3 i. Page_Release merge_twice (blk_ptr 0 0x101) 0 = Inr s1 \<and>
    Page_Acquire s1 (Suc 0) = Inr (blk_ptr (Suc 0) (buddy (0x101 div 2)), s2) \<and>
    Suc 0 < i \<and> i \<le> PAGE_MAX_ORDER \<and>
    Page_Acquire s2 i = Inr (blk_ptr i (0x101 div 2 ^ (i - 0)), s3) \<and>
    blk (Suc 0) (buddy (0x101 div 2)) \<subseteq> blk i (0x101 div 2 ^ (i - 0))"
proof (rule Page_Release_merge_overlap [OF merge_twice_inv])
  show "blk 0 0x101 \<inter> free_frames merge_twice_lists = {}"
    by (auto simp: merge_twice_lists_def free_frames_def blk_def split: if_splits intro!: gr0I)
  show "merge_twice_lists (Suc 0) = buddy (0x101 div 2) # []"
    by (simp add: merge_twice_lists_def buddy_def)
qed (simp_all only: merge_twice_stray, simp_all add: PAGE_MAX_ORDER_def NUM_FRAMES_def merge_twice_lists_def buddy_def)

end
