(* ===== verification/AVOS_Clib.thy ===== *)
theory AVOS_Clib
  imports AVOS_Prelude
begin

text \<open>
  The byte functions of the kernel's C library, \<open>kernel/clib/src/string.c\<close>; the bootloader's
  \<open>string.c\<close> has the same text without \<open>memchr\<close>. The loops run over a 32-bit index,
  and addresses wrap around at the top of memory.
\<close>

section \<open>Functions\<close>

function copy_up :: "memory \<Rightarrow> u32 \<Rightarrow> u32 \<Rightarrow> u32 \<Rightarrow> u32 \<Rightarrow> memory" where
  "copy_up m des src num i =
     (if i < num then copy_up (m(des + i := m (src + i))) des src num (i + 1) else m)"
  by pat_completeness auto
termination
  by (relation "measure (\<lambda>(m, des, src, num, i). unat (num - i))") (auto intro: word_loop_measure)

function copy_down :: "memory \<Rightarrow> u32 \<Rightarrow> u32 \<Rightarrow> u32 \<Rightarrow> memory" where
  "copy_down m des src i =
     (if i \<noteq> 0 then copy_down (m(des + (i - 1) := m (src + (i - 1)))) des src (i - 1) else m)"
  by pat_completeness auto
termination
  by (relation "measure (\<lambda>(m, des, src, i). unat i)") (auto intro: measure_unat)

function set_up :: "memory \<Rightarrow> u32 \<Rightarrow> u8 \<Rightarrow> u32 \<Rightarrow> u32 \<Rightarrow> memory" where
  "set_up m des c8 num i = (if i < num then set_up (m(des + i := c8)) des c8 num (i + 1) else m)"
  by pat_completeness auto
termination
  by (relation "measure (\<lambda>(m, des, c8, num, i). unat (num - i))") (auto intro: word_loop_measure)

function compare_up :: "memory \<Rightarrow> u32 \<Rightarrow> u32 \<Rightarrow> u32 \<Rightarrow> u32 \<Rightarrow> int" where
  "compare_up m str1 str2 num i =
     (if i < num then
        (if m (str1 + i) < m (str2 + i) then - 1
         else if m (str1 + i) > m (str2 + i) then 1
         else compare_up m str1 str2 num (i + 1))
      else 0)"
  by pat_completeness auto
termination
  by (relation "measure (\<lambda>(m, str1, str2, num, i). unat (num - i))") (auto intro: word_loop_measure)

text \<open>
  \<open>pointer[i]\<close> is a (signed) \<open>char\<close> and is compared with an \<open>unsigned char\<close>:
  both are promoted to \<open>int\<close> first.
\<close>

function search_up :: "memory \<Rightarrow> u32 \<Rightarrow> u8 \<Rightarrow> u32 \<Rightarrow> u32 \<Rightarrow> u32" where
  "search_up m ptr v nbytes i =
     (if i < nbytes then
        (if sint (m (ptr + i)) = uint v then ptr + i else search_up m ptr v nbytes (i + 1))
      else 0)"
  by pat_completeness auto
termination
  by (relation "measure (\<lambda>(m, ptr, v, nbytes, i). unat (nbytes - i))") (auto intro: word_loop_measure)

declare copy_up.simps [simp del] copy_down.simps [simp del] set_up.simps [simp del]
  compare_up.simps [simp del] search_up.simps [simp del]

definition memcpy :: "memory \<Rightarrow> u32 \<Rightarrow> u32 \<Rightarrow> u32 \<Rightarrow> u32 \<times> memory" where
  "memcpy m destination source num = (destination, copy_up m destination source num 0)"

definition memmove :: "memory \<Rightarrow> u32 \<Rightarrow> u32 \<Rightarrow> u32 \<Rightarrow> u32 \<times> memory" where
  "memmove m destination source sz =
     (destination,
      if destination < source then copy_up m destination source sz 0
      else copy_down m destination source sz)"

definition memset :: "memory \<Rightarrow> u32 \<Rightarrow> u32 \<Rightarrow> u32 \<Rightarrow> u32 \<times> memory" where
  "memset m destination c num = (destination, set_up m destination (ucast c) num 0)"

definition memcmp :: "memory \<Rightarrow> u32 \<Rightarrow> u32 \<Rightarrow> u32 \<Rightarrow> int" where
  "memcmp m s1 s2 num = compare_up m s1 s2 num 0"

definition memchr :: "memory \<Rightarrow> u32 \<Rightarrow> u32 \<Rightarrow> u32 \<Rightarrow> u32" where
  "memchr m ptr val nbytes = search_up m ptr (ucast val) nbytes 0"

partial_function (option) strlen_loop :: "memory \<Rightarrow> u32 \<Rightarrow> u32 \<Rightarrow> u32 option" where
  "strlen_loop m string len =
     (if m (string + len) \<noteq> 0 then strlen_loop m string (len + 1) else Some len)"

definition strlen :: "memory \<Rightarrow> u32 \<Rightarrow> u32 result" where
  "strlen m string = (case strlen_loop m string 0 of None \<Rightarrow> Inl Loops_Forever | Some n \<Rightarrow> Inr n)"

section \<open>Copying\<close>

lemma word_Suc_le: "i < n \<Longrightarrow> i + 1 \<le> x \<longleftrightarrow> i < (x :: u32)"
  by unat_arith

lemma no_clobber_up:
  assumes "i < num" and "i + 1 \<le> x" and "x < num" and "des = src \<or> num \<le> des - src"
  shows "src + x \<noteq> des + (i :: u32)"
proof
  assume eq: "src + x = des + i"
  then have d: "des - src = x - i" by (metis add_diff_eq add.commute add_diff_cancel_right' diff_add_eq eq_diff_eq)
  have "i < x" using assms(1,2) by (simp add: word_Suc_le)
  then have "x - i \<le> x" "x - i \<noteq> 0" by (auto intro: word_sub_le)
  with d assms(3,4) show False by auto
qed

lemma copy_up_at:
  assumes "i \<le> num" and "des = src \<or> num \<le> des - src"
  shows "copy_up m des src num i a =
    (if i \<le> a - des \<and> a - des < num then m (src + (a - des)) else m a)"
  using assms
proof (induction m des src num i rule: copy_up.induct)
  case (1 m des src num i)
  show ?case
  proof (cases "i < num")
    case True
    let ?m = "m(des + i := m (src + i))" and ?x = "a - des"
    have le: "i + 1 \<le> num" using True by (simp add: inc_le)
    have IH: "copy_up ?m des src num (i + 1) a =
        (if i + 1 \<le> ?x \<and> ?x < num then ?m (src + ?x) else ?m a)"
      by (rule "1.IH" [OF True le "1.prems"(2)])
    have a: "a = des + i \<longleftrightarrow> ?x = i" by (auto simp: algebra_simps)
    have "?m (src + ?x) = m (src + ?x)" if "i + 1 \<le> ?x" "?x < num"
      using no_clobber_up [OF True that "1.prems"(2)] by simp
    moreover have "i \<le> ?x \<longleftrightarrow> ?x = i \<or> i + 1 \<le> ?x"
      using word_Suc_le [OF True, of ?x] by auto
    ultimately show ?thesis
      using True a IH by (subst copy_up.simps) auto
  next
    case False
    with "1.prems"(1) show ?thesis by (subst copy_up.simps) auto
  qed
qed

lemma copy_down_at:
  assumes "des = src \<or> i \<le> src - des"
  shows "copy_down m des src i a = (if a - des < i then m (src + (a - des)) else m a)"
  using assms
proof (induction m des src i rule: copy_down.induct)
  case (1 m des src i)
  show ?case
  proof (cases "i = 0")
    case False
    let ?m = "m(des + (i - 1) := m (src + (i - 1)))" and ?x = "a - des"
    have pred: "i - 1 \<le> i" "y < i \<longleftrightarrow> y < i - 1 \<or> y = i - 1" for y using False by unat_arith+
    have le: "des = src \<or> i - 1 \<le> src - des" using "1.prems" pred(1) by (auto intro: order_trans)
    have IH: "copy_down ?m des src (i - 1) a = (if ?x < i - 1 then ?m (src + ?x) else ?m a)"
      by (rule "1.IH" [OF False le])
    have a: "a = des + (i - 1) \<longleftrightarrow> ?x = i - 1" by (auto simp: algebra_simps)
    have "src + ?x \<noteq> des + (i - 1)" if "?x < i - 1"
    proof
      assume "src + ?x = des + (i - 1)"
      then have "src - des = i - 1 - ?x" by (simp add: algebra_simps)
      moreover have "i - 1 - ?x \<le> i - 1" "i - 1 - ?x \<noteq> 0" using that by (auto intro: word_sub_le)
      moreover have "i - 1 < i" using pred(2) [of "i - 1"] by blast
      ultimately have "src \<noteq> des" "src - des < i" by (auto simp only: diff_self intro: order_le_less_trans)
      with "1.prems" show False by (simp only: not_le [symmetric]) blast
    qed
    then have m: "?m (src + ?x) = m (src + ?x)" if "?x < i - 1" using that by simp
    have "?m a = (if ?x = i - 1 then m (src + (i - 1)) else m a)" using a by simp
    then show ?thesis
      unfolding copy_down.simps [of m des src i] pred(2) [of ?x] using False IH m by (simp only: if_True simp_thms) auto
  qed (simp add: copy_down.simps)
qed

lemma set_up_at:
  assumes "i \<le> num"
  shows "set_up m des c8 num i a = (if i \<le> a - des \<and> a - des < num then c8 else m a)"
  using assms
proof (induction m des c8 num i rule: set_up.induct)
  case (1 m des c8 num i)
  show ?case
  proof (cases "i < num")
    case True
    let ?x = "a - des"
    have le: "i + 1 \<le> num" using True by (simp add: inc_le)
    have IH: "set_up (m(des + i := c8)) des c8 num (i + 1) a =
        (if i + 1 \<le> ?x \<and> ?x < num then c8 else (m(des + i := c8)) a)"
      by (rule "1.IH" [OF True le])
    have a: "a = des + i \<longleftrightarrow> ?x = i" by (auto simp: algebra_simps)
    have "i \<le> ?x \<longleftrightarrow> ?x = i \<or> i + 1 \<le> ?x" using word_Suc_le [OF True, of ?x] by auto
    then show ?thesis using True a IH by (subst set_up.simps) auto
  next
    case False
    with "1.prems"(1) show ?thesis by (subst set_up.simps) auto
  qed
qed

section \<open>Comparing and searching\<close>

definition bytes :: "memory \<Rightarrow> u32 \<Rightarrow> nat \<Rightarrow> u8 list" where
  "bytes m p n = map (\<lambda>j. m (p + of_nat j)) [0..<n]"

fun list_compare :: "u8 list \<Rightarrow> u8 list \<Rightarrow> int" where
  "list_compare (x # xs) (y # ys) = (if x < y then - 1 else if x > y then 1 else list_compare xs ys)"
| "list_compare _ _ = 0"

lemma bytes_0 [simp]: "bytes m p 0 = []"
  by (simp add: bytes_def)

lemma bytes_Suc: "bytes m p (Suc n) = m p # bytes m (p + 1) n"
  unfolding bytes_def by (simp add: upt_conv_Cons map_Suc_upt [symmetric] del: upt_Suc) (simp add: ac_simps)

lemma unat_diff_Suc: "i < n \<Longrightarrow> unat (n - i) = Suc (unat (n - (i + 1) :: u32))"
  by unat_arith

lemma compare_up_eq:
  assumes "i \<le> num"
  shows "compare_up m s1 s2 num i =
    list_compare (bytes m (s1 + i) (unat (num - i))) (bytes m (s2 + i) (unat (num - i)))"
  using assms
proof (induction m s1 s2 num i rule: compare_up.induct)
  case (1 m s1 s2 num i)
  show ?case
  proof (cases "i < num")
    case True
    then have "i + 1 \<le> num" by (simp add: inc_le)
    with True "1.IH" show ?thesis
      by (subst compare_up.simps) (simp add: unat_diff_Suc bytes_Suc add.assoc)
  next
    case False
    with "1.prems" have "i = num" by simp
    then show ?thesis by (simp add: compare_up.simps)
  qed
qed

lemma list_compare_0: "length xs = length ys \<Longrightarrow> list_compare xs ys = 0 \<longleftrightarrow> xs = ys"
  by (induction xs ys rule: list_induct2) auto

lemma list_compare_antisym: "list_compare ys xs = - list_compare xs ys"
  by (induction xs ys rule: list_compare.induct) auto

lemma search_up_eq:
  assumes "i \<le> nbytes"
  shows "search_up m ptr v nbytes i =
    (case find (\<lambda>j. sint (m (ptr + j)) = uint v) (map (\<lambda>j. i + of_nat j) [0..<unat (nbytes - i)]) of
       None \<Rightarrow> 0 | Some j \<Rightarrow> ptr + j)"
  using assms
proof (induction m ptr v nbytes i rule: search_up.induct)
  case (1 m ptr v nbytes i)
  show ?case
  proof (cases "i < nbytes")
    case True
    have idx: "map (\<lambda>j. i + of_nat j) [0..<Suc n] = i # map (\<lambda>j. i + 1 + of_nat j) [0..<n]" for n
      by (simp add: upt_conv_Cons map_Suc_upt [symmetric] del: upt_Suc)
    from True have "i + 1 \<le> nbytes" by (simp add: inc_le)
    with True "1.IH" show ?thesis
      unfolding unat_diff_Suc [OF True] idx by (subst search_up.simps) simp
  next
    case False
    with "1.prems" have "i = nbytes" by simp
    then show ?thesis by (simp add: search_up.simps)
  qed
qed

lemma strlen_loop_Some:
  assumes "m (s + of_nat n) = 0" and "k \<le> n" and "\<And>j. k \<le> j \<Longrightarrow> j < n \<Longrightarrow> m (s + of_nat j) \<noteq> 0"
  shows "strlen_loop m s (of_nat k) = Some (of_nat n)"
  using assms(2,3)
proof (induction "n - k" arbitrary: k)
  case 0
  then have "k = n" by simp
  with assms(1) show ?case by (subst strlen_loop.simps) simp
next
  case (Suc d)
  then have "strlen_loop m s (of_nat (Suc k)) = Some (of_nat n)" by (intro Suc.hyps(1)) auto
  moreover have "m (s + of_nat k) \<noteq> 0" using Suc.hyps(2) Suc.prems by simp
  ultimately show ?case by (subst strlen_loop.simps) (simp add: add.commute)
qed

lemma signed_char_eq: "sint (b :: u8) = uint (v :: u8) \<longleftrightarrow> b = v \<and> v < 0x80"
proof -
  have "sint b = (uint b + 128) mod 256 - 128"
    using int_word_sint [where ?'a = 8, of "uint b"] by simp
  moreover have u: "0 \<le> uint v" "uint v < 256" "0 \<le> uint b" "uint b < 256" using uint_lt2p [of v] uint_lt2p [of b] by simp_all
  have "v < 0x80 \<longleftrightarrow> uint v < 128" by (simp add: word_less_def)
  moreover have "b = v \<longleftrightarrow> uint b = uint v" by (simp add: word_uint_eq_iff)
  moreover have "(uint b + 128) mod 256 = (if uint b < 128 then uint b + 128 else uint b - 128)"
    using u(3,4) mod_add_self2 [of "uint b - 128" 256] by (auto simp: add.commute mod_pos_pos_trivial)
  ultimately have "sint b = uint v \<longleftrightarrow> uint b = uint v \<and> uint v < 128"
    using u by (cases "uint b < 128"; simp only: if_True if_False; linarith)
  with \<open>v < 0x80 \<longleftrightarrow> _\<close> \<open>b = v \<longleftrightarrow> _\<close> show ?thesis by blast
qed

lemma memmove_region:
  assumes "unat des + unat n \<le> 2 ^ 32" and "unat src + unat n \<le> 2 ^ 32"
  shows "memmove m des src n = (des, \<lambda>a. if a - des < n then m (src + (a - des)) else m a)"
proof (cases "des < src")
  case True
  have "n \<le> des - src"
    using True assms unat_u32_lt [of src]
    by (simp add: word_le_nat_alt word_less_nat_alt unat_sub_if' del: unat_sub)
  then have "copy_up m des src n 0 = (\<lambda>a. if a - des < n then m (src + (a - des)) else m a)"
    by (intro ext) (simp add: copy_up_at)
  with True show ?thesis by (simp add: memmove_def)
next
  case False
  have "des = src \<or> n \<le> src - des"
    using False assms unat_u32_lt [of des]
    by (auto simp: word_le_nat_alt word_less_nat_alt unat_sub_if' word_unat_eq_iff)
  then have "copy_down m des src n = (\<lambda>a. if a - des < n then m (src + (a - des)) else m a)"
    by (intro ext) (simp add: copy_down_at)
  with False show ?thesis by (simp add: memmove_def)
qed

section \<open>Properties\<close>

text \<open>
  C10. \<open>memmove\<close> is correct for overlapping regions: when neither region runs past the top of
  memory, every destination byte gets the value its source byte had before the call, and no other
  byte changes.
\<close>

theorem memmove_correct:
  assumes "unat des + unat n \<le> 2 ^ 32" and "unat src + unat n \<le> 2 ^ 32"
  shows "memmove m des src n = (des, \<lambda>a. if a - des < n then m (src + (a - des)) else m a)"
  using assms by (rule memmove_region)

theorem memmove_correct_witness:
  "memmove (\<lambda>a. ucast a) 0x1002 0x1000 8 =
     (0x1002, \<lambda>a. if a - 0x1002 < 8 then ucast (0x1000 + (a - 0x1002)) else ucast a)"
  by (rule memmove_correct [of "0x1002" 8 "0x1000" ucast]) simp_all

text \<open>
  \<open>memcpy\<close> copies disjoint regions, and \<open>memset\<close> fills exactly the bytes asked for.
\<close>

theorem memcpy_memset_correct:
  assumes "des = src \<or> n \<le> des - src"
  shows "memcpy m des src n = (des, \<lambda>a. if a - des < n then m (src + (a - des)) else m a) \<and>
    memset m des c n = (des, \<lambda>a. if a - des < n then ucast c else m a)"
  using assms by (auto simp: memcpy_def memset_def copy_up_at set_up_at)

theorem memcpy_memset_correct_witness:
  "memcpy (\<lambda>a. ucast a) 0x2000 0x1000 16 =
     (0x2000, \<lambda>a. if a - 0x2000 < 16 then ucast (0x1000 + (a - 0x2000)) else ucast a) \<and>
   memset (\<lambda>a. ucast a) 0x2000 0x141 16 = (0x2000, \<lambda>a. if a - 0x2000 < 16 then 0x41 else ucast a)"
proof -
  have "ucast (0x141 :: u32) = (0x41 :: u8)" by simp
  then show ?thesis using memcpy_memset_correct [of "0x2000" "0x1000" 16 ucast "0x141"] by (simp only:) simp
qed

text \<open>
  C11. \<open>memcmp\<close> is the lexicographic comparison of the two byte sequences: it is 0 exactly when
  they are equal, and swapping the arguments swaps the sign.
\<close>

theorem memcmp_lexicographic:
  "memcmp m p q n = list_compare (bytes m p (unat n)) (bytes m q (unat n)) \<and>
   (memcmp m p q n = 0 \<longleftrightarrow> bytes m p (unat n) = bytes m q (unat n)) \<and>
   memcmp m q p n = - memcmp m p q n"
proof -
  have "length (bytes m p (unat n)) = length (bytes m q (unat n))" by (simp add: bytes_def)
  then show ?thesis
    using compare_up_eq [of 0 n m p q] compare_up_eq [of 0 n m q p]
      list_compare_0 [of "bytes m p (unat n)" "bytes m q (unat n)"]
      list_compare_antisym [of "bytes m q (unat n)" "bytes m p (unat n)"] by (simp add: memcmp_def)
qed

text \<open>
  C12. \<open>memchr\<close> compares a signed with an unsigned character, so a byte of \<open>0x80\<close> or
  above is never found, wherever it is; a smaller one is found at its first position.
\<close>

theorem memchr_first:
  assumes "m (p + of_nat k) = ucast c" and "k < unat n" and "\<forall>j < k. m (p + of_nat j) \<noteq> ucast c"
  shows "memchr m p c n = (if ucast c < (0x80 :: u8) then p + of_nat k else 0)"
proof -
  let ?P = "\<lambda>j. sint (m (p + j)) = uint (ucast c :: u8)" let ?js = "map of_nat [0..<unat n] :: u32 list"
  have eq: "memchr m p c n = (case find ?P ?js of None \<Rightarrow> 0 | Some j \<Rightarrow> p + j)"
    using search_up_eq [of 0 n m p "ucast c"] by (simp add: memchr_def)
  have P: "?P j \<longleftrightarrow> m (p + j) = ucast c \<and> ucast c < (0x80 :: u8)" for j by (simp add: signed_char_eq)
  show ?thesis
  proof (cases "ucast c < (0x80 :: u8)")
    case True
    then have "find ?P ?js = Some (of_nat k)"
      unfolding find_Some_iff P using assms by (intro exI [of _ k]) auto
    with eq True show ?thesis by simp
  next
    case False
    then have "find ?P ?js = None" unfolding find_None_iff P by simp
    with eq False show ?thesis by simp
  qed
qed

theorem memchr_first_witness:
  "memchr (\<lambda>a. if a = 0x1001 then 0xE9 else if a = 0x1002 then 0x41 else 0) 0x1000 0xE9 4 = 0 \<and>
   memchr (\<lambda>a. if a = 0x1001 then 0xE9 else if a = 0x1002 then 0x41 else 0) 0x1000 0x41 4 = 0x1002"
  using memchr_first [of "\<lambda>a. if a = 0x1001 then 0xE9 else if a = 0x1002 then 0x41 else 0" "0x1000" 1 "0xE9" 4]
    memchr_first [of "\<lambda>a. if a = 0x1001 then 0xE9 else if a = 0x1002 then 0x41 else 0" "0x1000" 2 "0x41" 4]
  by (simp add: less_2_cases_iff)

text \<open>
  \<open>strlen\<close> returns, on every string with a terminating zero byte, the number of bytes
  before the first one.
\<close>

theorem strlen_first_zero:
  assumes "m (s + of_nat n) = 0" and "\<forall>j < n. m (s + of_nat j) \<noteq> 0"
  shows "strlen m s = Inr (of_nat n)"
  using strlen_loop_Some [of m s n 0] assms by (simp add: strlen_def)

theorem strlen_first_zero_witness:
  "strlen (\<lambda>a. if a < 0x1003 then 0x61 else 0) 0x1000 = Inr 3"
  using strlen_first_zero [of "\<lambda>a. if a < 0x1003 then 0x61 else 0" "0x1000" 3]
  by (simp add: less_Suc_eq numeral_3_eq_3)

end
