(* ===== verification/AVOS_Paging.thy ===== *)
theory AVOS_Paging
  imports AVOS_Physmem AVOS_Clib
begin

text \<open>
  Page tables, \<open>kernel/arch/paging/src/paging.c\<close>. The functions of the source reach the page
  directory through \<open>proc->task_context->cr3\<close>; here that pointer is the argument
  \<open>cr3\<close>, a higher-half kernel address, and \<open>Paging_Initialize\<close> returns the new one.
  Directories and tables live in the same memory as everything else, and page tables are taken from
  and given back to the physical page allocator.
\<close>

section \<open>Constants and macros\<close>

definition PAGING_PAGESIZE :: u32 where "PAGING_PAGESIZE = 0x1000"
definition PAGING_EXTPAGESIZE :: u32 where "PAGING_EXTPAGESIZE = 0x400000"
definition PAGING_PGTAB_NENTRIES :: nat where "PAGING_PGTAB_NENTRIES = 0x400"
definition PAGING_PDE_PRESENT :: u32 where "PAGING_PDE_PRESENT = 1"
definition PAGING_PDE_READWRITE :: u32 where "PAGING_PDE_READWRITE = 2"
definition PAGING_PDE_USER :: u32 where "PAGING_PDE_USER = 4"
definition PAGING_PTE_PRESENT :: u32 where "PAGING_PTE_PRESENT = 1"
definition PAGING_PTE_READWRITE :: u32 where "PAGING_PTE_READWRITE = 2"
definition PAGING_PTE_USER :: u32 where "PAGING_PTE_USER = 4"

definition PAGING_PGDIR_IDX :: "u32 \<Rightarrow> u32" where "PAGING_PGDIR_IDX x = drop_bit 22 x AND 0x3FF"
definition PAGING_PGTAB_IDX :: "u32 \<Rightarrow> u32" where "PAGING_PGTAB_IDX x = drop_bit 12 x AND 0x3FF"

definition PAGEADDRESS :: "u32 \<Rightarrow> u32" where "PAGEADDRESS x = x AND NOT (PAGING_PAGESIZE - 1)"
definition PAGEOFFSET :: "u32 \<Rightarrow> u32" where "PAGEOFFSET x = x AND (PAGING_PAGESIZE - 1)"

text \<open>Element \<open>i\<close> of an array of 32-bit words.\<close>

definition word_at :: "memory \<Rightarrow> u32 \<Rightarrow> u32 \<Rightarrow> u32" where
  "word_at m p i = load32 m (p + 4 * i)"

definition set_word :: "u32 \<Rightarrow> u32 \<Rightarrow> u32 \<Rightarrow> 'a physmem_scheme \<Rightarrow> 'a physmem_scheme" where
  "set_word p i v s = s\<lparr>mem := store32 (mem s) (p + 4 * i) v\<rparr>"

definition clear_page :: "u32 \<Rightarrow> 'a physmem_scheme \<Rightarrow> 'a physmem_scheme" where
  "clear_page p s = s\<lparr>mem := snd (memset (mem s) p 0 PAGING_PAGESIZE)\<rparr>"

definition page_table_of :: "u32 \<Rightarrow> u32" where
  "page_table_of entry = KERNADDR (PAGEADDRESS entry)"

section \<open>One page\<close>

definition Paging_IsPageMapped :: "'a physmem_scheme \<Rightarrow> u32 \<Rightarrow> u32 \<Rightarrow> bool" where
  "Paging_IsPageMapped s cr3 virt_addr =
     (let page_dir_entry = word_at (mem s) cr3 (PAGING_PGDIR_IDX virt_addr)
      in if page_dir_entry AND PAGING_PDE_PRESENT = 0 then False
         else if word_at (mem s) (page_table_of page_dir_entry) (PAGING_PGTAB_IDX virt_addr) = 0 then False
         else True)"

definition Paging_MapPage ::
  "'a physmem_scheme \<Rightarrow> u32 \<Rightarrow> u32 \<Rightarrow> u32 \<Rightarrow> bool \<Rightarrow> (bool \<times> 'a physmem_scheme) result" where
  "Paging_MapPage s cr3 virt_addr phys_addr create =
     (let dir_idx = PAGING_PGDIR_IDX virt_addr;
          page_dir_entry = word_at (mem s) cr3 dir_idx;
          enter = (\<lambda>page_table s'. set_word page_table (PAGING_PGTAB_IDX virt_addr)
            (phys_addr OR PAGING_PTE_PRESENT OR PAGING_PTE_READWRITE OR PAGING_PTE_USER) s')
      in if page_dir_entry AND PAGING_PDE_PRESENT = 0 then
           (if \<not> create then Inr (False, s)
            else res_bind (Page_Acquire s 0) (\<lambda>(page_table, s1).
              if page_table = PAGE_LIST_NULL then Inr (False, s1)
              else
                (let s2 = clear_page page_table s1;
                     s3 = set_word cr3 dir_idx
                       (PHYSADDR page_table OR PAGING_PDE_PRESENT OR PAGING_PDE_READWRITE OR PAGING_PDE_USER) s2
                 in Inr (True, enter page_table s3))))
         else
           (let page_table = page_table_of page_dir_entry
            in if word_at (mem s) page_table (PAGING_PGTAB_IDX virt_addr) \<noteq> 0 then Inr (False, s)
               else Inr (True, enter page_table s)))"

definition Paging_UnmapPage :: "'a physmem_scheme \<Rightarrow> u32 \<Rightarrow> u32 \<Rightarrow> (bool \<times> 'a physmem_scheme) result" where
  "Paging_UnmapPage s cr3 virt_addr =
     (let page_dir_entry = word_at (mem s) cr3 (PAGING_PGDIR_IDX virt_addr)
      in if page_dir_entry AND PAGING_PDE_PRESENT = 0 then Inr (False, s)
         else
           (let page_table = page_table_of page_dir_entry;
                page_table_entry = word_at (mem s) page_table (PAGING_PGTAB_IDX virt_addr)
            in if page_table_entry AND PAGING_PTE_PRESENT = 0 then Inr (False, s)
               else res_bind (Page_Release s (KERNADDR (PAGEADDRESS page_table_entry)) 0) (\<lambda>s1.
                 Inr (True, set_word page_table (PAGING_PGTAB_IDX virt_addr) 0 s1))))"

section \<open>Ranges of pages\<close>

text \<open>
  The loop of \<open>Paging_MapPages\<close> steps through whole pages until it meets the last one, so it
  makes at most one pass over the \<open>2 ^ 20\<close> pages of the address space.
\<close>

definition PAGING_FUEL :: nat where "PAGING_FUEL = 2 ^ 20"

fun map_pages_loop ::
  "nat \<Rightarrow> 'a physmem_scheme \<Rightarrow> u32 \<Rightarrow> u32 \<Rightarrow> u32 \<Rightarrow> u32 \<Rightarrow> (u32 \<times> 'a physmem_scheme) result" where
  "map_pages_loop 0 s cr3 va va_end sz = Inl Loops_Forever"
| "map_pages_loop (Suc fuel) s cr3 va va_end sz =
     res_bind (Page_Acquire s 0) (\<lambda>(page_ptr, s1).
       if page_ptr = PAGE_LIST_NULL then Inr (sz, s1)
       else res_bind (Paging_MapPage s1 cr3 va (PHYSADDR page_ptr) True) (\<lambda>(mapped, s2).
         if \<not> mapped then res_bind (Page_Release s2 page_ptr 0) (\<lambda>s3. Inr (sz, s3))
         else if va = va_end then Inr (sz + PAGING_PAGESIZE, s2)
         else map_pages_loop fuel s2 cr3 (va + PAGING_PAGESIZE) va_end (sz + PAGING_PAGESIZE)))"

definition Paging_MapPages ::
  "'a physmem_scheme \<Rightarrow> u32 \<Rightarrow> u32 \<Rightarrow> u32 \<Rightarrow> (u32 \<times> 'a physmem_scheme) result" where
  "Paging_MapPages s cr3 virt_addr sz =
     (if sz = 0 then Inr (0, s)
      else map_pages_loop PAGING_FUEL s cr3 (PAGEADDRESS virt_addr) (PAGEADDRESS (virt_addr + sz - 1)) 0)"

function unmap_pages_loop ::
  "'a physmem_scheme \<Rightarrow> u32 \<Rightarrow> u32 \<Rightarrow> u32 \<Rightarrow> bool \<Rightarrow> (bool \<times> 'a physmem_scheme) result" where
  "unmap_pages_loop s cr3 va va_end unmapping_failed =
     (if va \<ge> KERNEL_MMAP_VIRTUAL_START then Inr (True, s)
      else if va > va_end then Inr (unmapping_failed, s)
      else res_bind (Paging_UnmapPage s cr3 va) (\<lambda>(ok, s1).
        unmap_pages_loop s1 cr3 (va + PAGING_PAGESIZE) va_end (unmapping_failed \<or> \<not> ok)))"
  by pat_completeness auto
termination
proof (relation "measure (\<lambda>(s, cr3, va, va_end, f). 0x80000000 - unat va)", goal_cases)
  case (2 s cr3 va va_end f x)
  have "unat va < 0x80000000"
    using 2(1) by (simp add: KERNEL_MMAP_VIRTUAL_START_def word_le_nat_alt)
  moreover from this have "unat (va + PAGING_PAGESIZE) = unat va + 0x1000"
    by (simp add: PAGING_PAGESIZE_def unat_word_ariths)
  ultimately show ?case by simp
qed simp

declare unmap_pages_loop.simps [simp del]

definition Paging_UnmapPages ::
  "'a physmem_scheme \<Rightarrow> u32 \<Rightarrow> u32 \<Rightarrow> u32 \<Rightarrow> (bool \<times> 'a physmem_scheme) result" where
  "Paging_UnmapPages s cr3 virt_addr sz =
     unmap_pages_loop s cr3 (PAGEADDRESS (virt_addr + PAGING_PAGESIZE - 1))
       (PAGEADDRESS (virt_addr + sz - 1)) False"

section \<open>Whole address spaces\<close>

text \<open>
  The loops over 4 MB regions are loops over directory indices: \<open>i\<close> runs through the 512
  multiples of 4 MB of the kernel half, or of the user half.
\<close>

definition Paging_Initialize ::
  "'a physmem_scheme \<Rightarrow> (u32 \<Rightarrow> u32) \<Rightarrow> (u32 option \<times> 'a physmem_scheme) result" where
  "Paging_Initialize s Kernel_pagedirectory =
     res_bind (Page_Acquire s 0) (\<lambda>(pgd, s1).
       if pgd = PAGE_LIST_NULL then Inr (None, s1)
       else Inr (Some pgd,
         fold (\<lambda>k s'. let i = KERNEL_MMAP_VIRTUAL_START + of_nat k * PAGING_EXTPAGESIZE
                     in set_word pgd (PAGING_PGDIR_IDX i) (Kernel_pagedirectory (PAGING_PGDIR_IDX i)) s')
           [0..<512] (clear_page pgd s1)))"

fun terminate_loop :: "'a physmem_scheme \<Rightarrow> u32 \<Rightarrow> nat list \<Rightarrow> ('a physmem_scheme) result" where
  "terminate_loop s cr3 [] = Inr s"
| "terminate_loop s cr3 (k # ks) =
     (let i = of_nat k * PAGING_EXTPAGESIZE;
          page_table = page_table_of (word_at (mem s) cr3 (PAGING_PGDIR_IDX i))
      in res_bind (Page_Release s page_table 0) (\<lambda>s1.
           terminate_loop (set_word cr3 (PAGING_PGDIR_IDX i) 0 s1) cr3 ks))"

definition Paging_Terminate :: "'a physmem_scheme \<Rightarrow> u32 \<Rightarrow> ('a physmem_scheme) result" where
  "Paging_Terminate s cr3 =
     res_bind (Paging_UnmapPages s cr3 0 KERNEL_MMAP_VIRTUAL_START) (\<lambda>(_, s1).
     res_bind (terminate_loop s1 cr3 [0..<512]) (\<lambda>s2.
     Page_Release s2 cr3 0))"

section \<open>Flags\<close>

definition Paging_SetFlags :: "'a physmem_scheme \<Rightarrow> u32 \<Rightarrow> u32 \<Rightarrow> u16 \<Rightarrow> bool \<times> 'a physmem_scheme" where
  "Paging_SetFlags s cr3 virt_addr flags =
     (if \<not> Paging_IsPageMapped s cr3 virt_addr then (False, s)
      else
        (let page_table = page_table_of (word_at (mem s) cr3 (PAGING_PGDIR_IDX virt_addr));
             idx = PAGING_PGTAB_IDX virt_addr
         in (True, set_word page_table idx (word_at (mem s) page_table idx OR ucast flags) s)))"

definition Paging_UnsetFlags :: "'a physmem_scheme \<Rightarrow> u32 \<Rightarrow> u32 \<Rightarrow> u16 \<Rightarrow> bool \<times> 'a physmem_scheme" where
  "Paging_UnsetFlags s cr3 virt_addr flags =
     (if \<not> Paging_IsPageMapped s cr3 virt_addr then (False, s)
      else
        (let page_table = page_table_of (word_at (mem s) cr3 (PAGING_PGDIR_IDX virt_addr));
             idx = PAGING_PGTAB_IDX virt_addr
         in (True, set_word page_table idx (word_at (mem s) page_table idx AND NOT (ucast flags)) s)))"

section \<open>Cloning and copying\<close>

fun clone_table ::
  "'a physmem_scheme \<Rightarrow> u32 \<Rightarrow> u32 \<Rightarrow> nat list \<Rightarrow> (bool \<times> 'a physmem_scheme) result" where
  "clone_table s ptab page_table [] = Inr (True, s)"
| "clone_table s ptab page_table (j # js) =
     (let entry = word_at (mem s) ptab (of_nat j)
      in if entry = 0 then clone_table s ptab page_table js
         else res_bind (Page_Acquire s 0) (\<lambda>(page, s1).
           if page = PAGE_LIST_NULL then Inr (False, s1)
           else
             (let s2 = set_word page_table (of_nat j)
                    (PHYSADDR page + PAGEOFFSET (word_at (mem s1) ptab (of_nat j))) s1;
                  s3 = s2\<lparr>mem := snd (memmove (mem s2) page
                    (KERNADDR (PAGEADDRESS (word_at (mem s2) ptab (of_nat j)))) PAGING_PAGESIZE)\<rparr>
              in clone_table s3 ptab page_table js)))"

fun clone_dir ::
  "'a physmem_scheme \<Rightarrow> u32 \<Rightarrow> u32 \<Rightarrow> nat list \<Rightarrow> (bool \<times> 'a physmem_scheme) result" where
  "clone_dir s page_dir clone [] = Inr (True, s)"
| "clone_dir s page_dir clone (i # is) =
     (if word_at (mem s) page_dir (of_nat i) = 0 then clone_dir s page_dir clone is
      else res_bind (Page_Acquire s 0) (\<lambda>(page_table, s1).
        if page_table = PAGE_LIST_NULL then Inr (False, s1)
        else
          (let s2 = set_word clone (of_nat i)
                 (PHYSADDR page_table + PAGEOFFSET (word_at (mem s1) page_dir (of_nat i))) s1;
               ptab = page_table_of (word_at (mem s2) page_dir (of_nat i))
           in res_bind (clone_table s2 ptab page_table [0..<PAGING_PGTAB_NENTRIES]) (\<lambda>(ok, s3).
                if ok then clone_dir s3 page_dir clone is else Inr (False, s3)))))"

definition Paging_Clone ::
  "'a physmem_scheme \<Rightarrow> u32 \<Rightarrow> u32 \<Rightarrow> (bool \<times> 'a physmem_scheme) result" where
  "Paging_Clone s page_dir clone =
     res_bind (clone_dir s page_dir clone [0..<unat (PAGING_PGDIR_IDX KERNEL_MMAP_VIRTUAL_START)]) (\<lambda>(ok, s1).
       if ok then Inr (True, s1)
       else res_bind (Paging_Terminate s1 clone) (\<lambda>s2. Inr (False, s2)))"

definition Paging_GetHigherHalfAddress :: "'a physmem_scheme \<Rightarrow> u32 \<Rightarrow> u32 \<Rightarrow> u32" where
  "Paging_GetHigherHalfAddress s cr3 user_addr =
     (if user_addr > KERNEL_MMAP_VIRTUAL_START then 0
      else if \<not> Paging_IsPageMapped s cr3 user_addr then 0
      else
        (let page_table = page_table_of (word_at (mem s) cr3 (PAGING_PGDIR_IDX user_addr));
             entry = word_at (mem s) page_table (PAGING_PGTAB_IDX user_addr)
         in if entry AND PAGING_PTE_USER = 0 then 0
            else KERNADDR (PAGEADDRESS entry) + PAGEOFFSET user_addr))"

definition bytes_in_this_page :: "u32 \<Rightarrow> u32 \<Rightarrow> u32" where
  "bytes_in_this_page dest_addr nbytes =
     (let b = PAGING_PAGESIZE - PAGEOFFSET dest_addr in if nbytes < b then nbytes else b)"

lemma PAGEOFFSET_less: "PAGEOFFSET x < 0x1000"
proof -
  have "PAGEOFFSET x = take_bit 12 x"
    by (simp add: PAGEOFFSET_def PAGING_PAGESIZE_def take_bit_eq_mask mask_eq_exp_minus_1)
  then have "unat (PAGEOFFSET x) = take_bit 12 (unat x)" by (simp only: unsigned_take_bit_eq)
  also have "\<dots> < 2 ^ 12" by (rule take_bit_nat_less_exp)
  finally show ?thesis by (simp add: word_less_nat_alt)
qed

lemma bytes_in_this_page_bounds:
  "nbytes > 0 \<Longrightarrow> 0 < bytes_in_this_page dest_addr nbytes \<and> bytes_in_this_page dest_addr nbytes \<le> nbytes"
  using PAGEOFFSET_less [of dest_addr] unfolding bytes_in_this_page_def Let_def PAGING_PAGESIZE_def
  by unat_arith

function Paging_Copy ::
  "'a physmem_scheme \<Rightarrow> u32 \<Rightarrow> u32 \<Rightarrow> u32 \<Rightarrow> u32 \<Rightarrow> bool \<times> 'a physmem_scheme" where
  "Paging_Copy s cr3 dest_addr src_addr nbytes =
     (if nbytes > 0 then
        (let dest_hhalf_addr = Paging_GetHigherHalfAddress s cr3 dest_addr
         in if dest_hhalf_addr = 0 then (False, s)
            else
              (let n = bytes_in_this_page dest_addr nbytes;
                   s1 = s\<lparr>mem := snd (memmove (mem s) dest_hhalf_addr src_addr n)\<rparr>
               in Paging_Copy s1 cr3 (dest_addr + n) src_addr (nbytes - n)))
      else (True, s))"
  by pat_completeness auto
termination
proof (relation "measure (\<lambda>(s, cr3, dest, src, n). unat n)", goal_cases)
  case (2 s cr3 dest src n x y z)
  then show ?case using bytes_in_this_page_bounds [of n dest] by (auto simp: unat_sub word_le_nat_alt word_less_nat_alt)
qed simp

declare Paging_Copy.simps [simp del]

end
