(* ===== verification/AVOS_Paging_Correct.thy ===== *)
theory AVOS_Paging_Correct
  imports AVOS_Physmem_Correct AVOS_Paging
begin

text \<open>
  Correctness of the page tables: the two-level walk of the hardware, the shape that a process's
  directory and tables have in memory, and what mapping a page does to the walk. The proofs use the
  page allocator through its interface only.
\<close>

section \<open>Memory of an allocator's client\<close>

text \<open>Writing outside the free frames does not disturb the allocator.\<close>

locale page_memory = page_allocator acquire release memory_of owns
  for acquire :: "'s \<Rightarrow> nat \<Rightarrow> (u32 \<times> 's) result"
    and release :: "'s \<Rightarrow> u32 \<Rightarrow> nat \<Rightarrow> 's result"
    and memory_of :: "'s \<Rightarrow> memory"
    and owns :: "'s \<Rightarrow> nat set \<Rightarrow> bool" +
  fixes put_memory :: "memory \<Rightarrow> 's \<Rightarrow> 's"
  assumes memory_put [simp]: "memory_of (put_memory m s) = m"
    and owns_put: "owns s A \<Longrightarrow> (\<And>a. frame_of a \<in> A \<Longrightarrow> m a = memory_of s a) \<Longrightarrow> owns (put_memory m s) A"
begin

lemma owns_put_outside: "owns s A \<Longrightarrow> same_outside B (memory_of s) m \<Longrightarrow> A \<inter> B = {} \<Longrightarrow> owns (put_memory m s) A"
  by (rule owns_put) (auto simp: same_outside_def)

text \<open>A single page that has been acquired: which frame, and what the client may do with it.\<close>

lemma acquire_page:
  assumes "owns s A" and "acquire s 0 = Inr (p, s1)" and "p \<noteq> PAGE_LIST_NULL"
  obtains n where "p = frame_ptr n" and "n < NUM_FRAMES" and "n \<in> A" and "owns s1 (A - {n})"
    and "same_outside A (memory_of s) (memory_of s1)"
    and "\<And>m. same_outside {n} (memory_of s1) m \<Longrightarrow> owns (put_memory m s1) (A - {n})"
proof -
  obtain q where q: "p = blk_ptr 0 q" "q < NUM_FRAMES div 2 ^ 0" "blk 0 q \<subseteq> A" "owns s1 (A - blk 0 q)"
      "same_outside A (memory_of s) (memory_of s1)"
    using assms(1) _ assms(2,3) by (rule acquire_blockE) simp
  have b: "blk 0 q = {q}" by (auto simp: blk_def)
  have "owns (put_memory m s1) (A - {q})" if "same_outside {q} (memory_of s1) m" for m
    using q(4) that unfolding b by (rule owns_put_outside) auto
  with q b show thesis by (intro that [of q]) (simp_all add: blk_ptr_def)
qed

end

lemma frame_of_frame_ptr: "n < NUM_FRAMES \<Longrightarrow> frame_of (frame_ptr n) = n"
  using frame_of_ptr [of n 0] by simp

lemma page_inv_put:
  assumes inv: "page_inv s F" and same: "\<And>a. frame_of a \<in> free_frames F \<Longrightarrow> m a = mem s a"
  shows "page_inv (s\<lparr>mem := m\<rparr>) F"
proof -
  have F: "buddy_inv F" "lists_ok (mem s) (Page_lists s) F" using inv by (simp_all add: page_inv_def)
  have node: "pl_next m (blk_ptr k q) = pl_next (mem s) (blk_ptr k q) \<and> pl_prev m (blk_ptr k q) = pl_prev (mem s) (blk_ptr k q)"
    if k: "k \<le> PAGE_MAX_ORDER" and q: "q \<in> set (F k)" for k q
  proof -
    let ?n = "q * 2 ^ k"
    have n: "?n < NUM_FRAMES" using buddy_invD(2) [OF F(1) k q] k by simp
    have "?n \<in> free_frames F" using listed_block(3) [OF F(1) k q] blk_nonempty by blast
    then have eq: "m (frame_ptr ?n + of_nat i) = mem s (frame_ptr ?n + of_nat i)" if "i < 4096" for i
      using frame_of_ptr [OF n that] by (intro same) simp
    show ?thesis
      unfolding pl_next_def pl_prev_def blk_ptr_def
      using eq [of 0] eq [of 1] eq [of 2] eq [of 3] eq [of 4] eq [of 5] eq [of 6] eq [of 7]
      by (intro conjI load32_cong) (simp_all add: add.assoc)
  qed
  have "lists_ok m (Page_lists s) F"
    unfolding lists_ok_def
  proof (intro allI impI conjI)
    fix k assume k: "k \<le> PAGE_MAX_ORDER"
    show "Page_lists s k = hd_or PAGE_LIST_NULL (map (blk_ptr k) (F k))" by (rule lists_okD [OF F(2) k])
    show "dll m PAGE_LIST_NULL (map (blk_ptr k) (F k)) PAGE_LIST_NULL"
      using lists_okD(2) [OF F(2) k] node [OF k] by (subst dll_cong [where m = "mem s"]) auto
  qed
  with inv show ?thesis by (simp add: page_inv_def)
qed

interpretation pages: page_memory Page_Acquire Page_Release mem page_owns "\<lambda>m s. s\<lparr>mem := m\<rparr>"
proof
  fix s :: "'a physmem_scheme" and A m
  show "mem (s\<lparr>mem := m\<rparr>) = m" by simp
  assume own: "page_owns s A" and same: "\<And>a. frame_of a \<in> A \<Longrightarrow> m a = mem s a"
  then show "page_owns (s\<lparr>mem := m\<rparr>) A"
    by (auto simp: page_owns_def page_unlocked_def intro: page_inv_put)
qed

section \<open>Words of a page\<close>

lemma unat_slot:
  assumes "n < NUM_FRAMES" and "i < 0x400"
  shows "unat (frame_ptr n + 4 * i) = n * 4096 + 0x80000000 + 4 * unat i"
proof -
  have i: "unat i < 1024" using assms(2) by (simp add: word_less_nat_alt)
  then have "unat (4 * i) = 4 * unat i" by (simp add: unat_word_ariths)
  with i assms(1) show ?thesis
    using unat_frame_ptr [OF assms(1)] by (simp add: unat_word_ariths NUM_FRAMES_def)
qed

lemma aligned_slot [simp]: "n < NUM_FRAMES \<Longrightarrow> i < 0x400 \<Longrightarrow> aligned4 (frame_ptr n + 4 * i)"
  unfolding aligned4_def by (simp add: unat_slot mod_add_eq [symmetric])

lemma slot_inj:
  assumes "n < NUM_FRAMES" and "i < 0x400" and "k < NUM_FRAMES" and "j < 0x400"
  shows "frame_ptr n + 4 * i = frame_ptr k + 4 * j \<longleftrightarrow> n = k \<and> i = j"
proof
  assume "frame_ptr n + 4 * i = frame_ptr k + 4 * j"
  then have eq: "n * 1024 + unat i = k * 1024 + unat j"
    using unat_slot [OF assms(1,2)] unat_slot [OF assms(3,4)] by simp
  have less: "unat i < 1024" "unat j < 1024" using assms(2,4) by (simp_all add: word_less_nat_alt)
  have "(n * 1024 + unat i) div 1024 = n" "(k * 1024 + unat j) div 1024 = k" using less by simp_all
  with eq have "n = k" by simp
  moreover from this eq have "unat i = unat j" by simp
  ultimately have "n = k" "unat i = unat j" .
  then show "n = k \<and> i = j" by (simp add: word_unat_eq_iff)
qed simp

lemma slot_byte:
  assumes "i < 0x400" and "b < 4"
  shows "\<exists>j < 4096. frame_ptr n + 4 * i + of_nat b = frame_ptr n + of_nat j"
proof (intro exI conjI)
  have "unat i < 1024" using assms(1) by (simp add: word_less_nat_alt)
  with assms(2) show "4 * unat i + b < 4096" by simp
  show "frame_ptr n + 4 * i + of_nat b = frame_ptr n + of_nat (4 * unat i + b)" by simp
qed

lemma frame_of_slot:
  assumes "n < NUM_FRAMES" and "i < 0x400" and "b < 4"
  shows "frame_of (frame_ptr n + 4 * i + of_nat b) = n"
  using slot_byte [OF assms(2,3), of n] frame_of_ptr [OF assms(1)] by metis

lemma word_at_same_outside:
  assumes "same_outside A m m'" and "n < NUM_FRAMES" and "n \<notin> A" and "i < 0x400"
  shows "word_at m' (frame_ptr n) i = word_at m (frame_ptr n) i"
proof -
  have "m' (frame_ptr n + 4 * i + of_nat b) = m (frame_ptr n + 4 * i + of_nat b)" if "b < 4" for b
    using assms(1,3) frame_of_slot [OF assms(2,4) that] by (auto simp: same_outside_def)
  from this [of 0] this [of 1] this [of 2] this [of 3] show ?thesis
    unfolding word_at_def by (intro load32_cong) simp_all
qed

lemma word_at_set_word:
  assumes "n < NUM_FRAMES" and "i < 0x400" and "k < NUM_FRAMES" and "j < 0x400"
  shows "word_at (mem (set_word (frame_ptr k) j v s)) (frame_ptr n) i =
    (if n = k \<and> i = j then v else word_at (mem s) (frame_ptr n) i)"
  using assms slot_inj [OF assms] by (auto simp: word_at_def set_word_def load32_store32_other)

lemma same_outside_set_word:
  assumes "k < NUM_FRAMES" and "j < 0x400"
  shows "same_outside {k} (mem s) (mem (set_word (frame_ptr k) j v s))"
proof -
  have "unat j < 1024" using assms(2) by (simp add: word_less_nat_alt)
  then have "same_outside {k} (mem s) (store32 (mem s) (frame_ptr k + of_nat (4 * unat j)) v)"
    using assms(1) by (intro same_outside_store32) auto
  then show ?thesis by (simp add: set_word_def)
qed

lemma clear_page_mem:
  "mem (clear_page p s) = (\<lambda>a. if a - p < 0x1000 then 0 else mem s a)"
  by (simp add: clear_page_def memset_def set_up_at PAGING_PAGESIZE_def fun_eq_iff)

lemma in_page_iff:
  assumes "n < NUM_FRAMES"
  shows "a - frame_ptr n < 0x1000 \<Longrightarrow> frame_of a = n"
proof -
  assume less: "a - frame_ptr n < 0x1000"
  have "a = frame_ptr n + of_nat (unat (a - frame_ptr n))" by simp
  moreover have "unat (a - frame_ptr n) < 4096" using less by (simp add: word_less_nat_alt)
  ultimately show "frame_of a = n" using frame_of_ptr [OF assms] by metis
qed

lemma same_outside_clear_page: "n < NUM_FRAMES \<Longrightarrow> same_outside {n} (mem s) (mem (clear_page (frame_ptr n) s))"
  using in_page_iff by (auto simp: clear_page_mem same_outside_def)

lemma word_at_clear_page:
  assumes "i < 0x400"
  shows "word_at (mem (clear_page (frame_ptr n) s)) (frame_ptr n) i = 0"
proof -
  have "mem (clear_page (frame_ptr n) s) (frame_ptr n + 4 * i + of_nat b) = 0" if "b < 4" for b
  proof -
    obtain j where j: "j < 4096" "frame_ptr n + 4 * i + of_nat b = frame_ptr n + of_nat j"
      using slot_byte [OF assms \<open>b < 4\<close>, of n] by blast
    have "(of_nat j :: u32) < 0x1000" using j(1) by (simp add: word_less_nat_alt unat_of_nat)
    then show ?thesis unfolding j(2) by (simp add: clear_page_mem)
  qed
  from this [of 0] this [of 1] this [of 2] this [of 3] show ?thesis
    unfolding word_at_def load32_def by simp
qed

section \<open>Directory and table entries\<close>

lemma PGDIR_IDX_less: "PAGING_PGDIR_IDX x < 0x400"
proof -
  have "PAGING_PGDIR_IDX x \<le> 0x3FF" unfolding PAGING_PGDIR_IDX_def by (rule word_and_le1)
  then show ?thesis by (rule order_le_less_trans) simp
qed

lemma PGTAB_IDX_less: "PAGING_PGTAB_IDX x < 0x400"
proof -
  have "PAGING_PGTAB_IDX x \<le> 0x3FF" unfolding PAGING_PGTAB_IDX_def by (rule word_and_le1)
  then show ?thesis by (rule order_le_less_trans) simp
qed

lemma user_PGDIR_IDX:
  assumes "va < KERNEL_MMAP_VIRTUAL_START"
  shows "PAGING_PGDIR_IDX va < 0x200"
proof -
  have "PAGING_PGDIR_IDX va \<le> drop_bit 22 va" unfolding PAGING_PGDIR_IDX_def by (rule word_and_le2)
  moreover have "unat (drop_bit 22 va) < 512"
    using assms unfolding unat_drop_bit_eq by (simp add: drop_bit_eq_div KERNEL_MMAP_VIRTUAL_START_def word_less_nat_alt)
  ultimately show ?thesis by (simp add: word_less_nat_alt word_le_nat_alt)
qed

lemma same_indices:
  assumes "PAGING_PGDIR_IDX x = PAGING_PGDIR_IDX y" and "PAGING_PGTAB_IDX x = PAGING_PGTAB_IDX y"
  shows "PAGEADDRESS x = PAGEADDRESS y"
proof -
  have mask: "(0x3FF :: u32) = mask 10" "PAGING_PAGESIZE - 1 = mask 12"
    by (simp_all add: mask_eq_exp_minus_1 PAGING_PAGESIZE_def)
  have dir: "bit x (k + 22) = bit y (k + 22)" if "k < 10" for k
    using arg_cong [OF assms(1), of "\<lambda>w. bit w k"] that
    by (simp add: PAGING_PGDIR_IDX_def mask bit_simps add.commute)
  have tab: "bit x (k + 12) = bit y (k + 12)" if "k < 10" for k
    using arg_cong [OF assms(2), of "\<lambda>w. bit w k"] that
    by (simp add: PAGING_PGTAB_IDX_def mask bit_simps add.commute)
  show ?thesis
  proof (rule bit_word_eqI)
    fix k assume k: "k < LENGTH(32)"
    then consider "k < 12" | "12 \<le> k" "k < 22" | "22 \<le> k" "k < 32" by fastforce
    then show "bit (PAGEADDRESS x) k = bit (PAGEADDRESS y) k"
    proof cases
      case 2
      then show ?thesis using tab [of "k - 12"] by (simp add: PAGEADDRESS_def mask bit_simps)
    next
      case 3
      then show ?thesis using dir [of "k - 22"] by (simp add: PAGEADDRESS_def mask bit_simps)
    qed (simp add: PAGEADDRESS_def mask bit_simps)
  qed
qed

lemma page_masks: "(0x3FF :: u32) = mask 10" "PAGING_PAGESIZE - 1 = mask 12"
  by (simp_all add: mask_eq_exp_minus_1 PAGING_PAGESIZE_def)

lemma indices_of_page:
  "PAGING_PGDIR_IDX (PAGEADDRESS x) = PAGING_PGDIR_IDX x" "PAGING_PGTAB_IDX (PAGEADDRESS x) = PAGING_PGTAB_IDX x"
  unfolding PAGING_PGDIR_IDX_def PAGING_PGTAB_IDX_def PAGEADDRESS_def page_masks
  by (rule bit_word_eqI, auto simp: bit_simps)+

lemma unat_PAGEADDRESS: "unat (PAGEADDRESS x) = unat x div 4096 * 4096"
proof -
  have "PAGEADDRESS x = of_nat (unat x div 4096 * 4096)"
    using and_not_low_bits [of 12 x] by (simp add: PAGEADDRESS_def PAGING_PAGESIZE_def)
  moreover have "unat x div 4096 * 4096 < 2 ^ 32"
    using div_times_less_eq_dividend [of "unat x" 4096] unat_u32_lt [of x] by simp
  ultimately show ?thesis by (simp only: unat_of_nat) simp
qed

lemma user_page:
  assumes "va < KERNEL_MMAP_VIRTUAL_START" and "PAGEADDRESS w = PAGEADDRESS va"
  shows "w < KERNEL_MMAP_VIRTUAL_START"
proof -
  have "unat w div 4096 = unat va div 4096" using assms(2) unat_PAGEADDRESS [of w] unat_PAGEADDRESS [of va] by simp
  moreover have "unat va div 4096 < 0x80000"
    using assms(1) by (simp add: KERNEL_MMAP_VIRTUAL_START_def word_less_nat_alt div_less_iff_less_mult)
  ultimately have "unat w div 4096 < 0x80000" by (simp only:)
  then show ?thesis
    by (simp add: KERNEL_MMAP_VIRTUAL_START_def word_less_nat_alt div_less_iff_less_mult)
qed

definition table_frame :: "u32 \<Rightarrow> nat" where
  "table_frame entry = unat entry div 4096"

lemma page_table_of_eq: "page_table_of e = frame_ptr (table_frame e)"
proof -
  have "PAGEADDRESS e = e AND NOT (push_bit 12 1 - 1)" by (simp add: PAGEADDRESS_def PAGING_PAGESIZE_def)
  then show ?thesis
    by (simp only: page_table_of_def KERNADDR_def frame_ptr_def frame_addr_def table_frame_def and_not_low_bits) simp
qed

definition entry_bits :: u32 where "entry_bits = 7"

lemma entry_bits_or: "x OR 1 OR 2 OR (4 :: u32) = x OR entry_bits"
  by (simp add: entry_bits_def or.assoc)

lemma entry_present: "(x OR entry_bits) AND 1 \<noteq> 0" "x OR entry_bits \<noteq> 0"
proof -
  have "bit (x OR entry_bits) 0" by (simp add: entry_bits_def bit_simps)
  then show "(x OR entry_bits) AND 1 \<noteq> 0" "x OR entry_bits \<noteq> 0"
    by (auto simp: and_one_eq bit_0 odd_iff_mod_2_eq_one)
qed

lemma table_frame_entry: "n < NUM_FRAMES \<Longrightarrow> table_frame (frame_addr n OR entry_bits) = n"
proof -
  assume n: "n < NUM_FRAMES"
  have "table_frame (frame_addr n OR entry_bits) = unat (drop_bit 12 (frame_addr n OR entry_bits))"
    unfolding table_frame_def unat_drop_bit_eq by (simp add: drop_bit_eq_div)
  also have "drop_bit 12 (frame_addr n OR entry_bits) = drop_bit 12 (frame_addr n)"
    by (simp add: drop_bit_or entry_bits_def)
  also have "unat \<dots> = n" unfolding unat_drop_bit_eq using unat_frame_addr [OF n] by (simp add: drop_bit_eq_div)
  finally show ?thesis .
qed

section \<open>The shape of an address space\<close>

definition pde_at :: "memory \<Rightarrow> nat \<Rightarrow> u32 \<Rightarrow> u32" where
  "pde_at m d i = word_at m (frame_ptr d) i"

definition present :: "u32 \<Rightarrow> bool" where
  "present e \<longleftrightarrow> e AND PAGING_PDE_PRESENT \<noteq> 0"

text \<open>
  The directory is in frame \<open>d\<close>; the tables of the user half are in frames that are neither
  free (in \<open>A\<close>) nor the directory's, one frame for each table.
\<close>

definition space_ok :: "memory \<Rightarrow> nat \<Rightarrow> nat set \<Rightarrow> bool" where
  "space_ok m d A \<longleftrightarrow> d < NUM_FRAMES \<and> d \<notin> A \<and>
     (\<forall>i < 0x200. present (pde_at m d i) \<longrightarrow>
        table_frame (pde_at m d i) < NUM_FRAMES \<and> table_frame (pde_at m d i) \<notin> A \<and>
        table_frame (pde_at m d i) \<noteq> d) \<and>
     (\<forall>i < 0x200. \<forall>j < 0x200. present (pde_at m d i) \<longrightarrow> present (pde_at m d j) \<longrightarrow>
        table_frame (pde_at m d i) = table_frame (pde_at m d j) \<longrightarrow> i = j)"

definition walk :: "memory \<Rightarrow> nat \<Rightarrow> u32 \<Rightarrow> u32 option" where
  "walk m d va =
     (let e = pde_at m d (PAGING_PGDIR_IDX va)
      in if \<not> present e then None
         else (let t = word_at m (frame_ptr (table_frame e)) (PAGING_PGTAB_IDX va)
               in if t = 0 then None else Some t))"

lemma IsPageMapped_walk: "Paging_IsPageMapped s (frame_ptr d) va \<longleftrightarrow> walk (mem s) d va \<noteq> None"
  by (simp add: Paging_IsPageMapped_def walk_def pde_at_def present_def page_table_of_eq Let_def)

lemma space_okD:
  assumes "space_ok m d A" and "va < KERNEL_MMAP_VIRTUAL_START" and "present (pde_at m d (PAGING_PGDIR_IDX va))"
  shows "table_frame (pde_at m d (PAGING_PGDIR_IDX va)) < NUM_FRAMES"
    and "table_frame (pde_at m d (PAGING_PGDIR_IDX va)) \<notin> A"
    and "table_frame (pde_at m d (PAGING_PGDIR_IDX va)) \<noteq> d"
  using assms user_PGDIR_IDX [OF assms(2)] by (auto simp: space_ok_def)

text \<open>Writing an entry into an existing table.\<close>

lemma enter_existing:
  fixes s :: "'a physmem_scheme"
  assumes ok: "space_ok (mem s) d A" and va: "va < KERNEL_MMAP_VIRTUAL_START"
    and pres: "present (pde_at (mem s) d (PAGING_PGDIR_IDX va))" and v: "v \<noteq> 0"
  defines "t \<equiv> table_frame (pde_at (mem s) d (PAGING_PGDIR_IDX va))"
  defines "s' \<equiv> set_word (frame_ptr t) (PAGING_PGTAB_IDX va) v s"
  shows "walk (mem s') d va = Some v"
    and "\<And>w. w < KERNEL_MMAP_VIRTUAL_START \<Longrightarrow> PAGEADDRESS w \<noteq> PAGEADDRESS va \<Longrightarrow> walk (mem s') d w = walk (mem s) d w"
    and "space_ok (mem s') d A"
proof -
  have d: "d < NUM_FRAMES" using ok by (simp add: space_ok_def)
  have t: "t < NUM_FRAMES" "t \<noteq> d" unfolding t_def using space_okD [OF ok va pres] by auto
  have pde: "pde_at (mem s') d i = pde_at (mem s) d i" if "i < 0x400" for i
    unfolding pde_at_def s'_def using word_at_set_word [OF d that t(1) PGTAB_IDX_less] t(2) by auto
  show "walk (mem s') d va = Some v"
    using pres v word_at_set_word [OF t(1) PGTAB_IDX_less [of va] t(1) PGTAB_IDX_less [of va], of v s]
    by (simp add: walk_def pde PGDIR_IDX_less t_def [symmetric] s'_def [symmetric])
  show "walk (mem s') d w = walk (mem s) d w"
    if w: "w < KERNEL_MMAP_VIRTUAL_START" and ne: "PAGEADDRESS w \<noteq> PAGEADDRESS va" for w
  proof (cases "present (pde_at (mem s) d (PAGING_PGDIR_IDX w))")
    case True
    let ?u = "table_frame (pde_at (mem s) d (PAGING_PGDIR_IDX w))"
    have u: "?u < NUM_FRAMES" using space_okD [OF ok w True] by simp
    have "?u = t \<Longrightarrow> PAGING_PGDIR_IDX w = PAGING_PGDIR_IDX va"
      using ok True pres user_PGDIR_IDX [OF w] user_PGDIR_IDX [OF va] by (simp add: space_ok_def t_def)
    with ne same_indices have "\<not> (?u = t \<and> PAGING_PGTAB_IDX w = PAGING_PGTAB_IDX va)" by blast
    then have "word_at (mem s') (frame_ptr ?u) (PAGING_PGTAB_IDX w) = word_at (mem s) (frame_ptr ?u) (PAGING_PGTAB_IDX w)"
      unfolding s'_def using word_at_set_word [OF u PGTAB_IDX_less [of w] t(1) PGTAB_IDX_less [of va], of v s] by auto
    with True show ?thesis by (simp add: walk_def pde PGDIR_IDX_less)
  qed (simp add: walk_def pde PGDIR_IDX_less)
  have "i < 0x400" if "i < 0x200" for i :: u32 using that by (rule order_less_trans) simp
  then show "space_ok (mem s') d A" using ok by (simp add: space_ok_def pde)
qed

lemma owns_set_word:
  assumes "page_owns s A" and "t < NUM_FRAMES" and "t \<notin> A" and "i < 0x400"
  shows "page_owns (set_word (frame_ptr t) i v s) A"
proof -
  have "page_owns (s\<lparr>mem := mem (set_word (frame_ptr t) i v s)\<rparr>) A"
    using assms by (intro pages.owns_put_outside [where B = "{t}"] same_outside_set_word) auto
  then show ?thesis by (simp add: set_word_def)
qed

text \<open>Adding a fresh, cleared table to the directory.\<close>

lemma add_table:
  fixes s :: "'a physmem_scheme"
  assumes own: "page_owns s A" and ok: "space_ok (mem s) d A" and va: "va < KERNEL_MMAP_VIRTUAL_START"
    and absent: "\<not> present (pde_at (mem s) d (PAGING_PGDIR_IDX va))"
    and run: "Page_Acquire s 0 = Inr (p, s1)" and p: "p \<noteq> PAGE_LIST_NULL"
  defines "s3 \<equiv> set_word (frame_ptr d) (PAGING_PGDIR_IDX va) (PHYSADDR p OR entry_bits) (clear_page p s1)"
  obtains n where "p = frame_ptr n" and "n < NUM_FRAMES" and "n \<in> A" and "page_owns s3 (A - {n})" and "space_ok (mem s3) d (A - {n})"
    and "pde_at (mem s3) d (PAGING_PGDIR_IDX va) = frame_addr n OR entry_bits"
    and "\<And>w. w < KERNEL_MMAP_VIRTUAL_START \<Longrightarrow> walk (mem s3) d w = walk (mem s) d w"
proof -
  obtain n where n: "p = frame_ptr n" "n < NUM_FRAMES" "n \<in> A" "page_owns s1 (A - {n})"
      "same_outside A (mem s) (mem s1)"
    using own run p by (rule pages.acquire_page)
  have d: "d < NUM_FRAMES" "d \<notin> A" "n \<noteq> d" using ok n(3) by (auto simp: space_ok_def)
  let ?e = "frame_addr n OR entry_bits" and ?i = "PAGING_PGDIR_IDX va" and ?s2 = "clear_page p s1"
  have s3: "s3 = set_word (frame_ptr d) ?i ?e ?s2"
    by (simp add: s3_def n(1) PHYSADDR_def)
  have so: "same_outside {n} (mem s1) (mem ?s2)" "same_outside {d} (mem ?s2) (mem s3)"
    unfolding s3 n(1) using same_outside_clear_page [OF n(2)] same_outside_set_word [OF d(1) PGDIR_IDX_less] by blast+
  have far: "word_at (mem s3) (frame_ptr k) i = word_at (mem s) (frame_ptr k) i"
    if "k < NUM_FRAMES" "k \<notin> A" "k \<noteq> d" "i < 0x400" for k i
    using word_at_same_outside [OF so(2) that(1) _ that(4)] word_at_same_outside [OF so(1) that(1) _ that(4)]
      word_at_same_outside [OF n(5) that(1,2,4)] that(2,3) n(3) by auto
  have pde: "pde_at (mem s3) d i = (if i = ?i then ?e else pde_at (mem s) d i)" if "i < 0x400" for i
    unfolding pde_at_def s3
    using word_at_set_word [OF d(1) that d(1) PGDIR_IDX_less [of va], of ?e ?s2]
      word_at_same_outside [OF so(1) d(1) _ that] word_at_same_outside [OF n(5) d(1,2) that] d(3) by auto
  have cleared: "word_at (mem s3) (frame_ptr n) i = 0" if "i < 0x400" for i
    using word_at_same_outside [OF so(2) n(2) _ that] word_at_clear_page [OF that, of n s1] d(3) n(1) by simp
  have less: "i < 0x400" if "i < 0x200" for i :: u32 using that by (rule order_less_trans) simp
  have new: "present ?e" "table_frame ?e = n"
    using entry_present(1) [of "frame_addr n"] table_frame_entry [OF n(2)] by (simp_all add: present_def PAGING_PDE_PRESENT_def)
  have wlk: "walk (mem s3) d w = walk (mem s) d w" if w: "w < KERNEL_MMAP_VIRTUAL_START" for w
  proof (cases "PAGING_PGDIR_IDX w = ?i")
    case True
    then show ?thesis using absent new cleared by (simp add: walk_def pde PGDIR_IDX_less PGTAB_IDX_less)
  next
    case False
    then show ?thesis
      using space_okD [OF ok w] far [OF _ _ _ PGTAB_IDX_less] by (auto simp: walk_def pde PGDIR_IDX_less Let_def)
  qed
  have "same_outside {n, d} (mem s1) (mem s3)" using so by (auto intro: same_outside_trans)
  moreover have "(A - {n}) \<inter> {n, d} = {}" using d(2) by auto
  ultimately have "page_owns (s1\<lparr>mem := mem s3\<rparr>) (A - {n})" by (rule pages.owns_put_outside [OF n(4)])
  moreover have "s1\<lparr>mem := mem s3\<rparr> = s3" by (simp add: s3 set_word_def clear_page_def)
  ultimately have owns: "page_owns s3 (A - {n})" by simp
  have "space_ok (mem s3) d (A - {n})"
    using ok new n(2,3) d absent user_PGDIR_IDX [OF va] unfolding space_ok_def
    by (auto simp: pde less split: if_splits)
  with owns n wlk pde [OF PGDIR_IDX_less] show thesis by (intro that [of n]) auto
qed

text \<open>The whole of \<open>Paging_MapPage\<close>.\<close>

lemma map_page_correct:
  assumes "page_owns s A" and "space_ok (mem s) d A" and "va < KERNEL_MMAP_VIRTUAL_START"
    and "Paging_MapPage s (frame_ptr d) va pa True = Inr (True, s')"
  shows "\<not> Paging_IsPageMapped s (frame_ptr d) va \<and> walk (mem s') d va = Some (pa OR 7) \<and>
    (\<forall>w < KERNEL_MMAP_VIRTUAL_START. PAGEADDRESS w \<noteq> PAGEADDRESS va \<longrightarrow> walk (mem s') d w = walk (mem s) d w) \<and>
    (\<exists>A' \<subseteq> A. page_owns s' A' \<and> space_ok (mem s') d A')"
proof -
  let ?e = "pde_at (mem s) d (PAGING_PGDIR_IDX va)" and ?v = "pa OR entry_bits"
  note bits = PAGING_PDE_PRESENT_def PAGING_PDE_READWRITE_def PAGING_PDE_USER_def
    PAGING_PTE_PRESENT_def PAGING_PTE_READWRITE_def PAGING_PTE_USER_def
  have v: "?v \<noteq> 0" "?v = pa OR 7" using entry_present(2) [of pa] by (simp_all add: entry_bits_def)
  show ?thesis
  proof (cases "present ?e")
    case True
    let ?t = "table_frame ?e"
    have t: "?t < NUM_FRAMES" "?t \<notin> A" using space_okD [OF assms(2,3) True] by auto
    have s': "word_at (mem s) (frame_ptr ?t) (PAGING_PGTAB_IDX va) = 0"
        "s' = set_word (frame_ptr ?t) (PAGING_PGTAB_IDX va) ?v s"
      using assms(4) True
      by (auto simp: Paging_MapPage_def Let_def pde_at_def present_def page_table_of_eq bits
          entry_bits_def split: if_splits)
    have none: "walk (mem s) d va = None" using s'(1) by (simp add: walk_def Let_def)
    note en = enter_existing [OF assms(2,3) True v(1)]
    have "page_owns s' A" unfolding s'(2) using assms(1) t PGTAB_IDX_less by (rule owns_set_word)
    with en s'(2) none v(2) show ?thesis unfolding IsPageMapped_walk by auto
  next
    case False
    then obtain p s1 where p: "Page_Acquire s 0 = Inr (p, s1)" "p \<noteq> PAGE_LIST_NULL"
        "s' = set_word p (PAGING_PGTAB_IDX va) ?v
          (set_word (frame_ptr d) (PAGING_PGDIR_IDX va) (PHYSADDR p OR entry_bits) (clear_page p s1))"
      using assms(4)
      by (auto simp: Paging_MapPage_def Let_def pde_at_def present_def bits entry_bits_def res_simps
          split: if_splits prod.splits)
    define s3 where "s3 = set_word (frame_ptr d) (PAGING_PGDIR_IDX va) (PHYSADDR p OR entry_bits) (clear_page p s1)"
    obtain n where n: "p = frame_ptr n" "n < NUM_FRAMES" "n \<in> A" "page_owns s3 (A - {n})"
        "space_ok (mem s3) d (A - {n})"
        "pde_at (mem s3) d (PAGING_PGDIR_IDX va) = frame_addr n OR entry_bits"
        "\<And>w. w < KERNEL_MMAP_VIRTUAL_START \<Longrightarrow> walk (mem s3) d w = walk (mem s) d w"
      unfolding s3_def using add_table [OF assms(1,2,3) False p(1,2)] by blast
    have pres: "present (pde_at (mem s3) d (PAGING_PGDIR_IDX va))"
      unfolding n(6) using entry_present(1) by (simp add: present_def bits)
    have tab: "table_frame (pde_at (mem s3) d (PAGING_PGDIR_IDX va)) = n"
      unfolding n(6) using n(2) by (rule table_frame_entry)
    have s': "s' = set_word (frame_ptr n) (PAGING_PGTAB_IDX va) ?v s3" using p(3) n(1) by (simp add: s3_def)
    note en = enter_existing [OF n(5) assms(3) pres v(1), unfolded tab, folded s']
    have none: "walk (mem s) d va = None" using False by (simp add: walk_def Let_def)
    have "page_owns s' (A - {n})"
      unfolding s' using n(4,2) _ PGTAB_IDX_less by (rule owns_set_word) simp
    with en none v(2) n(7) show ?thesis unfolding IsPageMapped_walk by (auto intro!: exI [of _ "A - {n}"])
  qed
qed

text \<open>A directory at frame 512 of a machine with one free block, with no page mapped.\<close>

lemma one_block_space: "page_owns one_block (free_frames one_block_lists)"
  "space_ok (mem one_block) 512 (free_frames one_block_lists)"
  "i < 0x400 \<Longrightarrow> pde_at (mem one_block) 512 i = 0"
proof -
  show own: "page_owns one_block (free_frames one_block_lists)"
    using one_block_inv by (auto simp: page_owns_def)
  have free: "free_frames one_block_lists = blk 10 1"
    by (auto simp: free_frames_def one_block_lists_def blk_def PAGE_MAX_ORDER_def split: if_splits)
  have d: "512 < NUM_FRAMES" "512 \<notin> blk 10 1" by (simp_all add: NUM_FRAMES_def blk_def)
  have k: "10 \<le> PAGE_MAX_ORDER" "1 < NUM_FRAMES div 2 ^ 10" by (simp_all add: PAGE_MAX_ORDER_def NUM_FRAMES_def)
  have "same_outside (free_frames (\<lambda>_. []) \<union> blk 10 1) (mem no_pages) (mem one_block)"
    unfolding one_block_def using no_pages_inv k by (intro push_ok) (auto simp: page_inv_def free_frames_def)
  then have so: "same_outside (blk 10 1) (mem no_pages) (mem one_block)" by (simp add: free_frames_def)
  have zero: "pde_at (mem one_block) 512 i = 0" if "i < 0x400" for i
    unfolding pde_at_def word_at_same_outside [OF so d that]
    by (simp add: word_at_def load32_def no_pages_def)
  have "i < 0x400" if "i < 0x200" for i :: u32 using that by (rule order_less_trans) simp
  with zero show "space_ok (mem one_block) 512 (free_frames one_block_lists)"
    unfolding free using d by (simp add: space_ok_def present_def)
  show "i < 0x400 \<Longrightarrow> pde_at (mem one_block) 512 i = 0" by (rule zero)
qed

lemma one_block_map:
  "\<exists>s'. Paging_MapPage one_block (frame_ptr 512) 0x1000 0x5000 True = Inr (True, s')"
proof -
  have k: "0 \<le> PAGE_MAX_ORDER" by simp
  have "a_find one_block_lists 0 \<noteq> None"
    by (auto simp: a_find_None one_block_lists_def PAGE_MAX_ORDER_def)
  then obtain i where i: "a_find one_block_lists 0 = Some i" by blast
  obtain F' q where a: "a_acquire one_block_lists 0 = Some (F', q)"
    by (cases "a_split (one_block_lists(i := tl (one_block_lists i))) (hd (one_block_lists i)) i 0")
      (auto simp: a_acquire_def i)
  obtain s1 where s1: "Page_Acquire one_block 0 = Inr (blk_ptr 0 q, s1)"
    using acquire_refines [OF one_block_inv k a] by blast
  have q: "blk_ptr 0 q \<noteq> PAGE_LIST_NULL"
    using a_acquire_correct(2) [OF _ a] one_block_inv(1) by (auto simp: page_inv_def intro: blk_ptr_facts)
  have "word_at (mem one_block) (frame_ptr 512) (PAGING_PGDIR_IDX 0x1000) = 0"
    using one_block_space(3) [OF PGDIR_IDX_less] by (simp add: pde_at_def)
  with s1 q show ?thesis by (simp add: Paging_MapPage_def Let_def)
qed

section \<open>Copying into another address space\<close>

lemma copy_step:
  assumes "nbytes > 0" and "Paging_GetHigherHalfAddress s cr3 dest = h" and "h \<noteq> 0"
    and "bytes_in_this_page dest nbytes = n" and "unat h + unat n \<le> 2 ^ 32" and "unat src + unat n \<le> 2 ^ 32"
  shows "Paging_Copy s cr3 dest src nbytes =
    Paging_Copy (s\<lparr>mem := \<lambda>a. if a - h < n then mem s (src + (a - h)) else mem s a\<rparr>) cr3 (dest + n) src (nbytes - n)"
proof -
  have "snd (memmove (mem s) h src n) = (\<lambda>a. if a - h < n then mem s (src + (a - h)) else mem s a)"
    using memmove_region [OF assms(5,6)] by simp
  then show ?thesis using assms(1-4) by (subst Paging_Copy.simps) (simp add: Let_def)
qed

lemma next_page_offset: "PAGEOFFSET (dest + (0x1000 - PAGEOFFSET dest)) = 0"
proof -
  have off: "PAGEOFFSET x = take_bit 12 x" for x
    by (simp add: PAGEOFFSET_def PAGING_PAGESIZE_def take_bit_eq_mask mask_eq_exp_minus_1)
  have "dest + (0x1000 - take_bit 12 dest) = push_bit 12 (drop_bit 12 dest) + push_bit 12 1"
    using bits_ident [of 12 dest] by (simp add: algebra_simps)
  also have "\<dots> = push_bit 12 (drop_bit 12 dest + 1)" by (simp only: push_bit_add)
  finally have "take_bit 12 (dest + (0x1000 - take_bit 12 dest)) = take_bit 12 (push_bit 12 (drop_bit 12 dest + 1))"
    by (rule arg_cong)
  also have "\<dots> = 0" by (rule bit_word_eqI) (auto simp: bit_simps)
  finally show ?thesis unfolding off .
qed

lemma copy_done: "Paging_Copy s cr3 dest src 0 = (True, s)"
  by (subst Paging_Copy.simps) simp

text \<open>
  Pages 0 and 1 of an address space mapped to the frames \<open>0x300\<close> and \<open>0x301\<close>, and two
  different source bytes.
\<close>

definition copy_demo :: physmem where
  "copy_demo = no_pages\<lparr>mem := (store32 (store32 (store32 (\<lambda>_. 0) 0x80200000 0x201007)
     0x80201000 0x300007) 0x80201004 0x301007)(0x80600000 := 0x41, 0x80600001 := 0x42)\<rparr>"

lemma copy_demo_lookup:
  assumes "load32 (mem s) 0x80200000 = 0x201007" and "load32 (mem s) 0x80201000 = 0x300007"
    and "load32 (mem s) 0x80201004 = 0x301007"
  shows "Paging_GetHigherHalfAddress s 0x80200000 0x10 = 0x80300010"
    and "Paging_GetHigherHalfAddress s 0x80200000 0xFFF = 0x80300FFF"
    and "Paging_GetHigherHalfAddress s 0x80200000 0x1000 = 0x80301000"
  by (simp_all add: Paging_GetHigherHalfAddress_def Paging_IsPageMapped_def word_at_def page_table_of_def
      PAGING_PGDIR_IDX_def PAGING_PGTAB_IDX_def PAGEADDRESS_def PAGEOFFSET_def PAGING_PAGESIZE_def KERNADDR_def
      KERNEL_HIGHER_HALF_OFFSET_def KERNEL_MMAP_VIRTUAL_START_def PAGING_PDE_PRESENT_def PAGING_PTE_USER_def
      Let_def assms)

lemma copy_demo_entries:
  "load32 (mem copy_demo) 0x80200000 = 0x201007" "load32 (mem copy_demo) 0x80201000 = 0x300007"
  "load32 (mem copy_demo) 0x80201004 = 0x301007"
  by (simp_all add: copy_demo_def load32_def store32_def)


section \<open>Properties\<close>

text \<open>
  C16. \<open>Paging_MapPage\<close>, when it succeeds, maps the page and nothing else: the page was not
  mapped, the two-level walk now yields the physical address with the present, writable and user
  bits, every other user page keeps its translation, and the directory and its tables stay disjoint
  from each other and from the free frames.
\<close>

theorem Paging_MapPage_correct:
  assumes "page_owns s A" and "space_ok (mem s) d A" and "va < KERNEL_MMAP_VIRTUAL_START"
    and "Paging_MapPage s (frame_ptr d) va pa True = Inr (True, s')"
  shows "\<not> Paging_IsPageMapped s (frame_ptr d) va \<and> walk (mem s') d va = Some (pa OR 7) \<and>
    (\<forall>w < KERNEL_MMAP_VIRTUAL_START. PAGEADDRESS w \<noteq> PAGEADDRESS va \<longrightarrow> walk (mem s') d w = walk (mem s) d w) \<and>
    (\<exists>A' \<subseteq> A. page_owns s' A' \<and> space_ok (mem s') d A')"
  using assms by (rule map_page_correct)

theorem Paging_MapPage_correct_witness:
  "\<exists>s'. Paging_MapPage one_block (frame_ptr 512) 0x1000 0x5000 True = Inr (True, s') \<and>
    walk (mem s') 512 0x1000 = Some 0x5007"
proof -
  obtain s' where s': "Paging_MapPage one_block (frame_ptr 512) 0x1000 0x5000 True = Inr (True, s')"
    using one_block_map by blast
  have va: "(0x1000 :: u32) < KERNEL_MMAP_VIRTUAL_START" by (simp add: KERNEL_MMAP_VIRTUAL_START_def)
  from Paging_MapPage_correct [OF one_block_space(1,2) va s'] s' show ?thesis by auto
qed

text \<open>
  C17. After a page has been mapped to a page-aligned frame address, the kernel finds any address of
  that page through \<open>Paging_GetHigherHalfAddress\<close> at the same offset of the frame's
  higher-half mapping.
\<close>

theorem Paging_MapPage_then_lookup:
  assumes "page_owns s A" and "space_ok (mem s) d A" and "va < KERNEL_MMAP_VIRTUAL_START"
    and "Paging_MapPage s (frame_ptr d) va pa True = Inr (True, s')"
    and "PAGEOFFSET pa = 0" and "PAGEADDRESS w = PAGEADDRESS va"
  shows "Paging_GetHigherHalfAddress s' (frame_ptr d) w = KERNADDR pa + PAGEOFFSET w"
proof -
  have w: "w < KERNEL_MMAP_VIRTUAL_START" using assms(3,6) by (rule user_page)
  have idx: "PAGING_PGDIR_IDX w = PAGING_PGDIR_IDX va" "PAGING_PGTAB_IDX w = PAGING_PGTAB_IDX va"
    using indices_of_page [of w] indices_of_page [of va] assms(6) by simp_all
  have lookup: "walk (mem s') d w = Some (pa OR 7)"
  proof -
    have "walk (mem s') d va = Some (pa OR 7)" using map_page_correct [OF assms(1-4)] by blast
    then show ?thesis unfolding walk_def idx .
  qed
  have "PAGEADDRESS (pa OR 7) = PAGEADDRESS pa OR PAGEADDRESS 7"
    unfolding PAGEADDRESS_def by (simp add: bit_eq_iff bit_simps) blast
  also have "\<dots> = pa AND NOT (PAGING_PAGESIZE - 1)" by (simp add: PAGEADDRESS_def PAGING_PAGESIZE_def)
  also have "\<dots> = pa"
    using assms(5) unfolding PAGEOFFSET_def page_masks by (simp add: bit_eq_iff bit_simps) blast
  finally have addr: "PAGEADDRESS (pa OR 7) = pa" .
  have user: "(pa OR 7) AND 4 \<noteq> 0"
  proof -
    have "bit ((pa OR 7) AND 4) 2" by (simp add: bit_simps)
    then show ?thesis by auto
  qed
  show ?thesis
    using w lookup addr user IsPageMapped_walk [of s' d w]
    by (auto simp: Paging_GetHigherHalfAddress_def walk_def pde_at_def page_table_of_eq Let_def PAGING_PTE_USER_def
        split: if_splits)
qed

theorem Paging_MapPage_then_lookup_witness:
  "\<exists>s'. Paging_MapPage one_block (frame_ptr 512) 0x1000 0x5000 True = Inr (True, s') \<and>
    Paging_GetHigherHalfAddress s' (frame_ptr 512) 0x1234 = 0x80005234"
proof -
  obtain s' where s': "Paging_MapPage one_block (frame_ptr 512) 0x1000 0x5000 True = Inr (True, s')"
    using one_block_map by blast
  have va: "(0x1000 :: u32) < KERNEL_MMAP_VIRTUAL_START" by (simp add: KERNEL_MMAP_VIRTUAL_START_def)
  have "Paging_GetHigherHalfAddress s' (frame_ptr 512) 0x1234 = KERNADDR 0x5000 + PAGEOFFSET 0x1234"
    by (rule Paging_MapPage_then_lookup [OF one_block_space(1,2) va s'])
      (simp_all add: PAGEOFFSET_def PAGEADDRESS_def PAGING_PAGESIZE_def)
  with s' show ?thesis by (simp add: KERNADDR_def KERNEL_HIGHER_HALF_OFFSET_def PAGEOFFSET_def PAGING_PAGESIZE_def)
qed

text \<open>
  C18. A copy that stays inside one page of the destination is right: the bytes arrive at the frame
  the page is mapped to, and nothing else changes.
\<close>

theorem Paging_Copy_one_page:
  assumes "0 < n" and "unat (PAGEOFFSET dest) + unat n \<le> 4096"
    and "Paging_GetHigherHalfAddress s cr3 dest = h" and "h \<noteq> 0"
    and "unat h + unat n \<le> 2 ^ 32" and "unat src + unat n \<le> 2 ^ 32"
  shows "Paging_Copy s cr3 dest src n =
    (True, s\<lparr>mem := \<lambda>a. if a - h < n then mem s (src + (a - h)) else mem s a\<rparr>)"
proof -
  have "\<not> 0x1000 - PAGEOFFSET dest < n"
    using assms(2) PAGEOFFSET_less [of dest] by (simp add: word_less_nat_alt unat_sub word_le_nat_alt)
  then have "bytes_in_this_page dest n = n"
    by (auto simp: bytes_in_this_page_def Let_def PAGING_PAGESIZE_def)
  with copy_step [OF assms(1,3,4) _ assms(5,6)] show ?thesis by (simp add: copy_done)
qed

theorem Paging_Copy_one_page_witness:
  "Paging_Copy copy_demo 0x80200000 0x10 0x80600000 2 =
    (True, copy_demo\<lparr>mem := \<lambda>a. if a - 0x80300010 < 2 then mem copy_demo (0x80600000 + (a - 0x80300010))
                                else mem copy_demo a\<rparr>)"
proof (rule Paging_Copy_one_page)
  show "Paging_GetHigherHalfAddress copy_demo 0x80200000 0x10 = 0x80300010"
    using copy_demo_entries by (rule copy_demo_lookup)
qed (simp_all add: PAGEOFFSET_def PAGING_PAGESIZE_def)

text \<open>
  C19. A copy that runs into the next page is wrong: the source address is not advanced, so the second
  page receives the bytes from \<open>src\<close> on again instead of those from \<open>src + r\<close> on,
  \<open>r\<close> being the bytes left in the first page. The copy reports success and changes nothing
  else. It is stated for a copy over two pages whose tables lie outside the bytes the first page
  receives, and whose source does too.
\<close>

theorem Paging_Copy_repeats_source:
  assumes "r = 0x1000 - PAGEOFFSET dest" and "r < n" and "n - r \<le> 0x1000"
    and "Paging_GetHigherHalfAddress s cr3 dest = h1" and "h1 \<noteq> 0"
    and "\<And>m. (\<forall>a. \<not> a - h1 < r \<longrightarrow> m a = mem s a) \<Longrightarrow>
      Paging_GetHigherHalfAddress (s\<lparr>mem := m\<rparr>) cr3 (dest + r) = h2" and "h2 \<noteq> 0"
    and "unat h1 + unat r \<le> 2 ^ 32" and "unat h2 + unat (n - r) \<le> 2 ^ 32" and "unat src + unat n \<le> 2 ^ 32"
    and "\<And>i. i < n - r \<Longrightarrow> \<not> src + i - h1 < r"
  shows "Paging_Copy s cr3 dest src n =
    (True, s\<lparr>mem := \<lambda>a. if a - h2 < n - r then mem s (src + (a - h2))
                       else if a - h1 < r then mem s (src + (a - h1)) else mem s a\<rparr>)"
proof -
  let ?m = "\<lambda>a. if a - h1 < r then mem s (src + (a - h1)) else mem s a"
  let ?s = "s\<lparr>mem := ?m\<rparr>"
  have off: "PAGEOFFSET (dest + r) = 0" unfolding assms(1) by (rule next_page_offset)
  have b: "bytes_in_this_page dest n = r" "bytes_in_this_page (dest + r) (n - r) = n - r"
    using assms(1-3) unfolding bytes_in_this_page_def Let_def PAGING_PAGESIZE_def off by auto
  have n: "unat (n - r) + unat r = unat n" "n \<noteq> 0" "n - r > 0"
    using assms(2) by (auto simp: unat_sub word_le_nat_alt word_less_nat_alt)
  have "Paging_Copy s cr3 dest src n = Paging_Copy (s\<lparr>mem := ?m\<rparr>) cr3 (dest + r) src (n - r)"
    by (rule copy_step [OF _ assms(4,5) b(1)]) (use assms(8,10) n in \<open>auto simp: word_gt_0\<close>)
  also have "\<dots> = Paging_Copy (?s\<lparr>mem := \<lambda>a. if a - h2 < n - r then mem ?s (src + (a - h2)) else mem ?s a\<rparr>)
      cr3 (dest + r + (n - r)) src (n - r - (n - r))"
    by (rule copy_step [OF n(3) assms(6,7) b(2) assms(9)]) (use assms(10) n(1) in auto)
  also have "(\<lambda>a. if a - h2 < n - r then mem ?s (src + (a - h2)) else mem ?s a) =
      (\<lambda>a. if a - h2 < n - r then mem s (src + (a - h2)) else ?m a)"
    using assms(11) by (intro ext) simp
  finally show ?thesis by (simp add: copy_done)
qed

theorem Paging_Copy_repeats_source_witness:
  "\<exists>s'. Paging_Copy copy_demo 0x80200000 0xFFF 0x80600000 2 = (True, s') \<and>
    mem copy_demo 0x80600000 = 0x41 \<and> mem copy_demo 0x80600001 = 0x42 \<and>
    mem s' 0x80300FFF = 0x41 \<and> mem s' 0x80301000 = 0x41"
proof -
  have src: "mem copy_demo 0x80600000 = 0x41" "mem copy_demo 0x80600001 = 0x42" by (simp_all add: copy_demo_def)
  have one: "a < 1 \<longleftrightarrow> a = 0" for a :: u32 by (auto simp: word_less_nat_alt unat_eq_0)
  have "Paging_Copy copy_demo 0x80200000 0xFFF 0x80600000 2 =
    (True, copy_demo\<lparr>mem := \<lambda>a. if a - 0x80301000 < 2 - 1 then mem copy_demo (0x80600000 + (a - 0x80301000))
       else if a - 0x80300FFF < 1 then mem copy_demo (0x80600000 + (a - 0x80300FFF)) else mem copy_demo a\<rparr>)"
  proof (rule Paging_Copy_repeats_source [OF _ _ _ copy_demo_lookup(2) [OF copy_demo_entries]])
    fix m assume m: "\<forall>a. \<not> a - 0x80300FFF < (1 :: u32) \<longrightarrow> m a = mem copy_demo a"
    have "m a = mem copy_demo a" if "a \<noteq> 0x80300FFF" for a
      using m that by (simp add: one)
    then have "load32 m 0x80200000 = 0x201007" "load32 m 0x80201000 = 0x300007" "load32 m 0x80201004 = 0x301007"
      using copy_demo_entries by (simp_all add: load32_def)
    then show "Paging_GetHigherHalfAddress (copy_demo\<lparr>mem := m\<rparr>) 0x80200000 (0xFFF + 1) = 0x80301000"
      using copy_demo_lookup(3) [of "copy_demo\<lparr>mem := m\<rparr>"] by simp
  qed (auto simp: PAGEOFFSET_def PAGING_PAGESIZE_def one)
  then show ?thesis using src by (simp add: one)
qed

end
