(* ===== verification/AVOS_Timer.thy ===== *)
theory AVOS_Timer
  imports AVOS_Prelude
begin

text \<open>
  The kernel timer, \<open>kernel/core/timer\<close>: a tick count guarded by a sequence counter. First
  the two functions run alone, then one writer and one reader interleaved at each atomic access.
\<close>

record Timer =
  seq_counter :: u32
  ticks :: u64

section \<open>Functions run alone\<close>

definition add_seq :: "Timer \<Rightarrow> Timer" where
  "add_seq tmr = tmr\<lparr>seq_counter := seq_counter tmr + 1\<rparr>"

definition add_tick :: "Timer \<Rightarrow> Timer" where
  "add_tick tmr = tmr\<lparr>ticks := ticks tmr + 1\<rparr>"

definition Timer_Increment :: "Timer \<Rightarrow> Timer" where
  "Timer_Increment tmr = add_seq (add_tick (add_seq tmr))"

definition read_again :: "u32 \<Rightarrow> u32 \<Rightarrow> bool" where
  "read_again tickseq0 tickseq1 \<longleftrightarrow> tickseq0 \<noteq> tickseq1 \<or> tickseq0 AND 1 \<noteq> 0"

partial_function (option) get_ticks_loop :: "Timer \<Rightarrow> u64 option" where
  "get_ticks_loop tmr =
     (let tickseq0 = seq_counter tmr; t = ticks tmr; tickseq1 = seq_counter tmr
      in if read_again tickseq0 tickseq1 then get_ticks_loop tmr else Some t)"

definition Timer_GetTicks :: "Timer \<Rightarrow> u64 result" where
  "Timer_GetTicks tmr = (case get_ticks_loop tmr of None \<Rightarrow> Inl Loops_Forever | Some t \<Rightarrow> Inr t)"

lemma get_ticks_loop_Some: "get_ticks_loop tmr = Some t \<Longrightarrow> \<not> odd (seq_counter tmr) \<and> t = ticks tmr"
proof (rule get_ticks_loop.raw_induct [where P = "\<lambda>tmr t. \<not> odd (seq_counter tmr) \<and> t = ticks tmr"])
  fix f tmr r
  assume IH: "\<And>tmr r. f tmr = Some r \<Longrightarrow> \<not> odd (seq_counter tmr) \<and> r = ticks tmr"
    and eq: "(let tickseq0 = seq_counter tmr; t = ticks tmr; tickseq1 = seq_counter tmr
      in if read_again tickseq0 tickseq1 then f tmr else Some t) = Some r"
  then show "\<not> odd (seq_counter tmr) \<and> r = ticks tmr"
    by (auto simp: read_again_def Let_def and_one_eq odd_iff_mod_2_eq_one split: if_splits)
qed

lemma Timer_GetTicks_eq:
  "Timer_GetTicks tmr = (if odd (seq_counter tmr) then Inl Loops_Forever else Inr (ticks tmr))"
proof (cases "odd (seq_counter tmr)")
  case True
  then show ?thesis using get_ticks_loop_Some [of tmr] by (cases "get_ticks_loop tmr") (auto simp: Timer_GetTicks_def)
next
  case False
  then have "get_ticks_loop tmr = Some (ticks tmr)"
    by (subst get_ticks_loop.simps) (simp add: read_again_def Let_def and_one_eq even_iff_mod_2_eq_zero)
  with False show ?thesis by (simp add: Timer_GetTicks_def)
qed

lemma Timer_Increment_power:
  "seq_counter ((Timer_Increment ^^ n) tmr) = seq_counter tmr + 2 * of_nat n"
  "ticks ((Timer_Increment ^^ n) tmr) = ticks tmr + of_nat n"
  by (induction n) (simp_all add: Timer_Increment_def add_seq_def add_tick_def algebra_simps)

section \<open>A writer and a reader\<close>

text \<open>
  \<open>seq_steps\<close> counts the increments of the sequence counter so far; it and the counts in the
  reader's states are history that the code does not keep.
\<close>

datatype writer_pc = W_Idle | W_Begun | W_Ticked

datatype reader_pc =
    R_Start
  | R_Seq (read_at: nat) (seq0: u32)
  | R_Ticks (read_at: nat) (seq0: u32) (seen: u64)
  | R_Done (read_at: nat) (checked_at: nat) (seen: u64)

record timer_sys =
  tmr :: Timer
  writer :: writer_pc
  reader :: reader_pc
  seq_steps :: nat

inductive timer_step :: "timer_sys \<Rightarrow> timer_sys \<Rightarrow> bool" where
  begin_increment: "writer S = W_Idle \<Longrightarrow>
    timer_step S (S\<lparr>tmr := add_seq (tmr S), writer := W_Begun, seq_steps := seq_steps S + 1\<rparr>)"
| count_tick: "writer S = W_Begun \<Longrightarrow>
    timer_step S (S\<lparr>tmr := add_tick (tmr S), writer := W_Ticked\<rparr>)"
| end_increment: "writer S = W_Ticked \<Longrightarrow>
    timer_step S (S\<lparr>tmr := add_seq (tmr S), writer := W_Idle, seq_steps := seq_steps S + 1\<rparr>)"
| load_seq0: "reader S = R_Start \<Longrightarrow>
    timer_step S (S\<lparr>reader := R_Seq (seq_steps S) (seq_counter (tmr S))\<rparr>)"
| load_ticks: "reader S = R_Seq n s0 \<Longrightarrow>
    timer_step S (S\<lparr>reader := R_Ticks n s0 (ticks (tmr S))\<rparr>)"
| load_seq1: "reader S = R_Ticks n s0 t \<Longrightarrow>
    timer_step S (S\<lparr>reader := if read_again s0 (seq_counter (tmr S)) then R_Start
                             else R_Done n (seq_steps S) t\<rparr>)"

inductive_cases timer_stepE: "timer_step S S'"

definition timer_start :: "timer_sys \<Rightarrow> bool" where
  "timer_start S \<longleftrightarrow> tmr S = \<lparr>seq_counter = 0, ticks = 0\<rparr> \<and> writer S = W_Idle \<and> reader S = R_Start \<and> seq_steps S = 0"

definition writer_inv :: "timer_sys \<Rightarrow> bool" where
  "writer_inv S \<longleftrightarrow> seq_counter (tmr S) = of_nat (seq_steps S) \<and>
     (case writer S of
        W_Idle \<Rightarrow> even (seq_steps S) \<and> ticks (tmr S) = of_nat (seq_steps S div 2)
      | W_Begun \<Rightarrow> odd (seq_steps S) \<and> ticks (tmr S) = of_nat (seq_steps S div 2)
      | W_Ticked \<Rightarrow> odd (seq_steps S) \<and> ticks (tmr S) = of_nat (seq_steps S div 2 + 1))"

definition reader_inv :: "timer_sys \<Rightarrow> bool" where
  "reader_inv S \<longleftrightarrow>
     (case reader S of
        R_Start \<Rightarrow> True
      | R_Seq n s0 \<Rightarrow> s0 = of_nat n \<and> n \<le> seq_steps S
      | R_Ticks n s0 t \<Rightarrow> s0 = of_nat n \<and> n \<le> seq_steps S \<and>
          (even n \<longrightarrow> seq_steps S = n \<longrightarrow> t = of_nat (n div 2))
      | R_Done n k t \<Rightarrow> n \<le> k \<and> k \<le> seq_steps S \<and> even n \<and> (of_nat n :: u32) = of_nat k \<and>
          (k = n \<longrightarrow> t = of_nat (n div 2)))"

lemma even_of_nat_u32: "(of_nat n :: u32) AND 1 = 0 \<longleftrightarrow> even n"
proof -
  have "(of_nat n :: u32) AND 1 = 0 \<longleftrightarrow> even (of_nat n :: u32)"
    by (simp add: and_one_eq even_iff_mod_2_eq_zero)
  then show ?thesis by simp
qed

lemma timer_step_writer_inv: "timer_step S S' \<Longrightarrow> writer_inv S \<Longrightarrow> writer_inv S'"
  by (erule timer_stepE) (auto simp: writer_inv_def add_seq_def add_tick_def elim!: evenE oddE split: writer_pc.splits)

lemma writer_idle_ticks:
  "writer_inv S \<Longrightarrow> even (seq_steps S) \<Longrightarrow> ticks (tmr S) = of_nat (seq_steps S div 2)"
  by (auto simp: writer_inv_def split: writer_pc.splits)

lemma timer_step_reader_inv: "timer_step S S' \<Longrightarrow> writer_inv S \<Longrightarrow> reader_inv S \<Longrightarrow> reader_inv S'"
proof (induction rule: timer_step.induct)
  case (load_ticks S n s0)
  then show ?case using writer_idle_ticks [of S] by (auto simp: reader_inv_def)
next
  case (load_seq1 S n s0 t)
  then show ?case
    by (auto simp: reader_inv_def writer_inv_def read_again_def even_of_nat_u32)
qed (auto simp: reader_inv_def writer_inv_def split: reader_pc.splits)

lemma timer_reachable_inv:
  assumes "timer_step\<^sup>*\<^sup>* S S'" and "timer_start S"
  shows "writer_inv S' \<and> reader_inv S'"
  using assms
proof (induction rule: rtranclp_induct)
  case base
  then show ?case by (simp add: timer_start_def writer_inv_def reader_inv_def)
next
  case (step S1 S2)
  then show ?case using timer_step_writer_inv timer_step_reader_inv by blast
qed

section \<open>Properties\<close>

text \<open>
  C15. A tick count that the reader returns is the number of increments completed when it read the
  sequence counter, and no increment was under way then, as long as fewer than \<open>2 ^ 32\<close>
  changes of the sequence counter (after which it would repeat) fall into one pass of its loop.
\<close>

theorem Timer_GetTicks_consistent:
  assumes "timer_start S" and "timer_step\<^sup>*\<^sup>* S S'" and "reader S' = R_Done n k t" and "k < n + 2 ^ 32"
  shows "k = n \<and> even n \<and> t = of_nat (n div 2)"
proof -
  have inv: "n \<le> k" "even n" "(of_nat n :: u32) = of_nat k" "k = n \<longrightarrow> t = of_nat (n div 2)"
    using timer_reachable_inv [OF assms(2,1)] assms(3) by (auto simp: reader_inv_def)
  obtain d where d: "k = n + d" using inv(1) by (metis le_add_diff_inverse)
  have "(of_nat d :: u32) = 0" using inv(3) d by simp
  then have "2 ^ 32 dvd d" by (simp add: word_of_nat_eq_0_iff)
  with assms(4) d have "d = 0" by (auto dest: nat_dvd_not_less)
  with d inv show ?thesis by simp
qed

definition timer_run :: timer_sys where
  "timer_run = \<lparr>tmr = \<lparr>seq_counter = 0, ticks = 0\<rparr>, writer = W_Idle, reader = R_Start, seq_steps = 0\<rparr>"

theorem Timer_GetTicks_consistent_witness:
  "\<exists>S'. timer_step\<^sup>*\<^sup>* timer_run S' \<and> reader S' = R_Done 0 0 0"
proof -
  let ?S1 = "timer_run\<lparr>reader := R_Seq 0 0\<rparr>" and ?S2 = "timer_run\<lparr>reader := R_Ticks 0 0 0\<rparr>"
  let ?S3 = "timer_run\<lparr>reader := R_Done 0 0 0\<rparr>"
  have "timer_step timer_run ?S1" using load_seq0 [of timer_run] by (simp add: timer_run_def)
  moreover have "timer_step ?S1 ?S2" using load_ticks [of ?S1 0 0] by (simp add: timer_run_def)
  moreover have "timer_step ?S2 ?S3" using load_seq1 [of ?S2 0 0 0] by (simp add: timer_run_def read_again_def)
  ultimately have run: "timer_step\<^sup>*\<^sup>* timer_run ?S3"
    by (meson converse_rtranclp_into_rtranclp r_into_rtranclp)
  have start: "timer_start timer_run" by (simp add: timer_start_def timer_run_def)
  have "(0 :: u64) = of_nat (0 div 2)" using Timer_GetTicks_consistent [OF start run, of 0 0 0] by simp
  with run show ?thesis by (intro exI [of _ ?S3]) simp
qed

text \<open>
  Run alone, \<open>n\<close> calls of \<open>Timer_Increment\<close> make \<open>Timer_GetTicks\<close> return
  \<open>n\<close> modulo \<open>2 ^ 64\<close>; called in the middle of an increment (from a handler that
  interrupted it on the same processor) it never returns.
\<close>

theorem Timer_sequential:
  "Timer_GetTicks ((Timer_Increment ^^ n) \<lparr>seq_counter = 0, ticks = 0\<rparr>) = Inr (of_nat n) \<and>
   Timer_GetTicks (add_seq ((Timer_Increment ^^ n) \<lparr>seq_counter = 0, ticks = 0\<rparr>)) = Inl Loops_Forever"
  by (simp add: Timer_GetTicks_eq add_seq_def Timer_Increment_power)

end
