(* ===== verification/AVOS_Descriptors.thy ===== *)
theory AVOS_Descriptors
  imports AVOS_Paging
begin

text \<open>
  Segment and interrupt descriptors (\<open>kernel/arch/processor/src/gdt.c\<close>, \<open>idt.c\<close>),
  the tables and the kernel page directory that \<open>kernel/arch/initialize/src/initialize.c\<close>
  builds from them, and what the processor reads back from these structures.
\<close>

section \<open>Segment descriptors\<close>

record GDT_Entry =
  limit_low :: u16
  base_low :: u16
  base_middle :: u8
  access :: u8
  limit_flags :: u8
  base_high :: u8

definition GDT_SetupEntry :: "u32 \<Rightarrow> u32 \<Rightarrow> u8 \<Rightarrow> u8 \<Rightarrow> GDT_Entry" where
  "GDT_SetupEntry base limit acc flags =
     \<lparr>limit_low = ucast (limit AND 0x0000FFFF),
      base_low = ucast (base AND 0x0000FFFF),
      base_middle = ucast (drop_bit 16 (base AND 0x00FF0000)),
      access = acc,
      limit_flags = ucast (drop_bit 16 (limit AND 0x000F0000)) + push_bit 4 (flags AND 0x0F),
      base_high = ucast (drop_bit 24 (base AND 0xFF000000))\<rparr>"

text \<open>The fields as the processor assembles them.\<close>

definition seg_base :: "GDT_Entry \<Rightarrow> u32" where
  "seg_base e = ucast (base_low e) OR push_bit 16 (ucast (base_middle e)) OR push_bit 24 (ucast (base_high e))"

definition seg_limit :: "GDT_Entry \<Rightarrow> u32" where
  "seg_limit e = ucast (limit_low e) OR push_bit 16 (ucast (limit_flags e AND 0x0F))"

definition seg_flags :: "GDT_Entry \<Rightarrow> u8" where
  "seg_flags e = drop_bit 4 (limit_flags e)"

definition seg_dpl :: "GDT_Entry \<Rightarrow> u8" where
  "seg_dpl e = drop_bit 5 (access e) AND 3"

definition GDT_FLAGS_PMODE32 :: u8 where "GDT_FLAGS_PMODE32 = 4"
definition GDT_FLAGS_4GB :: u8 where "GDT_FLAGS_4GB = 8"
definition GDT_FLAGS_ACCESSED :: u8 where "GDT_FLAGS_ACCESSED = 1"
definition GDT_FLAGS_READWRITE :: u8 where "GDT_FLAGS_READWRITE = 2"
definition GDT_FLAGS_EXECUTABLE :: u8 where "GDT_FLAGS_EXECUTABLE = 8"
definition GDT_FLAGS_CODEORDATA :: u8 where "GDT_FLAGS_CODEORDATA = 0x10"
definition GDT_FLAGS_PRIV_RING0 :: u8 where "GDT_FLAGS_PRIV_RING0 = 0"
definition GDT_FLAGS_PRIV_RING3 :: u8 where "GDT_FLAGS_PRIV_RING3 = 0x60"
definition GDT_FLAGS_PRESENT :: u8 where "GDT_FLAGS_PRESENT = 0x80"
definition GDT_SEGLIMIT_4GB :: u32 where "GDT_SEGLIMIT_4GB = 0xFFFFF"
definition GDT_SEG_KERN_CODE :: u16 where "GDT_SEG_KERN_CODE = 8"
definition GDT_SEG_KERN_DATA :: u16 where "GDT_SEG_KERN_DATA = 16"
definition GDT_SEG_USER_CODE :: u16 where "GDT_SEG_USER_CODE = 24"
definition GDT_RPL3 :: u16 where "GDT_RPL3 = 3"

lemmas gdt_consts =
  GDT_FLAGS_PMODE32_def GDT_FLAGS_4GB_def GDT_FLAGS_ACCESSED_def GDT_FLAGS_READWRITE_def
  GDT_FLAGS_EXECUTABLE_def GDT_FLAGS_CODEORDATA_def GDT_FLAGS_PRIV_RING0_def GDT_FLAGS_PRIV_RING3_def
  GDT_FLAGS_PRESENT_def GDT_SEGLIMIT_4GB_def

section \<open>Interrupt descriptors\<close>

record IDT_Entry =
  addr_low :: u16
  segment :: u16
  zero :: u8
  type_attr :: u8
  addr_high :: u16

definition IDT_SetupEntry :: "u32 \<Rightarrow> u16 \<Rightarrow> u8 \<Rightarrow> IDT_Entry" where
  "IDT_SetupEntry address seg ty =
     \<lparr>addr_low = ucast (address AND 0x0000FFFF), segment = seg, zero = 0, type_attr = ty,
      addr_high = ucast (drop_bit 16 (address AND 0xFFFF0000))\<rparr>"

definition gate_addr :: "IDT_Entry \<Rightarrow> u32" where
  "gate_addr e = ucast (addr_low e) OR push_bit 16 (ucast (addr_high e))"

definition gate_dpl :: "IDT_Entry \<Rightarrow> u8" where
  "gate_dpl e = drop_bit 5 (type_attr e) AND 3"

definition gate_present :: "IDT_Entry \<Rightarrow> bool" where
  "gate_present e \<longleftrightarrow> bit (type_attr e) 7"

definition IDT_NENTRIES :: nat where "IDT_NENTRIES = 0x100"
definition IDT_FLAGS_PRESENT :: u8 where "IDT_FLAGS_PRESENT = 0x80"
definition IDT_FLAGS_DPL0 :: u8 where "IDT_FLAGS_DPL0 = 0"
definition IDT_FLAGS_DPL3 :: u8 where "IDT_FLAGS_DPL3 = 0x60"
definition IDT_TYPE_INTR32 :: u8 where "IDT_TYPE_INTR32 = 0xE"
definition IDT_TYPE_TRAP32 :: u8 where "IDT_TYPE_TRAP32 = 0xF"

lemmas idt_consts =
  IDT_NENTRIES_def IDT_FLAGS_PRESENT_def IDT_FLAGS_DPL0_def IDT_FLAGS_DPL3_def IDT_TYPE_INTR32_def
  IDT_TYPE_TRAP32_def GDT_SEG_KERN_CODE_def

section \<open>The tables of one processor\<close>

definition cpu_gdt :: "u32 \<Rightarrow> u32 \<Rightarrow> nat \<Rightarrow> GDT_Entry" where
  "cpu_gdt tss_seg_base tss_seg_limit =
     (let gdt_kern_code_access = GDT_FLAGS_PRESENT OR GDT_FLAGS_PRIV_RING0 OR GDT_FLAGS_CODEORDATA OR GDT_FLAGS_EXECUTABLE OR GDT_FLAGS_READWRITE;
          gdt_user_code_access = GDT_FLAGS_PRESENT OR GDT_FLAGS_PRIV_RING3 OR GDT_FLAGS_CODEORDATA OR GDT_FLAGS_EXECUTABLE OR GDT_FLAGS_READWRITE;
          gdt_kern_data_access = GDT_FLAGS_PRESENT OR GDT_FLAGS_PRIV_RING0 OR GDT_FLAGS_CODEORDATA OR GDT_FLAGS_READWRITE;
          gdt_user_data_access = GDT_FLAGS_PRESENT OR GDT_FLAGS_PRIV_RING3 OR GDT_FLAGS_CODEORDATA OR GDT_FLAGS_READWRITE;
          gdt_flags = GDT_FLAGS_4GB OR GDT_FLAGS_PMODE32;
          gdt_tss_access = GDT_FLAGS_PRESENT OR GDT_FLAGS_EXECUTABLE OR GDT_FLAGS_ACCESSED
      in (\<lambda>_. GDT_SetupEntry 0 0 0 0)(
           1 := GDT_SetupEntry 0 GDT_SEGLIMIT_4GB gdt_kern_code_access gdt_flags,
           2 := GDT_SetupEntry 0 GDT_SEGLIMIT_4GB gdt_kern_data_access gdt_flags,
           3 := GDT_SetupEntry 0 GDT_SEGLIMIT_4GB gdt_user_code_access gdt_flags,
           4 := GDT_SetupEntry 0 GDT_SEGLIMIT_4GB gdt_user_data_access gdt_flags,
           5 := GDT_SetupEntry tss_seg_base tss_seg_limit gdt_tss_access 0))"

text \<open>The four entry points are symbols of the assembly code.\<close>

definition cpu_idt :: "u32 \<Rightarrow> u32 \<Rightarrow> u32 \<Rightarrow> u32 \<Rightarrow> nat \<Rightarrow> IDT_Entry" where
  "cpu_idt Interrupt_0x20 Interrupt_0x21 Interrupt_0x30 Interrupt_0x80 =
     (\<lambda>_. IDT_SetupEntry 0 0 0)(
        0x20 := IDT_SetupEntry Interrupt_0x20 GDT_SEG_KERN_CODE (IDT_FLAGS_PRESENT OR IDT_FLAGS_DPL0 OR IDT_TYPE_INTR32),
        0x21 := IDT_SetupEntry Interrupt_0x21 GDT_SEG_KERN_CODE (IDT_FLAGS_PRESENT OR IDT_FLAGS_DPL0 OR IDT_TYPE_INTR32),
        0x30 := IDT_SetupEntry Interrupt_0x30 GDT_SEG_KERN_CODE (IDT_FLAGS_PRESENT OR IDT_FLAGS_DPL0 OR IDT_TYPE_INTR32),
        0x80 := IDT_SetupEntry Interrupt_0x80 GDT_SEG_KERN_CODE (IDT_FLAGS_PRESENT OR IDT_FLAGS_DPL3 OR IDT_TYPE_TRAP32))"

section \<open>The kernel page directory\<close>

definition PAGING_PDE_PSE :: u32 where "PAGING_PDE_PSE = 0x80"

definition kernel_pde :: "u32 \<Rightarrow> u32" where
  "kernel_pde frame = frame OR PAGING_PDE_PRESENT OR PAGING_PDE_READWRITE OR PAGING_PDE_PSE"

text \<open>The directory the kernel is linked with: the first 4 MB, at 0 and in the higher half.\<close>

definition Kernel_pagedirectory_init :: "u32 \<Rightarrow> u32" where
  "Kernel_pagedirectory_init = (\<lambda>_. 0)(0 := kernel_pde 0, PAGING_PGDIR_IDX KERNEL_MMAP_VIRTUAL_START := kernel_pde 0)"

definition pd_region :: "u32 \<Rightarrow> nat \<Rightarrow> (u32 \<Rightarrow> u32) \<Rightarrow> (u32 \<Rightarrow> u32) \<Rightarrow> (u32 \<Rightarrow> u32)" where
  "pd_region start n value pd =
     fold (\<lambda>k pd. let i = start + of_nat k * PAGING_EXTPAGESIZE in pd(PAGING_PGDIR_IDX i := value i)) [0..<n] pd"

text \<open>
  The directory part of \<open>Initialize_Memory\<close>: 511 user regions cleared, 448 regions of the
  higher half mapped to physical memory from 0, 64 regions of memory-mapped devices mapped to
  themselves.
\<close>

definition init_pagedirectory :: "(u32 \<Rightarrow> u32) \<Rightarrow> (u32 \<Rightarrow> u32)" where
  "init_pagedirectory pd =
     pd_region KERNEL_MMAP_HIMEMIO_START 64 kernel_pde
       (pd_region KERNEL_MMAP_VIRTUAL_START 448 (\<lambda>i. kernel_pde (i - KERNEL_HIGHER_HALF_OFFSET))
         (pd_region PAGING_EXTPAGESIZE 511 (\<lambda>_. 0) pd))"

definition Initialize_Memory ::
  "'a physmem_scheme \<Rightarrow> (u32 \<Rightarrow> u32) \<Rightarrow> u32 \<Rightarrow> ((u32 \<Rightarrow> u32) \<times> 'a physmem_scheme) result" where
  "Initialize_Memory s pd BootInfo =
     res_bind (Page_BuddyMaps_Initialize s BootInfo) (\<lambda>s'. Inr (init_pagedirectory pd, s'))"

text \<open>How the processor translates an address through a 4 MB entry.\<close>

definition pse_translate :: "(u32 \<Rightarrow> u32) \<Rightarrow> u32 \<Rightarrow> u32 option" where
  "pse_translate pd va =
     (let e = pd (PAGING_PGDIR_IDX va)
      in if bit e 0 \<and> bit e 7 then Some ((e AND 0xFFC00000) OR (va AND 0x3FFFFF)) else None)"

section \<open>Reading back\<close>

lemma field_masks:
  "(0x0000FFFF :: u32) = mask 16" "(0x00FF0000 :: u32) = push_bit 16 (mask 8)"
  "(0xFF000000 :: u32) = push_bit 24 (mask 8)" "(0x000F0000 :: u32) = push_bit 16 (mask 4)"
  "(0xFFFF0000 :: u32) = push_bit 16 (mask 16)" "(0xFFFFF :: u32) = mask 20" "(0x0F :: u8) = mask 4"
  by (simp_all add: mask_eq_exp_minus_1)

lemma seg_base_eq: "seg_base (GDT_SetupEntry base limit acc flags) = base"
proof (rule bit_word_eqI)
  fix n assume "n < LENGTH(32)"
  then consider "n < 16" | "16 \<le> n" "n < 24" | "24 \<le> n" "n < 32" by fastforce
  then show "bit (seg_base (GDT_SetupEntry base limit acc flags)) n = bit base n"
    by cases (auto simp: seg_base_def GDT_SetupEntry_def field_masks bit_simps)
qed

lemma gate_addr_eq: "gate_addr (IDT_SetupEntry address sel ty) = address"
  by (rule bit_word_eqI) (auto simp: gate_addr_def IDT_SetupEntry_def field_masks bit_simps)

lemma limit_flags_eq:
  "limit_flags (GDT_SetupEntry base limit acc flags) =
     ucast (drop_bit 16 (limit AND 0x000F0000)) OR push_bit 4 (flags AND 0x0F)"
proof -
  have "(ucast (drop_bit 16 (limit AND 0x000F0000)) :: u8) AND push_bit 4 (flags AND 0x0F) = 0"
    by (rule bit_word_eqI) (auto simp: field_masks bit_simps)
  then have "ucast (drop_bit 16 (limit AND 0x000F0000)) + push_bit 4 (flags AND 0x0F) =
      (ucast (drop_bit 16 (limit AND 0x000F0000)) :: u8) OR push_bit 4 (flags AND 0x0F)"
    by (rule disjunctive_add_eq_or)
  then show ?thesis by (simp add: GDT_SetupEntry_def)
qed

lemma seg_limit_eq: "seg_limit (GDT_SetupEntry base limit acc flags) = limit AND 0xFFFFF"
proof (rule bit_word_eqI)
  fix n assume "n < LENGTH(32)"
  then consider "n < 16" | "16 \<le> n" "n < 20" | "20 \<le> n" "n < 32" by fastforce
  then show "bit (seg_limit (GDT_SetupEntry base limit acc flags)) n = bit (limit AND 0xFFFFF) n"
    unfolding seg_limit_def limit_flags_eq
    by cases (auto simp: GDT_SetupEntry_def field_masks bit_simps)
qed

lemma seg_flags_eq: "seg_flags (GDT_SetupEntry base limit acc flags) = flags AND 0x0F"
  unfolding seg_flags_def limit_flags_eq by (rule bit_word_eqI) (auto simp: field_masks bit_simps)

section \<open>Regions of the directory\<close>

lemma PGDIR_IDX_region: "j < 1024 \<Longrightarrow> PAGING_PGDIR_IDX (push_bit 22 (of_nat j)) = of_nat j"
proof -
  assume "j < 1024"
  then have self: "take_bit 10 (of_nat j :: u32) = of_nat j"
    by (simp add: take_bit_of_nat take_bit_nat_eq_self)
  have "PAGING_PGDIR_IDX (push_bit 22 (of_nat j)) = take_bit 10 (drop_bit 22 (push_bit 22 (of_nat j)))"
    by (simp add: PAGING_PGDIR_IDX_def take_bit_eq_mask mask_eq_exp_minus_1)
  also have "\<dots> = take_bit 10 (of_nat j)"
    by (rule bit_word_eqI) (auto simp: bit_push_bit_iff bit_drop_bit_eq bit_take_bit_iff)
  finally show ?thesis using self by simp
qed

lemma region_address:
  assumes "start = push_bit 22 (of_nat b)"
  shows "start + of_nat k * PAGING_EXTPAGESIZE = push_bit 22 (of_nat (b + k) :: u32)"
  using assms by (simp add: PAGING_EXTPAGESIZE_def push_bit_eq_mult algebra_simps)

lemma pd_region_at:
  assumes "start = push_bit 22 (of_nat b)" and "b + n \<le> 1024" and "j < 1024"
  shows "pd_region start n f pd (of_nat j) =
    (if b \<le> j \<and> j < b + n then f (push_bit 22 (of_nat j)) else pd (of_nat j))"
  using assms(2)
proof (induction n)
  case 0
  then show ?case by (auto simp: pd_region_def)
next
  case (Suc n)
  have inj: "(of_nat (b + n) :: u32) = of_nat j \<longleftrightarrow> b + n = j"
    using Suc.prems assms(3) by (simp add: word_unat_eq_iff unat_of_nat del: of_nat_add)
  have "pd_region start (Suc n) f pd =
      (pd_region start n f pd)(of_nat (b + n) := f (push_bit 22 (of_nat (b + n))))"
    using region_address [OF assms(1), of n] PGDIR_IDX_region [of "b + n"] Suc.prems
    by (simp add: pd_region_def Let_def del: of_nat_add)
  then show ?case using Suc inj by (auto simp del: of_nat_add)
qed

lemma kernel_pde_translate:
  assumes "pd (PAGING_PGDIR_IDX va) = kernel_pde (push_bit 22 w)"
  shows "pse_translate pd va = Some (push_bit 22 w + (va AND 0x3FFFFF))"
proof -
  have masks: "(0x3FFFFF :: u32) = mask 22" "(0xFFC00000 :: u32) = push_bit 22 (mask 10)"
    by (simp_all add: mask_eq_exp_minus_1)
  let ?e = "kernel_pde (push_bit 22 w)"
  have e: "?e = push_bit 22 w OR 0x83"
    by (simp add: kernel_pde_def PAGING_PDE_PRESENT_def PAGING_PDE_READWRITE_def PAGING_PDE_PSE_def or.assoc)
  have high: "\<not> bit (0x83 :: u32) n" if "22 \<le> n" for n
  proof -
    have "(0x83 :: u32) = take_bit 22 0x83" by simp
    then have "bit (0x83 :: u32) n = bit (take_bit 22 (0x83 :: u32)) n" by (rule arg_cong)
    with that show ?thesis by (simp only: bit_take_bit_iff) simp
  qed
  have flags: "bit ?e 0" "bit ?e 7" by (simp_all add: e bit_simps)
  have frame: "?e AND 0xFFC00000 = push_bit 22 w"
  proof (rule bit_word_eqI)
    fix n assume "n < LENGTH(32)"
    then show "bit (?e AND 0xFFC00000) n = bit (push_bit 22 w) n"
      unfolding e masks using high [of n] by (cases "22 \<le> n") (auto simp: bit_push_bit_iff bit_or_iff bit_and_iff bit_mask_iff)
  qed
  have "push_bit 22 w AND (va AND 0x3FFFFF) = 0"
    unfolding masks by (rule bit_word_eqI) (auto simp: bit_simps)
  then have "push_bit 22 w OR (va AND 0x3FFFFF) = push_bit 22 w + (va AND 0x3FFFFF)"
    by (rule disjunctive_add_eq_or [symmetric])
  with assms flags frame show ?thesis by (simp add: pse_translate_def Let_def)
qed

lemma split_22: "va = push_bit 22 (drop_bit 22 va) + (va AND (0x3FFFFF :: u32))"
proof -
  have mask: "(0x3FFFFF :: u32) = mask 22" by (simp add: mask_eq_exp_minus_1)
  have "push_bit 22 (drop_bit 22 va) AND (va AND 0x3FFFFF) = 0"
    unfolding mask by (rule bit_word_eqI) (auto simp: bit_simps)
  then have "push_bit 22 (drop_bit 22 va) + (va AND 0x3FFFFF) = push_bit 22 (drop_bit 22 va) OR (va AND 0x3FFFFF)"
    by (rule disjunctive_add_eq_or)
  also have "\<dots> = va" unfolding mask by (rule bit_word_eqI) (auto simp: bit_simps)
  finally show ?thesis by simp
qed

lemma region_of:
  fixes va :: u32
  obtains j where "j < 1024" and "drop_bit 22 va = of_nat j" and "unat va div 2 ^ 22 = j"
proof
  show "unat va div 2 ^ 22 < 1024" using unat_u32_lt [of va] by (simp add: div_less_iff_less_mult)
  have "unat (drop_bit 22 va) = unat va div 2 ^ 22" unfolding unat_drop_bit_eq by (simp add: drop_bit_eq_div)
  then show "drop_bit 22 va = of_nat (unat va div 2 ^ 22)" by (metis of_nat_unat ucast_id)
qed (rule refl)

lemma PGDIR_IDX_of:
  assumes "j < 1024" and "drop_bit 22 va = of_nat j"
  shows "PAGING_PGDIR_IDX va = of_nat j"
proof -
  have "drop_bit 22 (push_bit 22 (drop_bit 22 va)) = drop_bit 22 va"
    by (rule bit_word_eqI) (auto simp: bit_simps dest: bit_imp_le_length)
  then have "PAGING_PGDIR_IDX va = PAGING_PGDIR_IDX (push_bit 22 (drop_bit 22 va))"
    by (simp only: PAGING_PGDIR_IDX_def)
  then show ?thesis using PGDIR_IDX_region [OF assms(1)] assms(2) by simp
qed

lemma region_starts:
  "KERNEL_MMAP_HIMEMIO_START = push_bit 22 (of_nat 960)" "KERNEL_MMAP_VIRTUAL_START = push_bit 22 (of_nat 512)"
  "PAGING_EXTPAGESIZE = push_bit 22 (of_nat 1)" "KERNEL_HIGHER_HALF_OFFSET = push_bit 22 (of_nat 512)"
  by (simp_all add: kernel_consts PAGING_EXTPAGESIZE_def)

lemma region_below:
  "512 \<le> j \<Longrightarrow> push_bit 22 (of_nat j) - KERNEL_HIGHER_HALF_OFFSET = push_bit 22 (of_nat (j - 512))"
  unfolding region_starts(4) by (simp add: push_bit_eq_mult of_nat_diff algebra_simps)

lemma init_pagedirectory_at:
  assumes "j < 1024"
  shows "init_pagedirectory pd (of_nat j) =
    (if j = 0 then pd 0 else if j < 512 then 0
     else if j < 960 then kernel_pde (push_bit 22 (of_nat (j - 512))) else kernel_pde (push_bit 22 (of_nat j)))"
  unfolding init_pagedirectory_def
  by (subst pd_region_at [OF region_starts(1) _ assms], simp, subst pd_region_at [OF region_starts(2) _ assms], simp,
      subst pd_region_at [OF region_starts(3) _ assms], simp)
    (use assms region_below [of j] in \<open>auto simp del: of_nat_diff\<close>)

lemma Kernel_pagedirectory_init_first: "Kernel_pagedirectory_init 0 = kernel_pde 0"
  using PGDIR_IDX_region [of 512] unfolding Kernel_pagedirectory_init_def region_starts by simp

section \<open>Properties\<close>

text \<open>
  C20. Descriptors round-trip: from the bytes that \<open>GDT_SetupEntry\<close> and
  \<open>IDT_SetupEntry\<close> store, the processor reads back the base, the low 20 bits of the limit,
  the low four flags, the access byte and the handler address that were passed in.
\<close>

theorem descriptors_roundtrip:
  "seg_base (GDT_SetupEntry base limit acc flags) = base \<and>
   seg_limit (GDT_SetupEntry base limit acc flags) = limit AND 0xFFFFF \<and>
   seg_flags (GDT_SetupEntry base limit acc flags) = flags AND 0x0F \<and>
   access (GDT_SetupEntry base limit acc flags) = acc \<and>
   gate_addr (IDT_SetupEntry address sel ty) = address \<and>
   segment (IDT_SetupEntry address sel ty) = sel \<and> type_attr (IDT_SetupEntry address sel ty) = ty"
  by (simp add: seg_base_eq seg_limit_eq seg_flags_eq gate_addr_eq)
    (simp add: GDT_SetupEntry_def IDT_SetupEntry_def)

text \<open>
  C21. Privilege of the tables: in the descriptor table of a processor the user code and data segments,
  and no other entry, are of ring 3; the null descriptor and the unused entries are absent; the four
  code and data segments cover 4 GB from address 0; the task state descriptor is a present, available
  one with the base and limit given. In the interrupt table the only gate a user program may invoke is
  \<open>0x80\<close>, and every vector without a handler is absent.
\<close>

theorem table_privileges:
  "(\<forall>i. seg_dpl (cpu_gdt tb lim i) = 3 \<longleftrightarrow> i \<in> {3, 4}) \<and>
   (\<forall>i. bit (access (cpu_gdt tb lim i)) 7 \<longleftrightarrow> i \<in> {1..5}) \<and>
   map (\<lambda>i. access (cpu_gdt tb lim i)) [0, 1, 2, 3, 4, 5] = [0, 0x9A, 0x92, 0xFA, 0xF2, 0x89] \<and>
   map (\<lambda>i. (seg_base (cpu_gdt tb lim i), seg_limit (cpu_gdt tb lim i), seg_flags (cpu_gdt tb lim i))) [1, 2, 3, 4] =
     replicate 4 (0, 0xFFFFF, 0xC) \<and>
   (seg_base (cpu_gdt tb lim 5), seg_limit (cpu_gdt tb lim 5), seg_flags (cpu_gdt tb lim 5)) = (tb, lim AND 0xFFFFF, 0) \<and>
   (\<forall>i. gate_present (cpu_idt a b c d i) \<longleftrightarrow> i \<in> {0x20, 0x21, 0x30, 0x80}) \<and>
   (\<forall>i. gate_present (cpu_idt a b c d i) \<and> gate_dpl (cpu_idt a b c d i) = 3 \<longleftrightarrow> i = 0x80) \<and>
   map (\<lambda>i. (segment (cpu_idt a b c d i), type_attr (cpu_idt a b c d i))) [0x20, 0x21, 0x30, 0x80] =
     [(8, 0x8E), (8, 0x8E), (8, 0x8E), (8, 0xEF)] \<and>
   map (\<lambda>i. gate_addr (cpu_idt a b c d i)) [0x20, 0x21, 0x30, 0x80] = [a, b, c, d]"
proof -
  have acc: "access (GDT_SetupEntry x y u v) = u" for x y u v by (simp add: GDT_SetupEntry_def)
  have ty: "type_attr (IDT_SetupEntry x y u) = u" "segment (IDT_SetupEntry x y u) = y" for x y u
    by (simp_all add: IDT_SetupEntry_def)
  have access: "access (cpu_gdt tb lim i) = (if i = 1 then 0x9A else if i = 2 then 0x92 else if i = 3 then 0xFA
      else if i = 4 then 0xF2 else if i = 5 then 0x89 else 0)" for i
    by (simp add: cpu_gdt_def Let_def acc gdt_consts)
  have "seg_dpl (cpu_gdt tb lim i) = 3 \<longleftrightarrow> i \<in> {3, 4}" for i
    unfolding seg_dpl_def access by simp
  moreover have "bit (access (cpu_gdt tb lim i)) 7 \<longleftrightarrow> i \<in> {1..5}" for i
    unfolding access by auto
  moreover have "map (\<lambda>i. access (cpu_gdt tb lim i)) [0, 1, 2, 3, 4, 5] = [0, 0x9A, 0x92, 0xFA, 0xF2, 0x89]"
    by (simp add: access)
  moreover have "map (\<lambda>i. (seg_base (cpu_gdt tb lim i), seg_limit (cpu_gdt tb lim i), seg_flags (cpu_gdt tb lim i))) [1, 2, 3, 4] =
     replicate 4 (0, 0xFFFFF, 0xC)"
    by (simp add: cpu_gdt_def Let_def seg_base_eq seg_limit_eq seg_flags_eq gdt_consts numeral_eq_Suc)
  moreover have "(seg_base (cpu_gdt tb lim 5), seg_limit (cpu_gdt tb lim 5), seg_flags (cpu_gdt tb lim 5)) = (tb, lim AND 0xFFFFF, 0)"
    by (simp add: cpu_gdt_def Let_def seg_base_eq seg_limit_eq seg_flags_eq)
  moreover have "gate_present (cpu_idt a b c d i) \<longleftrightarrow> i \<in> {0x20, 0x21, 0x30, 0x80}"
    and "gate_present (cpu_idt a b c d i) \<and> gate_dpl (cpu_idt a b c d i) = 3 \<longleftrightarrow> i = 0x80" for i
    by (auto simp: gate_present_def gate_dpl_def cpu_idt_def ty idt_consts)
  moreover have "map (\<lambda>i. (segment (cpu_idt a b c d i), type_attr (cpu_idt a b c d i))) [0x20, 0x21, 0x30, 0x80] =
     [(8, 0x8E), (8, 0x8E), (8, 0x8E), (8, 0xEF)]"
    by (simp add: cpu_idt_def ty idt_consts)
  moreover have "map (\<lambda>i. gate_addr (cpu_idt a b c d i)) [0x20, 0x21, 0x30, 0x80] = [a, b, c, d]"
    by (simp add: cpu_idt_def gate_addr_eq)
  ultimately show ?thesis by blast
qed

text \<open>
  C22. After \<open>Initialize_Memory\<close> the kernel page directory maps every higher-half address
  below \<open>0xF0000000\<close> to physical memory at offset \<open>0x80000000\<close> and every device
  address above to itself, as \<open>KERNADDR\<close> and \<open>PHYSADDR\<close> assume. Below
  \<open>0x80000000\<close> every entry is zero but that of the first 4 MB, which stays as it was:
  the identity, in the directory the kernel is linked with.
\<close>

theorem kernel_directory_linear:
  "pse_translate (init_pagedirectory pd) va =
     (if va < PAGING_EXTPAGESIZE then pse_translate pd va
      else if va < KERNEL_MMAP_VIRTUAL_START then None
      else if va < KERNEL_MMAP_VIRTUAL_END then Some (PHYSADDR va) else Some va) \<and>
   (PAGING_EXTPAGESIZE \<le> va \<and> va < KERNEL_MMAP_VIRTUAL_START \<longrightarrow>
     init_pagedirectory pd (PAGING_PGDIR_IDX va) = 0) \<and>
   (va < PAGING_EXTPAGESIZE \<longrightarrow>
     pse_translate (init_pagedirectory Kernel_pagedirectory_init) va = Some va)"
proof -
  obtain j where j: "j < 1024" "drop_bit 22 va = of_nat j" "unat va div 2 ^ 22 = j" by (rule region_of)
  have idx: "PAGING_PGDIR_IDX va = of_nat j" by (rule PGDIR_IDX_of [OF j(1,2)])
  have low: "va < PAGING_EXTPAGESIZE \<longleftrightarrow> j = 0" "va < KERNEL_MMAP_VIRTUAL_START \<longleftrightarrow> j < 512"
      "va < KERNEL_MMAP_VIRTUAL_END \<longleftrightarrow> j < 960"
    unfolding j(3) [symmetric]
    by (simp_all add: PAGING_EXTPAGESIZE_def KERNEL_MMAP_VIRTUAL_START_def KERNEL_MMAP_VIRTUAL_END_def
        word_less_nat_alt div_less_iff_less_mult div_eq_0_iff)
  note dir = init_pagedirectory_at [OF j(1)]
  have va: "va = push_bit 22 (of_nat j) + (va AND 0x3FFFFF)" using split_22 [of va] j(2) by simp
  have "pse_translate (init_pagedirectory pd) va = pse_translate pd va" if "j = 0"
    using that dir unfolding pse_translate_def idx by simp
  moreover have "pse_translate (init_pagedirectory pd) va = None" if "j \<noteq> 0" "j < 512"
    using that dir unfolding pse_translate_def idx by simp
  moreover have "pse_translate (init_pagedirectory pd) va = Some (PHYSADDR va)" if "512 \<le> j" "j < 960"
  proof -
    have "PHYSADDR va = push_bit 22 (of_nat (j - 512)) + (va AND 0x3FFFFF)"
      using va region_below [OF that(1)] unfolding PHYSADDR_def by (metis add_diff_eq add.commute diff_add_eq)
    with that dir show ?thesis
      using kernel_pde_translate [of "init_pagedirectory pd" va "of_nat (j - 512)"] unfolding idx
      by (simp del: of_nat_diff)
  qed
  moreover have "pse_translate (init_pagedirectory pd) va = Some va" if "960 \<le> j"
    using that dir kernel_pde_translate [of "init_pagedirectory pd" va "of_nat j"] va unfolding idx by simp
  moreover have "pse_translate (init_pagedirectory Kernel_pagedirectory_init) va = Some va" if "j = 0"
    using that init_pagedirectory_at [OF j(1), of Kernel_pagedirectory_init] va
      kernel_pde_translate [of "init_pagedirectory Kernel_pagedirectory_init" va 0] unfolding idx
    by (simp add: Kernel_pagedirectory_init_first)
  ultimately show ?thesis 
    unfolding linorder_not_less [of va PAGING_EXTPAGESIZE, symmetric] low idx using dir by auto
qed

theorem kernel_directory_linear_witness:
  "pse_translate (init_pagedirectory Kernel_pagedirectory_init) 0x123456 = Some 0x00123456 \<and>
   pse_translate (init_pagedirectory Kernel_pagedirectory_init) 0x500000 = None \<and>
   pse_translate (init_pagedirectory Kernel_pagedirectory_init) 0x80123456 = Some 0x00123456 \<and>
   pse_translate (init_pagedirectory Kernel_pagedirectory_init) 0xFEE00020 = Some 0xFEE00020"
  using kernel_directory_linear [of Kernel_pagedirectory_init "0x123456", THEN conjunct2, THEN conjunct2] kernel_directory_linear [of Kernel_pagedirectory_init "0x500000"]
    kernel_directory_linear [of Kernel_pagedirectory_init "0x80123456"] kernel_directory_linear [of Kernel_pagedirectory_init "0xFEE00020"]
  by (simp add: kernel_consts PHYSADDR_def PAGING_EXTPAGESIZE_def)

end
