(* ===== verification/AVOS_Process.thy ===== *)
theory AVOS_Process
  imports AVOS_Paging AVOS_Timer
begin

text \<open>
  Processes, the scheduler and sleep locks: \<open>kernel/core/taskmaster\<close>,
  \<open>kernel/core/synch/src/sleeplock.c\<close> and the contexts of
  \<open>kernel/arch/tasking/src/context.c\<close>.

  The state extends the page allocator's. A \<open>struct Process*\<close> into
  \<open>Scheduler_processes\<close> is the index of the slot, \<open>None\<close> is \<open>PROCESS_NULL\<close>.
  The \<open>State\<close>, \<open>KContext\<close> and \<open>IContext\<close> structures that the source places
  at the top of a process's kernel stack are kept in maps indexed by the slot.

  A context switch (\<open>SCHEDULER_RETURN\<close>, \<open>SCHEDULER_SWITCH\<close>) is assembly code that
  comes back after other code has run; what happens in between is the argument \<open>switch\<close> of the
  functions that switch.
\<close>

section \<open>Data\<close>

datatype Process_Status =
  PROCESS_IDLE | PROCESS_BOOKED | PROCESS_RUNNABLE | PROCESS_RUNNING | PROCESS_ASLEEP | PROCESS_DEAD

record Stack =
  stack_base :: u32
  stack_ptr :: u32
  stack_size :: u32
  stack_flags :: u32

record KContext =
  kc_cr3 :: u32
  kc_edi :: u32
  kc_esi :: u32
  kc_ebx :: u32
  kc_ebp :: u32
  kc_eip :: u32

record IContext =
  ic_edi :: u32
  ic_esi :: u32
  ic_ebp :: u32
  ic_oesp :: u32
  ic_ebx :: u32
  ic_edx :: u32
  ic_ecx :: u32
  ic_eax :: u32
  ic_gs :: u16
  ic_fs :: u16
  ic_es :: u16
  ic_ds :: u16
  ic_vector :: u32
  ic_err :: u32
  ic_eip :: u32
  ic_cs :: u16
  ic_eflags :: u32
  ic_esp :: u32
  ic_ss :: u16

record Process =
  p_id :: u32
  p_user :: u32
  p_parent :: "nat option"
  p_child :: "nat option"
  p_sibling :: "nat option"
  p_num_children :: u32
  p_status :: Process_Status
  p_exit_code :: u32
  p_endpoint :: u32
  p_kernel_stack :: Stack
  p_task_context :: u32
  p_intr_context :: u32
  p_wakeup_on :: u32
  p_start_time :: u64
  p_run_time :: u32

record KProc =
  kp_cpu :: u32
  kp_scheduler :: u32
  kp_timer :: Timer

record SleepLock =
  access_lock :: SpinLock
  locked :: bool

record kernel = physmem +
  Scheduler_processes :: "nat \<Rightarrow> Process"
  Process_lock :: SpinLock
  State_lock :: SpinLock
  Process_next_pid :: u32
  Process_primordial :: "nat option"
  proc_states :: "nat \<Rightarrow> State"
  task_contexts :: "nat \<Rightarrow> KContext"
  intr_contexts :: "nat \<Rightarrow> IContext"
  kprocs :: "u32 \<Rightarrow> KProc"
  tss_esp0 :: "u32 \<Rightarrow> u32"
  sleep_locks :: "u32 \<Rightarrow> SleepLock"
  Kernel_pagedirectory :: "u32 \<Rightarrow> u32"
  Interrupt_Return :: u32
  FirstEntryToUserSpace :: u32

type_synonym switch = "kernel \<Rightarrow> kernel result"

definition PROCESS_ALARM_OFF :: u32 where "PROCESS_ALARM_OFF = 0"
definition SIZEOF_STATE :: u32 where "SIZEOF_STATE = 13"
definition SIZEOF_KCONTEXT :: u32 where "SIZEOF_KCONTEXT = 24"
definition SIZEOF_ICONTEXT :: u32 where "SIZEOF_ICONTEXT = 76"

definition NO_PID :: u32 where "NO_PID = - 1"

definition proc_at :: "kernel \<Rightarrow> nat \<Rightarrow> Process" where
  "proc_at s i = Scheduler_processes s i"

definition upd_proc :: "nat \<Rightarrow> (Process \<Rightarrow> Process) \<Rightarrow> kernel \<Rightarrow> kernel" where
  "upd_proc i f s = s\<lparr>Scheduler_processes := (Scheduler_processes s)(i := f (Scheduler_processes s i))\<rparr>"

definition set_status :: "nat \<Rightarrow> Process_Status \<Rightarrow> kernel \<Rightarrow> kernel" where
  "set_status i st = upd_proc i (\<lambda>p. p\<lparr>p_status := st\<rparr>)"

definition lock_procs :: "kernel \<Rightarrow> kernel result" where
  "lock_procs s =
     res_bind (SpinLock_Acquire (Process_lock s) (cpu s)) (\<lambda>(l, c). Inr (s\<lparr>Process_lock := l, cpu := c\<rparr>))"

definition unlock_procs :: "kernel \<Rightarrow> kernel" where
  "unlock_procs s =
     (let (l, c) = SpinLock_Release (Process_lock s) (cpu s) in s\<lparr>Process_lock := l, cpu := c\<rparr>)"

section \<open>Contexts and per-process state\<close>

definition STATE_FROM_PROC :: "kernel \<Rightarrow> nat \<Rightarrow> u32" where
  "STATE_FROM_PROC s i =
     stack_base (p_kernel_stack (proc_at s i)) + stack_size (p_kernel_stack (proc_at s i)) - SIZEOF_STATE"

definition State_Initialize :: "kernel \<Rightarrow> nat \<Rightarrow> kernel" where
  "State_Initialize s i =
     s\<lparr>proc_states := (proc_states s)(i := (proc_states s i)
        \<lparr>process := Some i, preemption_vetos := 0, interrupt_priority := 0\<rparr>)\<rparr>"

definition Context_Initialize :: "kernel \<Rightarrow> nat \<Rightarrow> kernel" where
  "Context_Initialize s i =
     (let sp1 = STATE_FROM_PROC s i - SIZEOF_ICONTEXT;
          s1 = upd_proc i (\<lambda>p. p\<lparr>p_intr_context := sp1\<rparr>) s;
          sp2 = sp1 - 4;
          s2 = s1\<lparr>mem := store32 (mem s1) sp2 (Interrupt_Return s1)\<rparr>;
          sp3 = sp2 - SIZEOF_KCONTEXT;
          s3 = upd_proc i (\<lambda>p. p\<lparr>p_task_context := sp3\<rparr>) s2
      in s3\<lparr>task_contexts := (task_contexts s3)(i :=
           \<lparr>kc_cr3 = 0, kc_edi = 0, kc_esi = 0, kc_ebx = 0, kc_ebp = 0, kc_eip = FirstEntryToUserSpace s3\<rparr>)\<rparr>)"

definition Context_SetupProcess :: "kernel \<Rightarrow> nat \<Rightarrow> kernel result" where
  "Context_SetupProcess s i =
     (let kt = kernel_task (state_current (cpu s));
          s1 = s\<lparr>proc_states := (proc_states s)(i := (proc_states s i)\<lparr>kernel_task := kt\<rparr>)\<rparr>;
          s2 = s1\<lparr>tss_esp0 := (tss_esp0 s1)(kp_cpu (kprocs s1 kt) := STATE_FROM_PROC s1 i)\<rparr>
      in res_bind (Timer_GetTicks (kp_timer (kprocs s2 kt))) (\<lambda>t.
           Inr (upd_proc i (\<lambda>p. p\<lparr>p_start_time := t\<rparr>) s2)))"

definition IContext_IsUserMode :: "IContext \<Rightarrow> bool" where
  "IContext_IsUserMode frame = (ic_cs frame = 24)"

definition IContext_Copy :: "IContext \<Rightarrow> IContext \<Rightarrow> IContext" where
  "IContext_Copy dst src = src"

definition IContext_Fork :: "IContext \<Rightarrow> IContext \<Rightarrow> IContext" where
  "IContext_Fork child parent = parent\<lparr>ic_eax := 0\<rparr>"

section \<open>Scheduler\<close>

definition Scheduler_Initialize :: "kernel \<Rightarrow> kernel" where
  "Scheduler_Initialize s =
     fold (\<lambda>i. set_status i PROCESS_IDLE) [0..<KERNEL_MAX_PROCS]
       (s\<lparr>State_lock := SpinLock_Initialize (State_lock s), Process_lock := SpinLock_Initialize (Process_lock s)\<rparr>)"

text \<open>One turn of the endless loop of \<open>Schedule\<close>: the new state and the next slot.\<close>

definition Schedule_turn :: "(nat \<Rightarrow> switch) \<Rightarrow> kernel \<Rightarrow> nat \<Rightarrow> (kernel \<times> nat) result" where
  "Schedule_turn switch_to s iproc =
     res_bind (lock_procs s) (\<lambda>s1.
     res_bind (if p_status (proc_at s1 iproc) = PROCESS_RUNNABLE
               then res_bind (Context_SetupProcess (set_status iproc PROCESS_RUNNING s1) iproc) (switch_to iproc)
               else Inr s1) (\<lambda>s2.
       Inr (unlock_procs s2, if iproc = KERNEL_MAX_PROCS - 1 then 0 else iproc + 1)))"

text \<open>
  The first turns of the loop from slot \<open>iproc\<close> on. \<open>switch_to n i\<close> is the switch to slot \<open>i\<close> when \<open>n\<close> turns are left, and
  \<open>others n\<close> is what the other processors do before the next turn, when this one holds no lock.
\<close>

fun schedule_turns :: "nat \<Rightarrow> (nat \<Rightarrow> nat \<Rightarrow> switch) \<Rightarrow> (nat \<Rightarrow> switch) \<Rightarrow> kernel \<Rightarrow> nat \<Rightarrow> (kernel \<times> nat) result" where
  "schedule_turns 0 switch_to others s iproc = Inr (s, iproc)"
| "schedule_turns (Suc n) switch_to others s iproc =
     res_bind (Schedule_turn (switch_to n) s iproc) (\<lambda>(s1, j).
     res_bind (others n s1) (\<lambda>s2.
       schedule_turns n switch_to others s2 j))"

definition Schedule :: "nat \<Rightarrow> (nat \<Rightarrow> nat \<Rightarrow> switch) \<Rightarrow> (nat \<Rightarrow> switch) \<Rightarrow> kernel \<Rightarrow> (kernel \<times> nat) result" where
  "Schedule n switch_to others s = schedule_turns n switch_to others s 0"

definition book_scan :: "kernel \<Rightarrow> nat option" where
  "book_scan s = find (\<lambda>i. p_status (proc_at s i) = PROCESS_IDLE) [0..<KERNEL_MAX_PROCS]"

text \<open>
  \<open>Scheduler_Book\<close> scans again until a slot is idle; with nobody else running, a scan that
  finds none repeats for ever.
\<close>

definition Scheduler_Book :: "kernel \<Rightarrow> (nat \<times> kernel) result" where
  "Scheduler_Book s =
     res_bind (lock_procs s) (\<lambda>s1.
       case book_scan s1 of
         None \<Rightarrow> Inl Loops_Forever
       | Some i \<Rightarrow>
           (let s2 = set_status i PROCESS_BOOKED s1;
                s3 = upd_proc i (\<lambda>p. p\<lparr>p_id := Process_next_pid s2\<rparr>) s2;
                s4 = s3\<lparr>Process_next_pid := Process_next_pid s3 + 1\<rparr>
            in Inr (i, unlock_procs s4)))"

definition Scheduler_Preempt :: "kernel \<Rightarrow> nat \<Rightarrow> bool result" where
  "Scheduler_Preempt s i =
     (if p_status (proc_at s i) = PROCESS_RUNNING
      then res_bind (Timer_GetTicks (kp_timer (kprocs s (kernel_task (proc_states s i))))) (\<lambda>t.
        Inr (t > p_start_time (proc_at s i) + ucast (p_run_time (proc_at s i))))
      else Inr False)"

definition raise_one :: "u32 \<Rightarrow> nat \<Rightarrow> kernel \<Rightarrow> kernel" where
  "raise_one alarm i s =
     (if p_status (proc_at s i) = PROCESS_ASLEEP \<and> p_wakeup_on (proc_at s i) = alarm
      then upd_proc i (\<lambda>p. p\<lparr>p_status := PROCESS_RUNNABLE, p_wakeup_on := 0\<rparr>) s
      else s)"

definition Scheduler_RaiseAlarm :: "kernel \<Rightarrow> u32 \<Rightarrow> kernel" where
  "Scheduler_RaiseAlarm s alarm = fold (raise_one alarm) [0..<KERNEL_MAX_PROCS] s"

definition Scheduler_GetProcess :: "kernel \<Rightarrow> u32 \<Rightarrow> nat option" where
  "Scheduler_GetProcess s proc_id = find (\<lambda>i. p_id (proc_at s i) = proc_id) [0..<KERNEL_MAX_PROCS]"

section \<open>Processes\<close>

definition Process_FirstEntryToUserSpace :: "kernel \<Rightarrow> kernel" where
  "Process_FirstEntryToUserSpace s = unlock_procs s"

definition STACK_ORDER :: nat where
  "STACK_ORDER = unat (drop_bit KERNEL_PAGE_SIZE_IN_BITS KERNEL_STACK_SIZE)"

definition Process_Initialize :: "kernel \<Rightarrow> nat \<Rightarrow> (bool \<times> kernel) result" where
  "Process_Initialize s i =
     res_bind (Page_Acquire s STACK_ORDER) (\<lambda>(stack, s1).
       if stack = PAGE_LIST_NULL then Inr (False, s1)
       else
         (let s2 = upd_proc i (\<lambda>p. p\<lparr>p_kernel_stack := (p_kernel_stack p)
                \<lparr>stack_base := stack, stack_size := KERNEL_STACK_SIZE\<rparr>\<rparr>) s1;
              s3 = Context_Initialize (State_Initialize s2 i) i
          in res_bind (Paging_Initialize s3 (Kernel_pagedirectory s3)) (\<lambda>(pgd, s4).
               case pgd of
                 None \<Rightarrow> Inr (False, s4)
               | Some d \<Rightarrow> Inr (True, s4\<lparr>task_contexts := (task_contexts s4)(i := (task_contexts s4 i)\<lparr>kc_cr3 := d\<rparr>)\<rparr>))))"

definition Process_SleepOn :: "switch \<Rightarrow> kernel \<Rightarrow> nat \<Rightarrow> u32 \<Rightarrow> kernel result" where
  "Process_SleepOn switch s i lock =
     res_bind (switch (upd_proc i (\<lambda>p. p\<lparr>p_wakeup_on := lock, p_status := PROCESS_ASLEEP\<rparr>) s)) (\<lambda>s1.
       Inr (upd_proc i (\<lambda>p. p\<lparr>p_wakeup_on := PROCESS_ALARM_OFF\<rparr>) s1))"

definition Process_Preempt :: "switch \<Rightarrow> kernel \<Rightarrow> kernel result" where
  "Process_Preempt switch s =
     (if \<not> STATE_PREEMPTIBLE (cpu s) then Inr s
      else case process (state_current (cpu s)) of
        None \<Rightarrow> Inr s
      | Some i \<Rightarrow>
          res_bind (lock_procs s) (\<lambda>s1.
          res_bind (Scheduler_Preempt s1 i) (\<lambda>b.
          res_bind (if b then switch (set_status i PROCESS_RUNNABLE s1) else Inr s1) (\<lambda>s2.
            Inr (unlock_procs s2)))))"

definition Process_Fork :: "kernel \<Rightarrow> nat \<Rightarrow> (u32 \<times> kernel) result" where
  "Process_Fork s parent =
     res_bind (Scheduler_Book s) (\<lambda>(child, s1).
     res_bind (Process_Initialize s1 child) (\<lambda>(ok1, s2).
     res_bind (if \<not> ok1 then Inr (False, s2)
               else Paging_Clone s2 (kc_cr3 (task_contexts s2 parent)) (kc_cr3 (task_contexts s2 child))) (\<lambda>(ok, s3).
       if \<not> ok then
         res_bind (Page_Release s3 (stack_base (p_kernel_stack (proc_at s3 child))) STACK_ORDER) (\<lambda>s4.
         res_bind (lock_procs s4) (\<lambda>s5.
           Inr (NO_PID, unlock_procs (set_status child PROCESS_IDLE s5))))
       else
         (let p = proc_at s3 parent;
              s4 = upd_proc child (\<lambda>c. c\<lparr>p_parent := Some parent, p_child := None, p_sibling := p_child p,
                     p_num_children := 0, p_exit_code := - 1, p_run_time := p_run_time p, p_endpoint := p_endpoint p\<rparr>) s3;
              s5 = s4\<lparr>intr_contexts := (intr_contexts s4)(child :=
                     IContext_Fork (intr_contexts s4 child) (intr_contexts s4 parent))\<rparr>;
              s6 = upd_proc parent (\<lambda>q. q\<lparr>p_num_children := p_num_children q + 1, p_child := Some child\<rparr>) s5
          in res_bind (lock_procs s6) (\<lambda>s7.
               let s8 = unlock_procs (set_status child PROCESS_RUNNABLE s7)
               in Inr (p_id (proc_at s8 parent), s8))))))"

definition Process_ShiftEndPoint :: "kernel \<Rightarrow> nat \<Rightarrow> u32 \<Rightarrow> kernel result" where
  "Process_ShiftEndPoint s i shift =
     (let old_end = p_endpoint (proc_at s i);
          new_end = old_end + shift;
          cr3 = kc_cr3 (task_contexts s i)
      in if shift = 0 then Inr s
         else if sint shift < 0 then
           res_bind (Paging_UnmapPages s cr3 new_end (- shift)) (\<lambda>(_, s1).
             Inr (upd_proc i (\<lambda>p. p\<lparr>p_endpoint := new_end\<rparr>) s1))
         else
           res_bind (Paging_MapPages s cr3 old_end shift) (\<lambda>(size_alloc, s1).
             let old_page = old_end AND NOT (KERNEL_PAGE_SIZE_IN_BYTES - 1);
                 new_end' = (if old_page + size_alloc < new_end then old_page + size_alloc else new_end)
             in Inr (upd_proc i (\<lambda>p. p\<lparr>p_endpoint := new_end'\<rparr>) s1)))"

text \<open>
  The scan of the children after the first one: a dead one is reaped. The list of siblings has at most
  one node for each slot, which bounds the walk.
\<close>

fun wait_siblings :: "nat \<Rightarrow> kernel \<Rightarrow> nat \<Rightarrow> nat \<Rightarrow> u32 \<Rightarrow> (u32 \<times> kernel) result" where
  "wait_siblings 0 s i kid retval = Inl Loops_Forever"
| "wait_siblings (Suc n) s i kid retval =
     (case p_sibling (proc_at s kid) of
        None \<Rightarrow> Inr (retval, s)
      | Some sib \<Rightarrow>
          if p_status (proc_at s sib) = PROCESS_DEAD then
            (let r = p_id (proc_at s sib);
                 s1 = set_status sib PROCESS_IDLE s;
                 s2 = upd_proc i (\<lambda>p. p\<lparr>p_num_children := p_num_children p - 1\<rparr>) s1;
                 s3 = upd_proc kid (\<lambda>k. k\<lparr>p_sibling := p_sibling (proc_at s2 sib)\<rparr>) s2
             in Inr (r, s3))
          else wait_siblings n s i sib retval)"

text \<open>The loop of \<open>Process_Wait\<close> may sleep any number of times, bounded here by the first argument.\<close>

fun wait_loop :: "nat \<Rightarrow> switch \<Rightarrow> kernel \<Rightarrow> nat \<Rightarrow> u32 \<Rightarrow> (u32 \<times> kernel) result" where
  "wait_loop 0 switch s i retval = Inl Loops_Forever"
| "wait_loop (Suc n) switch s i retval =
     (if p_num_children (proc_at s i) = 0 then Inr (NO_PID, s)
      else case p_child (proc_at s i) of
        None \<Rightarrow> Inl Null_Call
      | Some kid \<Rightarrow>
          if p_status (proc_at s kid) = PROCESS_DEAD then
            (let r = p_id (proc_at s kid);
                 s1 = set_status kid PROCESS_IDLE s;
                 s2 = upd_proc i (\<lambda>p. p\<lparr>p_num_children := p_num_children p - 1,
                        p_child := p_sibling (proc_at s1 kid)\<rparr>) s1
             in Inr (r, s2))
          else
            res_bind (wait_siblings (KERNEL_MAX_PROCS + 1) s i kid retval) (\<lambda>(r, s1).
            res_bind (switch (set_status i PROCESS_ASLEEP s1)) (\<lambda>s2.
              wait_loop n switch s2 i r)))"

definition Process_Wait :: "nat \<Rightarrow> switch \<Rightarrow> kernel \<Rightarrow> nat \<Rightarrow> (u32 \<times> kernel) result" where
  "Process_Wait n switch s i =
     res_bind (lock_procs s) (\<lambda>s1.
     res_bind (wait_loop n switch s1 i NO_PID) (\<lambda>(r, s2).
       Inr (r, unlock_procs s2)))"

fun adopt_kids :: "nat \<Rightarrow> kernel \<Rightarrow> nat option \<Rightarrow> kernel result" where
  "adopt_kids n s None = Inr s"
| "adopt_kids 0 s (Some kid) = Inl Loops_Forever"
| "adopt_kids (Suc n) s (Some kid) =
     (let s1 = upd_proc kid (\<lambda>p. p\<lparr>p_parent := Process_primordial s\<rparr>) s
      in adopt_kids n s1 (p_sibling (proc_at s1 kid)))"

definition Process_Terminate :: "kernel \<Rightarrow> nat \<Rightarrow> u32 \<Rightarrow> kernel result" where
  "Process_Terminate s i status =
     res_bind (adopt_kids (KERNEL_MAX_PROCS + 1) s (p_child (proc_at s i))) (\<lambda>s1.
     res_bind (Paging_Terminate s1 (kc_cr3 (task_contexts s1 i))) (\<lambda>s2.
     res_bind (Page_Release s2 (stack_base (p_kernel_stack (proc_at s2 i))) STACK_ORDER) (\<lambda>s3.
       Inr (upd_proc i (\<lambda>p. p\<lparr>p_exit_code := status, p_status := PROCESS_DEAD\<rparr>) s3))))"

section \<open>Sleep locks\<close>

definition upd_sleep :: "u32 \<Rightarrow> (SleepLock \<Rightarrow> SleepLock) \<Rightarrow> kernel \<Rightarrow> kernel" where
  "upd_sleep l f s = s\<lparr>sleep_locks := (sleep_locks s)(l := f (sleep_locks s l))\<rparr>"

definition lock_access :: "u32 \<Rightarrow> kernel \<Rightarrow> kernel result" where
  "lock_access l s =
     res_bind (SpinLock_Acquire (access_lock (sleep_locks s l)) (cpu s)) (\<lambda>(a, c).
       Inr ((upd_sleep l (\<lambda>k. k\<lparr>access_lock := a\<rparr>) s)\<lparr>cpu := c\<rparr>))"

definition unlock_access :: "u32 \<Rightarrow> kernel \<Rightarrow> kernel" where
  "unlock_access l s =
     (let (a, c) = SpinLock_Release (access_lock (sleep_locks s l)) (cpu s)
      in (upd_sleep l (\<lambda>k. k\<lparr>access_lock := a\<rparr>) s)\<lparr>cpu := c\<rparr>)"

definition SleepLock_Initialize :: "kernel \<Rightarrow> u32 \<Rightarrow> kernel" where
  "SleepLock_Initialize s l =
     upd_sleep l (\<lambda>k. k\<lparr>access_lock := SpinLock_Initialize (access_lock k), locked := False\<rparr>) s"

text \<open>
  The number of times the process is put to sleep is bounded by the first argument. Twice in each turn the process holds no
  lock: after it gave back the access lock and before it has the process lock, and after it gave back the process lock and
  before it has the access lock again. \<open>others n False\<close> and \<open>others n True\<close> are what other processors do there.
\<close>

fun sleep_acquire_loop :: "nat \<Rightarrow> (nat \<Rightarrow> bool \<Rightarrow> switch) \<Rightarrow> switch \<Rightarrow> kernel \<Rightarrow> nat \<Rightarrow> u32 \<Rightarrow> kernel result" where
  "sleep_acquire_loop 0 others switch s i l = (if locked (sleep_locks s l) then Inl Loops_Forever else Inr s)"
| "sleep_acquire_loop (Suc n) others switch s i l =
     (if locked (sleep_locks s l) then
        res_bind (others n False (unlock_access l s)) (\<lambda>s1.
        res_bind (lock_procs s1) (\<lambda>s2.
        res_bind (Process_SleepOn switch s2 i l) (\<lambda>s3.
        res_bind (others n True (unlock_procs s3)) (\<lambda>s4.
        res_bind (lock_access l s4) (\<lambda>s5.
          sleep_acquire_loop n others switch s5 i l)))))
      else Inr s)"

definition SleepLock_Acquire :: "nat \<Rightarrow> (nat \<Rightarrow> bool \<Rightarrow> switch) \<Rightarrow> switch \<Rightarrow> kernel \<Rightarrow> u32 \<Rightarrow> kernel result" where
  "SleepLock_Acquire n others switch s l =
     (case process (state_current (cpu s)) of
        None \<Rightarrow> Inr s
      | Some i \<Rightarrow>
          res_bind (lock_access l s) (\<lambda>s1.
          res_bind (sleep_acquire_loop n others switch s1 i l) (\<lambda>s2.
            Inr (unlock_access l (upd_sleep l (\<lambda>k. k\<lparr>locked := True\<rparr>) s2)))))"

text \<open>An operation of another processor, which has words of its own.\<close>

definition on_processor :: "cpu_state \<Rightarrow> switch \<Rightarrow> switch" where
  "on_processor c f s = res_bind (f (s\<lparr>cpu := c\<rparr>)) (\<lambda>s'. Inr (s'\<lparr>cpu := cpu s\<rparr>))"

definition SleepLock_Release :: "kernel \<Rightarrow> u32 \<Rightarrow> kernel result" where
  "SleepLock_Release s l =
     res_bind (lock_access l s) (\<lambda>s1.
     res_bind (lock_procs (upd_sleep l (\<lambda>k. k\<lparr>locked := False\<rparr>) s1)) (\<lambda>s2.
       Inr (unlock_access l (unlock_procs (Scheduler_RaiseAlarm s2 l)))))"

end
