(* ===== verification/AVOS_Process_Correct.thy ===== *)
theory AVOS_Process_Correct
  imports AVOS_Process AVOS_Paging_Correct
begin

text \<open>
  Properties of the scheduler, the process operations and the sleep locks.
\<close>

section \<open>The process table\<close>

lemma proc_at_simps [simp]:
  "proc_at (upd_proc i f s) j = (if j = i then f (proc_at s i) else proc_at s j)"
  "proc_at (set_status i st s) j = (if j = i then (proc_at s i)\<lparr>p_status := st\<rparr> else proc_at s j)"
  "proc_at (unlock_procs s) j = proc_at s j"
  "proc_at (upd_sleep l g s) j = proc_at s j"
  "proc_at (unlock_access l s) j = proc_at s j"
  "proc_at (s\<lparr>Process_next_pid := n\<rparr>) j = proc_at s j"
  by (simp_all add: proc_at_def upd_proc_def set_status_def unlock_procs_def unlock_access_def upd_sleep_def Let_def
      split: prod.splits)

lemma lock_procs_eq:
  "lock_procs s =
     (if flag (Process_lock s) then Inl Spins_Forever
      else Inr (s\<lparr>Process_lock := (Process_lock s)\<lparr>flag := True\<rparr>, cpu := STATE_INCREMENT_PREEMPTION_VETO (cpu s)\<rparr>))"
  by (simp add: lock_procs_def SpinLock_Acquire_eq)

lemma lock_access_eq:
  "lock_access l s =
     (if flag (access_lock (sleep_locks s l)) then Inl Spins_Forever
      else Inr ((upd_sleep l (\<lambda>k. k\<lparr>access_lock := (access_lock k)\<lparr>flag := True\<rparr>\<rparr>) s)
        \<lparr>cpu := STATE_INCREMENT_PREEMPTION_VETO (cpu s)\<rparr>))"
  by (simp add: lock_access_def SpinLock_Acquire_eq upd_sleep_def)

lemma proc_at_lock_procs: "lock_procs s = Inr s' \<Longrightarrow> proc_at s' i = proc_at s i"
  by (auto simp: lock_procs_eq proc_at_def split: if_splits)

section \<open>Alarms\<close>

lemma raise_one_at:
  "proc_at (raise_one alarm i s) j =
     (if j = i \<and> p_status (proc_at s i) = PROCESS_ASLEEP \<and> p_wakeup_on (proc_at s i) = alarm
      then (proc_at s i)\<lparr>p_status := PROCESS_RUNNABLE, p_wakeup_on := 0\<rparr> else proc_at s j)"
  by (simp add: raise_one_def)

lemma raise_fold_at:
  "distinct is \<Longrightarrow> proc_at (fold (raise_one alarm) is s) j =
     (if j \<in> set is \<and> p_status (proc_at s j) = PROCESS_ASLEEP \<and> p_wakeup_on (proc_at s j) = alarm
      then (proc_at s j)\<lparr>p_status := PROCESS_RUNNABLE, p_wakeup_on := 0\<rparr> else proc_at s j)"
  by (induction "is" arbitrary: s) (auto simp: raise_one_at)

lemma raise_one_rest:
  "sleep_locks (raise_one alarm i s) = sleep_locks s" "Process_lock (raise_one alarm i s) = Process_lock s"
  "cpu (raise_one alarm i s) = cpu s"
  by (simp_all add: raise_one_def upd_proc_def)

lemma RaiseAlarm_rest [simp]:
  "sleep_locks (Scheduler_RaiseAlarm s alarm) = sleep_locks s"
  "Process_lock (Scheduler_RaiseAlarm s alarm) = Process_lock s"
  "cpu (Scheduler_RaiseAlarm s alarm) = cpu s"
proof -
  have "sleep_locks (fold (raise_one alarm) is s) = sleep_locks s \<and>
      Process_lock (fold (raise_one alarm) is s) = Process_lock s \<and> cpu (fold (raise_one alarm) is s) = cpu s" for "is"
    by (induction "is" arbitrary: s) (simp_all add: raise_one_rest)
  then show "sleep_locks (Scheduler_RaiseAlarm s alarm) = sleep_locks s"
    and "Process_lock (Scheduler_RaiseAlarm s alarm) = Process_lock s"
    and "cpu (Scheduler_RaiseAlarm s alarm) = cpu s" by (simp_all add: Scheduler_RaiseAlarm_def)
qed

lemma RaiseAlarm_at:
  "proc_at (Scheduler_RaiseAlarm s alarm) j =
     (if j < KERNEL_MAX_PROCS \<and> p_status (proc_at s j) = PROCESS_ASLEEP \<and> p_wakeup_on (proc_at s j) = alarm
      then (proc_at s j)\<lparr>p_status := PROCESS_RUNNABLE, p_wakeup_on := 0\<rparr> else proc_at s j)"
  unfolding Scheduler_RaiseAlarm_def by (subst raise_fold_at) simp_all

section \<open>Waiting for children\<close>

lemma wait_siblings_retval:
  "(\<exists>e. wait_siblings n s i kid r = Inl e \<and> wait_siblings n s i kid r' = Inl e) \<or>
   (\<exists>x x' s1. wait_siblings n s i kid r = Inr (x, s1) \<and> wait_siblings n s i kid r' = Inr (x', s1))"
  by (induction n arbitrary: kid) (auto simp: Let_def split: option.splits)

declare wait_siblings.simps [simp del]

lemma wait_loop_retval: "wait_loop n switch s i r = wait_loop n switch s i r'"
proof (induction n arbitrary: s r r')
  case 0
  then show ?case by simp
next
  case (Suc n)
  have eq: "(\<lambda>s2. wait_loop n switch s2 i x) = (\<lambda>s2. wait_loop n switch s2 i x')" for x x'
    by (intro ext Suc.IH)
  have "res_bind (wait_siblings m s i kid r) (\<lambda>(x, s1). res_bind (switch (set_status i PROCESS_ASLEEP s1)) (\<lambda>s2. wait_loop n switch s2 i x)) =
      res_bind (wait_siblings m s i kid r') (\<lambda>(x, s1). res_bind (switch (set_status i PROCESS_ASLEEP s1)) (\<lambda>s2. wait_loop n switch s2 i x))"
    for m kid
    using wait_siblings_retval [of m s i kid r r']
  proof (elim disjE exE conjE)
    fix x x' s1
    assume w: "wait_siblings m s i kid r = Inr (x, s1)" "wait_siblings m s i kid r' = Inr (x', s1)"
    show ?thesis unfolding w res_bind_Inr prod.case by (subst eq [of x x']) (rule refl)
  qed simp
  then show ?case by (auto split: option.splits)
qed

section \<open>Properties\<close>

text \<open>
  C23. \<open>Scheduler_RaiseAlarm\<close> makes runnable exactly the processes of the table that sleep on
  the alarm, clears what they wait for, and leaves every other process as it was.
\<close>

theorem RaiseAlarm_wakes_exactly:
  "proc_at (Scheduler_RaiseAlarm s alarm) j =
     (if j < KERNEL_MAX_PROCS \<and> p_status (proc_at s j) = PROCESS_ASLEEP \<and> p_wakeup_on (proc_at s j) = alarm
      then (proc_at s j)\<lparr>p_status := PROCESS_RUNNABLE, p_wakeup_on := 0\<rparr> else proc_at s j)"
  by (rule RaiseAlarm_at)

text \<open>
  C24. \<open>Scheduler_Book\<close> hands out a slot that was idle, marks it booked with the next process
  id, advances the id, touches no other slot and leaves the process lock free.
\<close>

theorem Scheduler_Book_slot:
  assumes "\<not> flag (Process_lock s)" and "p_status (proc_at s k) = PROCESS_IDLE" and "k < KERNEL_MAX_PROCS"
  shows "\<exists>i s'. Scheduler_Book s = Inr (i, s') \<and> i < KERNEL_MAX_PROCS \<and>
    p_status (proc_at s i) = PROCESS_IDLE \<and>
    proc_at s' i = (proc_at s i)\<lparr>p_status := PROCESS_BOOKED, p_id := Process_next_pid s\<rparr> \<and>
    (\<forall>j. j \<noteq> i \<longrightarrow> proc_at s' j = proc_at s j) \<and>
    Process_next_pid s' = Process_next_pid s + 1 \<and> \<not> flag (Process_lock s')"
proof -
  obtain s1 where s1: "lock_procs s = Inr s1" using assms(1) by (simp add: lock_procs_eq)
  have same: "proc_at s1 j = proc_at s j" for j using s1 by (rule proc_at_lock_procs)
  have "book_scan s1 \<noteq> None"
    using assms(2,3) unfolding book_scan_def find_None_iff by (auto simp: same)
  then obtain i where i: "book_scan s1 = Some i" by blast
  then have idle: "p_status (proc_at s1 i) = PROCESS_IDLE" "i < KERNEL_MAX_PROCS"
    unfolding book_scan_def find_Some_iff by auto
  have pid: "Process_next_pid s1 = Process_next_pid s" using s1 by (auto simp: lock_procs_eq split: if_splits)
  show ?thesis
    using s1 i idle same pid
    by (simp add: Scheduler_Book_def Let_def unlock_procs_def SpinLock_Release_def atomic_flag_clear_def
        upd_proc_def set_status_def) (auto simp: proc_at_def)
qed

definition boot_kernel :: kernel where
  "boot_kernel = physmem.extend no_pages
     \<lparr>Scheduler_processes = (\<lambda>_. \<lparr>p_id = 0, p_user = 0, p_parent = None, p_child = None, p_sibling = None,
        p_num_children = 0, p_status = PROCESS_IDLE, p_exit_code = 0, p_endpoint = 0,
        p_kernel_stack = \<lparr>stack_base = 0, stack_ptr = 0, stack_size = 0, stack_flags = 0\<rparr>,
        p_task_context = 0, p_intr_context = 0, p_wakeup_on = 0, p_start_time = 0, p_run_time = 0\<rparr>),
      Process_lock = \<lparr>flag = False\<rparr>, State_lock = \<lparr>flag = False\<rparr>, Process_next_pid = 1,
      Process_primordial = None, proc_states = (\<lambda>_. state_current (cpu no_pages)),
      task_contexts = (\<lambda>_. \<lparr>kc_cr3 = 0, kc_edi = 0, kc_esi = 0, kc_ebx = 0, kc_ebp = 0, kc_eip = 0\<rparr>),
      intr_contexts = (\<lambda>_. \<lparr>ic_edi = 0, ic_esi = 0, ic_ebp = 0, ic_oesp = 0, ic_ebx = 0, ic_edx = 0, ic_ecx = 0,
        ic_eax = 0, ic_gs = 0, ic_fs = 0, ic_es = 0, ic_ds = 0, ic_vector = 0, ic_err = 0, ic_eip = 0, ic_cs = 0,
        ic_eflags = 0, ic_esp = 0, ic_ss = 0\<rparr>),
      kprocs = (\<lambda>_. \<lparr>kp_cpu = 0, kp_scheduler = 0, kp_timer = \<lparr>seq_counter = 0, ticks = 0\<rparr>\<rparr>),
      tss_esp0 = (\<lambda>_. 0), sleep_locks = (\<lambda>_. \<lparr>access_lock = \<lparr>flag = False\<rparr>, locked = False\<rparr>),
      Kernel_pagedirectory = (\<lambda>_. 0), Interrupt_Return = 0, FirstEntryToUserSpace = 0\<rparr>"

lemma boot_kernel_simps [simp]:
  "Process_lock boot_kernel = \<lparr>flag = False\<rparr>" "Process_next_pid boot_kernel = 1"
  "sleep_locks boot_kernel l = \<lparr>access_lock = \<lparr>flag = False\<rparr>, locked = False\<rparr>"
  "p_status (proc_at boot_kernel i) = PROCESS_IDLE" "p_id (proc_at boot_kernel i) = 0"
  "cpu boot_kernel = cpu no_pages"
  by (simp_all add: boot_kernel_def proc_at_def physmem.defs)

theorem Scheduler_Book_slot_witness:
  "\<exists>i s'. Scheduler_Book boot_kernel = Inr (i, s') \<and> i < KERNEL_MAX_PROCS \<and>
    p_status (proc_at s' i) = PROCESS_BOOKED \<and> p_id (proc_at s' i) = 1 \<and> \<not> flag (Process_lock s')"
proof -
  have "\<exists>i s'. Scheduler_Book boot_kernel = Inr (i, s') \<and> i < KERNEL_MAX_PROCS \<and>
      p_status (proc_at boot_kernel i) = PROCESS_IDLE \<and>
      proc_at s' i = (proc_at boot_kernel i)\<lparr>p_status := PROCESS_BOOKED, p_id := Process_next_pid boot_kernel\<rparr> \<and>
      (\<forall>j. j \<noteq> i \<longrightarrow> proc_at s' j = proc_at boot_kernel j) \<and>
      Process_next_pid s' = Process_next_pid boot_kernel + 1 \<and> \<not> flag (Process_lock s')"
    by (rule Scheduler_Book_slot [of boot_kernel 0]) (simp_all add: KERNEL_MAX_PROCS_def)
  then show ?thesis by force
qed

text \<open>A release on another processor, while the access lock that was just given back and the process lock are free.\<close>

lemma release_elsewhere:
  assumes "\<not> flag (Process_lock s)"
  obtains r where "on_processor c (\<lambda>t. SleepLock_Release t l) (unlock_access l s) = Inr r" "\<not> locked (sleep_locks r l)" "\<not> flag (Process_lock r)"
    "\<And>j. proc_at r j = (if j < KERNEL_MAX_PROCS \<and> p_status (proc_at s j) = PROCESS_ASLEEP \<and> p_wakeup_on (proc_at s j) = l
        then (proc_at s j)\<lparr>p_status := PROCESS_RUNNABLE, p_wakeup_on := 0\<rparr> else proc_at s j)"
proof -
  let ?s1 = "(unlock_access l s)\<lparr>cpu := c\<rparr>"
  have f1: "\<not> flag (access_lock (sleep_locks ?s1 l))" "Process_lock ?s1 = Process_lock s" "proc_at ?s1 j = proc_at s j" for j
    by (simp_all add: unlock_access_def SpinLock_Release_def atomic_flag_clear_def upd_sleep_def Let_def proc_at_def)
  obtain a where a: "lock_access l ?s1 = Inr a" using f1(1) by (simp add: lock_access_eq)
  have fa: "Process_lock a = Process_lock s" "proc_at a j = proc_at s j" for j
    using a f1 by (auto simp: lock_access_eq upd_sleep_def proc_at_def split: if_splits)
  let ?b = "upd_sleep l (\<lambda>k. k\<lparr>locked := False\<rparr>) a"
  have "\<not> flag (Process_lock ?b)" using fa(1) assms by (simp add: upd_sleep_def)
  then obtain d where d: "lock_procs ?b = Inr d" by (simp add: lock_procs_eq)
  have fd: "\<not> locked (sleep_locks d l)" using d by (auto simp: lock_procs_eq upd_sleep_def split: if_splits)
  have pd: "proc_at d j = proc_at s j" for j using proc_at_lock_procs [OF d, of j] fa(2) by simp
  let ?r = "(unlock_access l (unlock_procs (Scheduler_RaiseAlarm d l)))\<lparr>cpu := cpu (unlock_access l s)\<rparr>"
  show thesis
  proof (rule that [of ?r])
    show "on_processor c (\<lambda>t. SleepLock_Release t l) (unlock_access l s) = Inr ?r"
      using a d by (simp add: on_processor_def SleepLock_Release_def)
    show "\<not> locked (sleep_locks ?r l)" "\<not> flag (Process_lock ?r)"
      using fd by (simp_all add: unlock_access_def unlock_procs_def SpinLock_Release_def atomic_flag_clear_def upd_sleep_def Let_def)
    fix j
    have "proc_at ?r j = proc_at (Scheduler_RaiseAlarm d l) j"
      by (simp add: proc_at_def unlock_access_def unlock_procs_def upd_sleep_def Let_def split: prod.splits)
    then show "proc_at ?r j = (if j < KERNEL_MAX_PROCS \<and> p_status (proc_at s j) = PROCESS_ASLEEP \<and> p_wakeup_on (proc_at s j) = l
        then (proc_at s j)\<lparr>p_status := PROCESS_RUNNABLE, p_wakeup_on := 0\<rparr> else proc_at s j)"
      by (simp add: RaiseAlarm_at pd)
  qed
qed

text \<open>A path over live siblings, by slot numbers, and the scan along it.\<close>

fun live_path :: "kernel \<Rightarrow> nat \<Rightarrow> nat list \<Rightarrow> nat \<Rightarrow> bool" where
  "live_path s k [] z = (k = z)"
| "live_path s k (j # js) z = (p_sibling (proc_at s k) = Some j \<and> p_status (proc_at s j) \<noteq> PROCESS_DEAD \<and> live_path s j js z)"

definition reap_sibling :: "nat \<Rightarrow> nat \<Rightarrow> nat \<Rightarrow> kernel \<Rightarrow> kernel" where
  "reap_sibling i prev sib s =
     upd_proc prev (\<lambda>k. k\<lparr>p_sibling := p_sibling (proc_at s sib)\<rparr>)
       (upd_proc i (\<lambda>p. p\<lparr>p_num_children := p_num_children p - 1\<rparr>) (set_status sib PROCESS_IDLE s))"

lemma wait_siblings_path:
  assumes "live_path s k js prev" "length js < n" "p_sibling (proc_at s prev) = Some sib" "p_status (proc_at s sib) = PROCESS_DEAD"
  shows "wait_siblings n s i k r = Inr (p_id (proc_at s sib), reap_sibling i prev sib s)"
  using assms
proof (induction n arbitrary: k js)
  case (Suc n)
  show ?case
  proof (cases js)
    case Nil
    then show ?thesis using Suc.prems by (simp add: wait_siblings.simps reap_sibling_def Let_def)
  next
    case (Cons j js')
    then show ?thesis using Suc.IH [of j js'] Suc.prems by (simp add: wait_siblings.simps)
  qed
qed simp

lemma live_path_lock: "lock_procs s = Inr s' \<Longrightarrow> live_path s' k js z \<longleftrightarrow> live_path s k js z"
  by (induction js arbitrary: k) (simp_all add: proc_at_lock_procs)

text \<open>
  C26. \<open>Process_Wait\<close> drops a dead child that is not the first one: when the first child lives and the siblings behind it live up to
  one that is dead, the call frees the slot of the dead child, takes it out of the list of siblings and counts it off, touches no
  other slot, and then goes to sleep. After that it waits on as if it had just been called, so that the id of the child it
  reaped is lost.
\<close>

theorem Process_Wait_drops_sibling:
  assumes "\<not> flag (Process_lock s)" and "p_num_children (proc_at s i) \<noteq> 0" and "p_child (proc_at s i) = Some kid"
    and "p_status (proc_at s kid) \<noteq> PROCESS_DEAD" and "live_path s kid js prev" and "length js \<le> KERNEL_MAX_PROCS"
    and "p_sibling (proc_at s prev) = Some sib" and "p_status (proc_at s sib) = PROCESS_DEAD" and "i \<notin> {prev, sib}" and "sib \<noteq> prev"
  shows "\<exists>s1. (\<forall>n switch. Process_Wait (Suc n) switch s i =
       res_bind (switch s1) (\<lambda>s2. res_bind (wait_loop n switch s2 i NO_PID) (\<lambda>(r, s3). Inr (r, unlock_procs s3)))) \<and>
     proc_at s1 sib = (proc_at s sib)\<lparr>p_status := PROCESS_IDLE\<rparr> \<and>
     proc_at s1 prev = (proc_at s prev)\<lparr>p_sibling := p_sibling (proc_at s sib)\<rparr> \<and>
     proc_at s1 i = (proc_at s i)\<lparr>p_num_children := p_num_children (proc_at s i) - 1, p_status := PROCESS_ASLEEP\<rparr> \<and>
     (\<forall>j. j \<notin> {i, prev, sib} \<longrightarrow> proc_at s1 j = proc_at s j)"
proof -
  obtain s0 where s0: "lock_procs s = Inr s0" using assms(1) by (simp add: lock_procs_eq)
  have same: "proc_at s0 j = proc_at s j" for j using s0 by (rule proc_at_lock_procs)
  let ?s1 = "set_status i PROCESS_ASLEEP (reap_sibling i prev sib s0)"
  have scan: "wait_siblings (KERNEL_MAX_PROCS + 1) s0 i kid r = Inr (p_id (proc_at s sib), reap_sibling i prev sib s0)" for r
    using wait_siblings_path [of s0 kid js prev "KERNEL_MAX_PROCS + 1" sib i r] assms(5-8) live_path_lock [OF s0] by (simp add: same)
  have "Process_Wait (Suc n) switch s i =
      res_bind (switch ?s1) (\<lambda>s2. res_bind (wait_loop n switch s2 i NO_PID) (\<lambda>(r, s3). Inr (r, unlock_procs s3)))" for n switch
  proof -
    have "wait_loop (Suc n) switch s0 i NO_PID = res_bind (switch ?s1) (\<lambda>s2. wait_loop n switch s2 i (p_id (proc_at s sib)))"
      using assms(2-4) by (simp only: wait_loop.simps same option.case if_False scan res_bind_Inr prod.case)
    also have "(\<lambda>s2. wait_loop n switch s2 i (p_id (proc_at s sib))) = (\<lambda>s2. wait_loop n switch s2 i NO_PID)"
      by (intro ext wait_loop_retval)
    finally show ?thesis using s0 by (simp add: Process_Wait_def res_bind_assoc)
  qed
  moreover have "proc_at ?s1 sib = (proc_at s sib)\<lparr>p_status := PROCESS_IDLE\<rparr>"
    "proc_at ?s1 prev = (proc_at s prev)\<lparr>p_sibling := p_sibling (proc_at s sib)\<rparr>"
    "proc_at ?s1 i = (proc_at s i)\<lparr>p_num_children := p_num_children (proc_at s i) - 1, p_status := PROCESS_ASLEEP\<rparr>"
    "\<forall>j. j \<notin> {i, prev, sib} \<longrightarrow> proc_at ?s1 j = proc_at s j"
    using assms(9,10) by (auto simp: reap_sibling_def set_status_def same)
  ultimately show ?thesis by blast
qed

text \<open>A parent (slot 0) with live children in slots 1 and 2 and a dead one in slot 3.\<close>

definition family_kernel :: kernel where
  "family_kernel =
     upd_proc 0 (\<lambda>p. p\<lparr>p_child := Some 1, p_num_children := 3, p_status := PROCESS_RUNNING\<rparr>)
       (upd_proc 1 (\<lambda>p. p\<lparr>p_sibling := Some 2, p_status := PROCESS_RUNNABLE\<rparr>)
         (upd_proc 2 (\<lambda>p. p\<lparr>p_sibling := Some 3, p_status := PROCESS_RUNNABLE\<rparr>)
           (set_status 3 PROCESS_DEAD boot_kernel)))"

theorem Process_Wait_drops_sibling_witness:
  "\<exists>s1. (\<forall>n switch. Process_Wait (Suc n) switch family_kernel 0 =
       res_bind (switch s1) (\<lambda>s2. res_bind (wait_loop n switch s2 0 NO_PID) (\<lambda>(r, s3). Inr (r, unlock_procs s3)))) \<and>
     p_status (proc_at s1 3) = PROCESS_IDLE \<and> p_sibling (proc_at s1 2) = None"
proof -
  have f: "p_status (proc_at family_kernel 1) = PROCESS_RUNNABLE" "p_status (proc_at family_kernel 2) = PROCESS_RUNNABLE"
    "p_status (proc_at family_kernel 3) = PROCESS_DEAD" "p_sibling (proc_at family_kernel 1) = Some 2"
    "p_sibling (proc_at family_kernel 2) = Some 3" "p_sibling (proc_at family_kernel 3) = None"
    "p_child (proc_at family_kernel 0) = Some 1" "p_num_children (proc_at family_kernel 0) = 3"
    by (simp_all add: family_kernel_def set_status_def upd_proc_def proc_at_def boot_kernel_def physmem.defs)
  have "\<not> flag (Process_lock family_kernel)" by (simp add: family_kernel_def set_status_def upd_proc_def)
  then have "\<exists>s1. (\<forall>n switch. Process_Wait (Suc n) switch family_kernel 0 =
       res_bind (switch s1) (\<lambda>s2. res_bind (wait_loop n switch s2 0 NO_PID) (\<lambda>(r, s3). Inr (r, unlock_procs s3)))) \<and>
     proc_at s1 3 = (proc_at family_kernel 3)\<lparr>p_status := PROCESS_IDLE\<rparr> \<and>
     proc_at s1 2 = (proc_at family_kernel 2)\<lparr>p_sibling := p_sibling (proc_at family_kernel 3)\<rparr> \<and>
     proc_at s1 0 = (proc_at family_kernel 0)\<lparr>p_num_children := p_num_children (proc_at family_kernel 0) - 1, p_status := PROCESS_ASLEEP\<rparr> \<and>
     (\<forall>j. j \<notin> {0, 2, 3} \<longrightarrow> proc_at s1 j = proc_at family_kernel j)"
    by (rule Process_Wait_drops_sibling [where kid = 1 and js = "[2]"]) (simp_all add: f [simplified] KERNEL_MAX_PROCS_def)
  then show ?thesis using f(6) by force
qed

text \<open>
  C27. A sleep lock can lose a wakeup. Let a running process acquire a held sleep lock, and let the holder release the lock on
  another processor after the process has given back the access lock and before it has the process lock. Then
  \<open>SleepLock_Acquire\<close> switches away with its process asleep on the lock although the lock is free. The release has made runnable
  only processes that were asleep on the lock by then, and not this one.
\<close>

theorem SleepLock_lost_wakeup:
  assumes "process (state_current (cpu s)) = Some i" and "p_status (proc_at s i) = PROCESS_RUNNING" and "locked (sleep_locks s l)"
    and "\<not> flag (access_lock (sleep_locks s l))" and "\<not> flag (Process_lock s)"
    and "others n False = on_processor c (\<lambda>t. SleepLock_Release t l)"
  shows "\<exists>s1 after. (\<forall>switch. SleepLock_Acquire (Suc n) others switch s l = res_bind (switch s1) (after switch)) \<and>
     p_status (proc_at s1 i) = PROCESS_ASLEEP \<and> p_wakeup_on (proc_at s1 i) = l \<and> \<not> locked (sleep_locks s1 l) \<and>
     (\<forall>j. j \<noteq> i \<longrightarrow> proc_at s1 j = (if j < KERNEL_MAX_PROCS \<and> p_status (proc_at s j) = PROCESS_ASLEEP \<and> p_wakeup_on (proc_at s j) = l
        then (proc_at s j)\<lparr>p_status := PROCESS_RUNNABLE, p_wakeup_on := 0\<rparr> else proc_at s j))"
proof -
  obtain s0 where s0: "lock_access l s = Inr s0" using assms(4) by (simp add: lock_access_eq)
  have f0: "Process_lock s0 = Process_lock s" "locked (sleep_locks s0 l)" "proc_at s0 j = proc_at s j" for j
    using s0 assms(3,4) by (auto simp: lock_access_eq upd_sleep_def proc_at_def)
  obtain r where r: "others n False (unlock_access l s0) = Inr r" "\<not> locked (sleep_locks r l)" "\<not> flag (Process_lock r)"
      and pr: "\<And>j. proc_at r j = (if j < KERNEL_MAX_PROCS \<and> p_status (proc_at s j) = PROCESS_ASLEEP \<and> p_wakeup_on (proc_at s j) = l
        then (proc_at s j)\<lparr>p_status := PROCESS_RUNNABLE, p_wakeup_on := 0\<rparr> else proc_at s j)"
    by (rule release_elsewhere [of s0 c l, unfolded f0(1,3), OF assms(5), folded assms(6)], rule that)
  obtain s1 where s1: "lock_procs r = Inr s1" using r(3) by (simp add: lock_procs_eq)
  have f1: "\<not> locked (sleep_locks s1 l)" "proc_at s1 j = proc_at r j" for j
    using s1 r(2) by (auto simp: lock_procs_eq proc_at_def split: if_splits)
  let ?s2 = "upd_proc i (\<lambda>p. p\<lparr>p_wakeup_on := l, p_status := PROCESS_ASLEEP\<rparr>) s1"
  have "\<exists>after. \<forall>switch. SleepLock_Acquire (Suc n) others switch s l = res_bind (switch ?s2) (after switch)"
    using assms(1) s0 f0(2) r(1) s1
    by (intro exI [of _ "\<lambda>switch s3. res_bind (others n True (unlock_procs (upd_proc i (\<lambda>p. p\<lparr>p_wakeup_on := PROCESS_ALARM_OFF\<rparr>) s3))) (\<lambda>s4.
        res_bind (lock_access l s4) (\<lambda>s5. res_bind (sleep_acquire_loop n others switch s5 i l) (\<lambda>s6.
          Inr (unlock_access l (upd_sleep l (\<lambda>k. k\<lparr>locked := True\<rparr>) s6)))))"])
      (simp add: SleepLock_Acquire_def Process_SleepOn_def res_bind_assoc)
  moreover have "\<not> locked (sleep_locks ?s2 l)" using f1(1) by (simp add: upd_proc_def)
  moreover have "p_status (proc_at ?s2 i) = PROCESS_ASLEEP" "p_wakeup_on (proc_at ?s2 i) = l" by simp_all
  moreover have "proc_at ?s2 j = proc_at r j" if "j \<noteq> i" for j using that f1(2) by simp
  ultimately show ?thesis using pr by metis
qed

definition contended_kernel :: kernel where
  "contended_kernel = (upd_sleep 7 (\<lambda>k. k\<lparr>locked := True\<rparr>) (set_status 3 PROCESS_RUNNING boot_kernel))
     \<lparr>cpu := idle_cpu\<lparr>state_current := (state_current idle_cpu)\<lparr>process := Some 3\<rparr>\<rparr>\<rparr>"

theorem SleepLock_lost_wakeup_witness:
  "\<exists>s1 after. (\<forall>switch. SleepLock_Acquire 1 (\<lambda>_ _. on_processor idle_cpu (\<lambda>t. SleepLock_Release t 7)) switch contended_kernel 7
       = res_bind (switch s1) (after switch)) \<and>
     p_status (proc_at s1 3) = PROCESS_ASLEEP \<and> p_wakeup_on (proc_at s1 3) = 7 \<and> \<not> locked (sleep_locks s1 7)"
proof -
  have "process (state_current (cpu contended_kernel)) = Some 3" "p_status (proc_at contended_kernel 3) = PROCESS_RUNNING"
    "locked (sleep_locks contended_kernel 7)" "\<not> flag (access_lock (sleep_locks contended_kernel 7))" "\<not> flag (Process_lock contended_kernel)"
    by (simp_all add: contended_kernel_def upd_sleep_def set_status_def upd_proc_def proc_at_def)
  from SleepLock_lost_wakeup [OF this, of "\<lambda>_ _. on_processor idle_cpu (\<lambda>t. SleepLock_Release t 7)" 0 idle_cpu]
  show ?thesis by auto
qed

end
