(* ===== verification/AVOS_PIC.thy ===== *)
theory AVOS_PIC
  imports AVOS_Timer
begin

text \<open>
  The legacy interrupt controller (\<open>kernel/arch/apic/src/pic.c\<close>) and the interval timer chip
  (\<open>kernel/devices/pit/src/pit.c\<close>). The port instructions \<open>Inb\<close> and \<open>Outb\<close> are
  assembly: the functions take them as the argument \<open>io\<close> (record \<open>ports\<close>), over a state \<open>'d\<close> of the devices.
\<close>

section \<open>The interrupt controller\<close>

definition PIC_IOPORT_COMD1 :: u16 where "PIC_IOPORT_COMD1 = 0x20"
definition PIC_IOPORT_DATA1 :: u16 where "PIC_IOPORT_DATA1 = 0x21"
definition PIC_IOPORT_COMD2 :: u16 where "PIC_IOPORT_COMD2 = 0xA0"
definition PIC_IOPORT_DATA2 :: u16 where "PIC_IOPORT_DATA2 = 0xA1"
definition PIC_EOI :: u8 where "PIC_EOI = 0x20"
definition PIC_ICW1_NEED_ICW4 :: u8 where "PIC_ICW1_NEED_ICW4 = 0x01"
definition PIC_ICW1_INIT :: u8 where "PIC_ICW1_INIT = 0x10"
definition PIC_ICW4_8086 :: u8 where "PIC_ICW4_8086 = 0x01"
definition PIC_READ_IRR :: u8 where "PIC_READ_IRR = 0x0A"
definition PIC_READ_ISR :: u8 where "PIC_READ_ISR = 0x0B"
definition PIC_IRQ_OFFSET :: u8 where "PIC_IRQ_OFFSET = 0x20"
definition PIC_REMAP1_START :: u8 where "PIC_REMAP1_START = 0 + PIC_IRQ_OFFSET"
definition PIC_REMAP2_START :: u8 where "PIC_REMAP2_START = 8 + PIC_IRQ_OFFSET"

definition PIC_DisableAllInterrupts :: "'d ports \<Rightarrow> 'd \<Rightarrow> 'd" where
  "PIC_DisableAllInterrupts io d = Outb io PIC_IOPORT_DATA2 0xFF (Outb io PIC_IOPORT_DATA1 0xFF d)"

text \<open>Initialisation returns the two masks it saved.\<close>

definition PIC_Initialize :: "'d ports \<Rightarrow> 'd \<Rightarrow> (u8 \<times> u8) \<times> 'd" where
  "PIC_Initialize io d =
     (let (PIC_InitialMask1, d1) = Inb io PIC_IOPORT_DATA1 d;
          (PIC_InitialMask2, d2) = Inb io PIC_IOPORT_DATA2 d1;
          d3 = PIC_DisableAllInterrupts io d2;
          d4 = Outb io PIC_IOPORT_COMD1 (PIC_ICW1_INIT OR PIC_ICW1_NEED_ICW4) d3;
          d5 = Outb io PIC_IOPORT_COMD2 (PIC_ICW1_INIT OR PIC_ICW1_NEED_ICW4) d4;
          d6 = Outb io PIC_IOPORT_DATA1 PIC_REMAP1_START d5;
          d7 = Outb io PIC_IOPORT_DATA2 PIC_REMAP2_START d6;
          d8 = Outb io PIC_IOPORT_DATA1 4 d7;
          d9 = Outb io PIC_IOPORT_DATA2 2 d8;
          d10 = Outb io PIC_IOPORT_DATA1 PIC_ICW4_8086 d9;
          d11 = Outb io PIC_IOPORT_DATA2 PIC_ICW4_8086 d10
      in ((PIC_InitialMask1, PIC_InitialMask2), PIC_DisableAllInterrupts io d11))"

definition PIC_SendEOI :: "'d ports \<Rightarrow> u8 \<Rightarrow> 'd \<Rightarrow> 'd" where
  "PIC_SendEOI io irqline d =
     Outb io PIC_IOPORT_COMD1 PIC_EOI (if irqline \<ge> 8 then Outb io PIC_IOPORT_COMD2 PIC_EOI d else d)"

definition irq_port :: "u8 \<Rightarrow> u16" where
  "irq_port irqline = (if irqline < 8 then PIC_IOPORT_DATA1 else PIC_IOPORT_DATA2)"

definition irq_bit :: "u8 \<Rightarrow> u8" where
  "irq_bit irqline = (if irqline < 8 then irqline else irqline - 8)"

definition PIC_EnableInterrupt :: "'d ports \<Rightarrow> u8 \<Rightarrow> 'd \<Rightarrow> 'd" where
  "PIC_EnableInterrupt io irqline d =
     (let (v, d1) = Inb io (irq_port irqline) d
      in Outb io (irq_port irqline) (v AND NOT (push_bit (unat (irq_bit irqline)) 1)) d1)"

definition PIC_DisableInterrupt :: "'d ports \<Rightarrow> u8 \<Rightarrow> 'd \<Rightarrow> 'd" where
  "PIC_DisableInterrupt io irqline d =
     (let (v, d1) = Inb io (irq_port irqline) d
      in Outb io (irq_port irqline) (v OR push_bit (unat (irq_bit irqline)) 1) d1)"

definition PIC_SetInterruptMask :: "'d ports \<Rightarrow> u16 \<Rightarrow> 'd \<Rightarrow> 'd" where
  "PIC_SetInterruptMask io m d =
     Outb io PIC_IOPORT_DATA2 (ucast (drop_bit 8 (m AND 0xFF00))) (Outb io PIC_IOPORT_DATA1 (ucast (m AND 0x00FF)) d)"

definition PIC_CombineInterruptMasks :: "u8 \<Rightarrow> u8 \<Rightarrow> u16" where
  "PIC_CombineInterruptMasks mask1 mask2 = ucast mask1 OR push_bit 8 (ucast mask2)"

definition PIC1_SetInterruptMask :: "'d ports \<Rightarrow> u8 \<Rightarrow> 'd \<Rightarrow> 'd" where
  "PIC1_SetInterruptMask io m d = Outb io PIC_IOPORT_DATA1 m d"

definition PIC1_DisableAllInterrupts :: "'d ports \<Rightarrow> 'd \<Rightarrow> 'd" where
  "PIC1_DisableAllInterrupts io d = Outb io PIC_IOPORT_DATA1 0xFF d"

definition PIC2_SetInterruptMask :: "'d ports \<Rightarrow> u8 \<Rightarrow> 'd \<Rightarrow> 'd" where
  "PIC2_SetInterruptMask io m d = Outb io PIC_IOPORT_DATA2 m d"

definition PIC2_DisableAllInterrupts :: "'d ports \<Rightarrow> 'd \<Rightarrow> 'd" where
  "PIC2_DisableAllInterrupts io d = Outb io PIC_IOPORT_DATA2 0xFF d"

definition PIC_GetInterruptMaskRegister :: "'d ports \<Rightarrow> 'd \<Rightarrow> u16 \<times> 'd" where
  "PIC_GetInterruptMaskRegister io d =
     (let (a, d1) = Inb io PIC_IOPORT_DATA1 d;
          (b, d2) = Inb io PIC_IOPORT_DATA1 d1
      in (push_bit 8 (ucast b) OR ucast a, d2))"

definition PIC_GetInterruptRequestRegister :: "'d ports \<Rightarrow> 'd \<Rightarrow> u16 \<times> 'd" where
  "PIC_GetInterruptRequestRegister io d =
     (let d0 = Outb io PIC_IOPORT_COMD2 PIC_READ_IRR (Outb io PIC_IOPORT_COMD1 PIC_READ_IRR d);
          (a, d1) = Inb io PIC_IOPORT_COMD1 d0;
          (b, d2) = Inb io PIC_IOPORT_COMD1 d1
      in (push_bit 8 (ucast b) OR ucast a, d2))"

definition PIC_GetInServiceRegister :: "'d ports \<Rightarrow> 'd \<Rightarrow> u16 \<times> 'd" where
  "PIC_GetInServiceRegister io d =
     (let d0 = Outb io PIC_IOPORT_COMD2 PIC_READ_ISR (Outb io PIC_IOPORT_COMD1 PIC_READ_ISR d);
          (a, d1) = Inb io PIC_IOPORT_COMD1 d0;
          (b, d2) = Inb io PIC_IOPORT_COMD1 d1
      in (push_bit 8 (ucast b) OR ucast a, d2))"

definition PIC1_GetInterruptMaskRegister :: "'d ports \<Rightarrow> 'd \<Rightarrow> u8 \<times> 'd" where
  "PIC1_GetInterruptMaskRegister io d = Inb io PIC_IOPORT_DATA1 d"

definition PIC1_GetInterruptRequestRegister :: "'d ports \<Rightarrow> 'd \<Rightarrow> u8 \<times> 'd" where
  "PIC1_GetInterruptRequestRegister io d = Inb io PIC_IOPORT_COMD1 (Outb io PIC_IOPORT_COMD1 PIC_READ_IRR d)"

definition PIC1_GetInServiceRegister :: "'d ports \<Rightarrow> 'd \<Rightarrow> u8 \<times> 'd" where
  "PIC1_GetInServiceRegister io d = Inb io PIC_IOPORT_COMD1 (Outb io PIC_IOPORT_COMD1 PIC_READ_ISR d)"

definition PIC2_GetInterruptMaskRegister :: "'d ports \<Rightarrow> 'd \<Rightarrow> u8 \<times> 'd" where
  "PIC2_GetInterruptMaskRegister io d = Inb io PIC_IOPORT_DATA2 d"

definition PIC2_GetInterruptRequestRegister :: "'d ports \<Rightarrow> 'd \<Rightarrow> u8 \<times> 'd" where
  "PIC2_GetInterruptRequestRegister io d = Inb io PIC_IOPORT_COMD2 (Outb io PIC_IOPORT_COMD2 PIC_READ_IRR d)"

definition PIC2_GetInServiceRegister :: "'d ports \<Rightarrow> 'd \<Rightarrow> u8 \<times> 'd" where
  "PIC2_GetInServiceRegister io d = Inb io PIC_IOPORT_COMD2 (Outb io PIC_IOPORT_COMD2 PIC_READ_ISR d)"

lemmas pic_ports_defs =
  PIC_IOPORT_COMD1_def PIC_IOPORT_DATA1_def PIC_IOPORT_COMD2_def PIC_IOPORT_DATA2_def

section \<open>The interval timer chip\<close>

definition PIT_IOPORT_CHAN0 :: u16 where "PIT_IOPORT_CHAN0 = 0x40"
definition PIT_IOPORT_COMD :: u16 where "PIT_IOPORT_COMD = 0x43"
definition PIT_CHANNEL_0 :: u8 where "PIT_CHANNEL_0 = push_bit 6 0"
definition PIT_ACCESS_LOHIBYTE :: u8 where "PIT_ACCESS_LOHIBYTE = push_bit 4 3"
definition PIT_OPERMODE_SQWAVE_GENERATOR :: u8 where "PIT_OPERMODE_SQWAVE_GENERATOR = push_bit 1 3"
definition PIT_COUNTMODE_BIN :: u8 where "PIT_COUNTMODE_BIN = 0"
definition PIT_BASE_FREQUENCY :: u32 where "PIT_BASE_FREQUENCY = 1193182"

definition pit_command :: u8 where
  "pit_command = PIT_COUNTMODE_BIN OR PIT_OPERMODE_SQWAVE_GENERATOR OR PIT_ACCESS_LOHIBYTE OR PIT_CHANNEL_0"

text \<open>Division by a zero frequency is undefined in C; word division gives 0 there.\<close>

definition pit_counter :: "u32 \<Rightarrow> u32" where
  "pit_counter freq = PIT_BASE_FREQUENCY div freq"

definition PIT_Set :: "'d ports \<Rightarrow> u32 \<Rightarrow> Timer \<times> 'd \<Rightarrow> Timer \<times> 'd" where
  "PIT_Set io freq td =
     (\<lparr>seq_counter = 0, ticks = 0\<rparr>,
      Outb io PIT_IOPORT_CHAN0 (ucast (drop_bit 8 (pit_counter freq AND 0xFF00)))
        (Outb io PIT_IOPORT_CHAN0 (ucast (pit_counter freq AND 0x00FF))
          (Outb io PIT_IOPORT_COMD pit_command (snd td))))"

definition PIT_Reset :: "'d ports \<Rightarrow> 'd \<Rightarrow> 'd" where
  "PIT_Reset io d = Outb io PIT_IOPORT_CHAN0 0 (Outb io PIT_IOPORT_CHAN0 0 (Outb io PIT_IOPORT_COMD pit_command d))"

definition PIT_HandleInterrupt :: "(Timer \<Rightarrow> 'e \<Rightarrow> 'e) \<Rightarrow> Timer \<Rightarrow> 'e \<Rightarrow> Timer \<times> 'e" where
  "PIT_HandleInterrupt LocalAPIC_EOI PIT_timer e =
     (let t = Timer_Increment PIT_timer in (t, LocalAPIC_EOI t e))"

text \<open>
  \<open>PIT_Delay\<close> polls the tick count, which interrupts advance; \<open>readings\<close> are the counts
  that its successive calls of \<open>Timer_GetTicks\<close> return. The result is the number of polls.
\<close>

definition PIT_Delay :: "u32 \<Rightarrow> u64 list \<Rightarrow> nat result" where
  "PIT_Delay del readings =
     (case readings of
        [] \<Rightarrow> Inl Loops_Forever
      | iticks # rest \<Rightarrow>
          (case find (\<lambda>k. \<not> rest ! k - iticks \<le> ucast del) [0..<length rest] of
             None \<Rightarrow> Inl Loops_Forever | Some k \<Rightarrow> Inr (Suc k)))"

section \<open>What the code relies on of the two controllers\<close>

text \<open>
  The behaviour of one 8259A controller that its data sheet documents: a command with bit 4 starts
  an initialisation, which clears the mask and takes the next data bytes as vector offset, cascade
  and mode; outside of it the data port is the mask register; a command with bit 3 selects the
  register that the command port reads; the command \<open>0x20\<close> ends the interrupt of highest
  priority in service.
\<close>

record controller =
  imr :: u8
  irr :: u8
  isr :: u8
  vector :: u8
  cascade :: u8
  expects :: nat
  reads_isr :: bool

definition end_of_interrupt :: "u8 \<Rightarrow> u8" where
  "end_of_interrupt s = s AND (s - 1)"

definition command_write :: "u8 \<Rightarrow> controller \<Rightarrow> controller" where
  "command_write v c =
     (if bit v 4 then c\<lparr>imr := 0, expects := (if bit v 0 then 3 else 2), reads_isr := False\<rparr>
      else if bit v 3 then (if bit v 1 then c\<lparr>reads_isr := bit v 0\<rparr> else c)
      else if v AND 0xE0 = 0x20 then c\<lparr>isr := end_of_interrupt (isr c)\<rparr> else c)"

definition data_write :: "u8 \<Rightarrow> controller \<Rightarrow> controller" where
  "data_write v c =
     (if expects c = 0 then c\<lparr>imr := v\<rparr>
      else if expects c = 1 then c\<lparr>expects := 0\<rparr>
      else if expects c = 2 then c\<lparr>cascade := v, expects := 1\<rparr>
      else c\<lparr>vector := v AND 0xF8, expects := 2\<rparr>)"

definition command_read :: "controller \<Rightarrow> u8" where
  "command_read c = (if reads_isr c then isr c else irr c)"

text \<open>The ports of the two controllers; \<open>c1\<close> and \<open>c2\<close> read their states.\<close>

locale pic_ports =
  fixes io :: "'d ports" and c1 c2 :: "'d \<Rightarrow> controller"
  assumes read_data: "Inb io PIC_IOPORT_DATA1 d = (imr (c1 d), d)" "Inb io PIC_IOPORT_DATA2 d = (imr (c2 d), d)"
    and read_command: "Inb io PIC_IOPORT_COMD1 d = (command_read (c1 d), d)"
      "Inb io PIC_IOPORT_COMD2 d = (command_read (c2 d), d)"
    and write_data1: "c1 (Outb io PIC_IOPORT_DATA1 v d) = data_write v (c1 d)" "c2 (Outb io PIC_IOPORT_DATA1 v d) = c2 d"
    and write_data2: "c1 (Outb io PIC_IOPORT_DATA2 v d) = c1 d" "c2 (Outb io PIC_IOPORT_DATA2 v d) = data_write v (c2 d)"
    and write_command1: "c1 (Outb io PIC_IOPORT_COMD1 v d) = command_write v (c1 d)"
      "c2 (Outb io PIC_IOPORT_COMD1 v d) = c2 d"
    and write_command2: "c1 (Outb io PIC_IOPORT_COMD2 v d) = c1 d"
      "c2 (Outb io PIC_IOPORT_COMD2 v d) = command_write v (c2 d)"

text \<open>Both controllers are past their initialisation, and the mask of all sixteen lines.\<close>

definition ready :: "controller \<Rightarrow> controller \<Rightarrow> bool" where
  "ready a b \<longleftrightarrow> expects a = 0 \<and> expects b = 0"

definition masks :: "controller \<Rightarrow> controller \<Rightarrow> u16" where
  "masks a b = PIC_CombineInterruptMasks (imr a) (imr b)"

lemma unat_irq_bit: "irqline < 16 \<Longrightarrow> unat (irq_bit irqline) = unat irqline mod 8"
  unfolding irq_bit_def by (auto simp: word_less_nat_alt unat_sub word_le_nat_alt mod_if)

lemma bit_masks: "bit (masks a b) n \<longleftrightarrow> (if n < 8 then bit (imr a) n else n < 16 \<and> bit (imr b) (n - 8))"
  by (auto simp: masks_def PIC_CombineInterruptMasks_def bit_simps dest: bit_imp_le_length)

lemma data_write_ready: "expects c = 0 \<Longrightarrow> data_write v c = c\<lparr>imr := v\<rparr>"
  by (simp add: data_write_def)

context pic_ports begin

lemmas port_laws = read_data read_command write_data1 write_data2 write_command1 write_command2

lemma enable_masks:
  assumes "irqline < 16" "ready (c1 d) (c2 d)"
  defines "e \<equiv> PIC_EnableInterrupt io irqline d"
  shows "bit (masks (c1 e) (c2 e)) n \<longleftrightarrow> bit (masks (c1 d) (c2 d)) n \<and> n \<noteq> unat irqline"
proof -
  have i: "unat (irq_bit irqline) = unat irqline mod 8" "unat irqline < 16" "irqline < 8 \<longleftrightarrow> unat irqline < 8"
    using assms(1) unat_irq_bit by (auto simp: word_less_nat_alt)
  show ?thesis
    using i assms(2) unfolding bit_masks ready_def e_def PIC_EnableInterrupt_def irq_port_def
    by (cases "unat irqline < 8") (auto simp: port_laws data_write_ready bit_simps mod_if)
qed

lemma disable_masks:
  assumes "irqline < 16" "ready (c1 d) (c2 d)"
  defines "e \<equiv> PIC_DisableInterrupt io irqline d"
  shows "bit (masks (c1 e) (c2 e)) n \<longleftrightarrow> bit (masks (c1 d) (c2 d)) n \<or> n = unat irqline"
proof -
  have i: "unat (irq_bit irqline) = unat irqline mod 8" "unat irqline < 16" "irqline < 8 \<longleftrightarrow> unat irqline < 8"
    using assms(1) unat_irq_bit by (auto simp: word_less_nat_alt)
  show ?thesis
    using i assms(2) unfolding bit_masks ready_def e_def PIC_DisableInterrupt_def irq_port_def
    by (cases "unat irqline < 8") (auto simp: port_laws data_write_ready bit_simps mod_if)
qed

lemma set_masks:
  fixes m
  assumes "ready (c1 d) (c2 d)"
  defines "e \<equiv> PIC_SetInterruptMask io m d"
  shows "masks (c1 e) (c2 e) = m"
proof (rule bit_word_eqI)
  have mask: "(0xFF00 :: u16) = push_bit 8 (mask 8)" "(0x00FF :: u16) = mask 8" by (simp_all add: mask_eq_exp_minus_1)
  fix n assume "n < LENGTH(16)"
  then show "bit (masks (c1 e) (c2 e)) n = bit m n"
    using assms(1) unfolding bit_masks
    by (auto simp: e_def ready_def PIC_SetInterruptMask_def port_laws data_write_ready mask bit_simps)
qed

lemma stays_ready:
  assumes "ready (c1 d) (c2 d)"
  shows "ready (c1 (PIC_EnableInterrupt io i d)) (c2 (PIC_EnableInterrupt io i d))"
    "ready (c1 (PIC_DisableInterrupt io i d)) (c2 (PIC_DisableInterrupt io i d))"
  using assms by (auto simp: ready_def PIC_EnableInterrupt_def PIC_DisableInterrupt_def irq_port_def port_laws data_write_def)

lemma initialize:
  assumes "ready (c1 d) (c2 d)" "PIC_Initialize io d = (saved, e)"
  shows "saved = (imr (c1 d), imr (c2 d))" "ready (c1 e) (c2 e)" "masks (c1 e) (c2 e) = 0xFFFF"
    "vector (c1 e) = 0x20" "vector (c2 e) = 0x28" "cascade (c1 e) = 4" "cascade (c2 e) = 2"
proof -
  have icw: "bit (PIC_ICW1_INIT OR PIC_ICW1_NEED_ICW4) 4" "bit (PIC_ICW1_INIT OR PIC_ICW1_NEED_ICW4) 0"
    by (simp_all add: PIC_ICW1_INIT_def PIC_ICW1_NEED_ICW4_def bit_simps)
  show "saved = (imr (c1 d), imr (c2 d))" "ready (c1 e) (c2 e)" "masks (c1 e) (c2 e) = 0xFFFF"
    "vector (c1 e) = 0x20" "vector (c2 e) = 0x28" "cascade (c1 e) = 4" "cascade (c2 e) = 2"
    using assms icw
    by (auto simp: PIC_Initialize_def PIC_DisableAllInterrupts_def ready_def masks_def port_laws data_write_def
        command_write_def PIC_REMAP1_START_def PIC_REMAP2_START_def PIC_IRQ_OFFSET_def PIC_CombineInterruptMasks_def)
qed

lemma send_eoi:
  "isr (c1 (PIC_SendEOI io irqline d)) = end_of_interrupt (isr (c1 d))"
  "isr (c2 (PIC_SendEOI io irqline d)) = (if irqline < 8 then isr (c2 d) else end_of_interrupt (isr (c2 d)))"
  by (auto simp: PIC_SendEOI_def port_laws command_write_def PIC_EOI_def bit_simps not_less
      dest: order.strict_trans2 simp del: word_not_simps)

lemma get_masks: "PIC_GetInterruptMaskRegister io d = (PIC_CombineInterruptMasks (imr (c1 d)) (imr (c1 d)), d)"
  by (simp add: PIC_GetInterruptMaskRegister_def PIC_CombineInterruptMasks_def port_laws or.commute)

lemma get_in_service:
  "fst (PIC_GetInServiceRegister io d) = PIC_CombineInterruptMasks (isr (c1 d)) (isr (c1 d))"
  by (simp add: PIC_GetInServiceRegister_def PIC_CombineInterruptMasks_def port_laws or.commute PIC_READ_ISR_def
      command_write_def command_read_def bit_simps)

end

section \<open>A pair of controllers\<close>

definition pair_ports :: "(controller \<times> controller) ports" where
  "pair_ports =
     \<lparr>Inb = (\<lambda>p (a, b).
        (if p = PIC_IOPORT_DATA1 then imr a else if p = PIC_IOPORT_DATA2 then imr b
         else if p = PIC_IOPORT_COMD1 then command_read a else if p = PIC_IOPORT_COMD2 then command_read b
         else 0xFF, a, b)),
      Outb = (\<lambda>p v (a, b).
        if p = PIC_IOPORT_DATA1 then (data_write v a, b) else if p = PIC_IOPORT_DATA2 then (a, data_write v b)
        else if p = PIC_IOPORT_COMD1 then (command_write v a, b)
        else if p = PIC_IOPORT_COMD2 then (a, command_write v b) else (a, b))\<rparr>"

interpretation pair: pic_ports pair_ports fst snd
  by unfold_locales (auto simp: pair_ports_def pic_ports_defs)

section \<open>Properties\<close>

text \<open>
  On controllers that are past their initialisation, enabling a line below 16 clears exactly
  its mask bit, disabling sets exactly its mask bit, and both keep every other line as it was, on
  the master and on the slave.
\<close>

theorem PIC_mask_one_line:
  assumes "pic_ports io c1 c2" "ready (c1 d) (c2 d)" "irqline < 16"
  defines "e \<equiv> PIC_EnableInterrupt io irqline d" and "f \<equiv> PIC_DisableInterrupt io irqline d"
  shows "(bit (masks (c1 e) (c2 e)) n \<longleftrightarrow> bit (masks (c1 d) (c2 d)) n \<and> n \<noteq> unat irqline)
    \<and> (bit (masks (c1 f) (c2 f)) n \<longleftrightarrow> bit (masks (c1 d) (c2 d)) n \<or> n = unat irqline)
    \<and> ready (c1 e) (c2 e) \<and> ready (c1 f) (c2 f)"
  unfolding e_def f_def
  by (intro conjI; rule pic_ports.enable_masks [OF assms(1,3,2)] pic_ports.disable_masks [OF assms(1,3,2)]
      pic_ports.stays_ready [OF assms(1,2)])

definition sample_pair :: "controller \<times> controller" where
  "sample_pair =
     (\<lparr>imr = 0xB8, irr = 0, isr = 1, vector = 8, cascade = 4, expects = 0, reads_isr = False\<rparr>,
      \<lparr>imr = 0x8F, irr = 0, isr = 6, vector = 0x70, cascade = 2, expects = 0, reads_isr = False\<rparr>)"

lemma sample_pair_ready: "ready (fst sample_pair) (snd sample_pair)"
  by (simp add: sample_pair_def ready_def)

theorem PIC_mask_one_line_witness:
  "\<not> bit (masks (fst (PIC_EnableInterrupt pair_ports 11 sample_pair)) (snd (PIC_EnableInterrupt pair_ports 11 sample_pair))) 11"
proof -
  have u: "(11 :: u8) < 16" "unat (11 :: u8) = 11" by simp_all
  show ?thesis
    using PIC_mask_one_line [OF pair.pic_ports_axioms sample_pair_ready u(1), of 11] unfolding u(2) by blast
qed

text \<open>
  C28: Initialisation saves the two masks, programs the vectors \<open>0x20\<close> and \<open>0x28\<close> and the
  cascade on line 2, ends with both controllers past their initialisation and masks all sixteen
  lines.
\<close>

theorem PIC_Initialize_remaps:
  assumes "pic_ports io c1 c2" "ready (c1 d) (c2 d)" "PIC_Initialize io d = (saved, e)"
  shows "saved = (imr (c1 d), imr (c2 d)) \<and> ready (c1 e) (c2 e) \<and> masks (c1 e) (c2 e) = 0xFFFF
    \<and> (vector (c1 e), vector (c2 e)) = (0x20, 0x28) \<and> (cascade (c1 e), cascade (c2 e)) = (4, 2)"
  using pic_ports.initialize [OF assms] by auto

theorem PIC_Initialize_remaps_witness:
  "fst (PIC_Initialize pair_ports sample_pair) = (0xB8, 0x8F)"
  using PIC_Initialize_remaps [OF pair.pic_ports_axioms sample_pair_ready prod.collapse [symmetric]]
  by (simp add: sample_pair_def)

text \<open>
  Reading the interrupt mask and the in-service register of both controllers returns those of
  the master in both halves: the result is the real mask only when the two masks agree.
\<close>

theorem PIC_registers_of_master_twice:
  assumes "pic_ports io c1 c2"
  shows "PIC_GetInterruptMaskRegister io d = (PIC_CombineInterruptMasks (imr (c1 d)) (imr (c1 d)), d)
    \<and> fst (PIC_GetInServiceRegister io d) = PIC_CombineInterruptMasks (isr (c1 d)) (isr (c1 d))
    \<and> (fst (PIC_GetInterruptMaskRegister io d) = masks (c1 d) (c2 d) \<longleftrightarrow> imr (c2 d) = imr (c1 d))"
proof -
  note g = pic_ports.get_masks [OF assms]
  have "imr b = imr a" if "masks a a = masks a b" for a b
  proof (rule bit_word_eqI)
    fix n assume "n < LENGTH(8)"
    then show "bit (imr b) n = bit (imr a) n"
      using that bit_masks [of a a "n + 8"] bit_masks [of a b "n + 8"] by simp
  qed
  then have "fst (PIC_GetInterruptMaskRegister io d) = masks (c1 d) (c2 d) \<longleftrightarrow> imr (c2 d) = imr (c1 d)"
    unfolding g by (auto simp: masks_def)
  with g pic_ports.get_in_service [OF assms] show ?thesis by blast
qed

theorem PIC_registers_of_master_twice_witness:
  "PIC_GetInterruptMaskRegister pair_ports sample_pair = (0xB8B8, sample_pair)"
  using PIC_registers_of_master_twice [OF pair.pic_ports_axioms, of sample_pair]
  by (simp add: sample_pair_def PIC_CombineInterruptMasks_def)

end
