(* ===== verification/AVOS_Console.thy ===== *)
theory AVOS_Console
  imports AVOS_Synch AVOS_Clib
begin

text \<open>
  The kernel's text console, \<open>kernel/devices/console/src/console.c\<close>: characters, numbers and
  formatted text on the VGA text buffer, with the cursor, scrolling and the lock. The buffer is part
  of memory, so a string or a format is read from the memory that printing changes.

  The only way a function of the console does not return is that it runs for ever (after a panic,
  on a string with no end, on a lock nobody releases); \<open>None\<close> stands for it.
\<close>

section \<open>State\<close>

record 'd console =
  con_mem :: memory
  Console_pos :: u16
  Console_inpanic :: bool
  Console_lock :: SpinLock
  con_dev :: 'd

definition CONSOLE_VGA_TEXT_BUFFER :: u32 where "CONSOLE_VGA_TEXT_BUFFER = 0xB8000"
definition CONSOLE_VGA_NUM_LINES :: nat where "CONSOLE_VGA_NUM_LINES = 25"
definition CONSOLE_VGA_NUM_COLUMNS :: nat where "CONSOLE_VGA_NUM_COLUMNS = 80"
definition CONSOLE_POS_START_BANNER :: nat where "CONSOLE_POS_START_BANNER = 38"
definition CONSOLE_POS_START :: u16 where "CONSOLE_POS_START = 80"
definition CONSOLE_COLOR_BLACK :: u8 where "CONSOLE_COLOR_BLACK = 0"
definition CONSOLE_COLOR_GREEN :: u8 where "CONSOLE_COLOR_GREEN = 2"
definition CONSOLE_COLOR_RED :: u8 where "CONSOLE_COLOR_RED = 4"
definition CONSOLE_COLOR_LIGHT_BLUE :: u8 where "CONSOLE_COLOR_LIGHT_BLUE = 9"
definition CONSOLE_COLOR_WHITE :: u8 where "CONSOLE_COLOR_WHITE = 0xF"
definition CONSOLE_NUMTYPE_DECIMAL :: u32 where "CONSOLE_NUMTYPE_DECIMAL = 0"
definition CONSOLE_NUMTYPE_OCTAL :: u32 where "CONSOLE_NUMTYPE_OCTAL = 1"
definition CONSOLE_NUMTYPE_HEXLOW :: u32 where "CONSOLE_NUMTYPE_HEXLOW = 2"
definition CONSOLE_NUMTYPE_HEXCAP :: u32 where "CONSOLE_NUMTYPE_HEXCAP = 3"

definition Console_screen :: u32 where
  "Console_screen = CONSOLE_VGA_TEXT_BUFFER + KERNEL_HIGHER_HALF_OFFSET"

text \<open>The address of \<open>Console_screen[i]\<close>.\<close>

definition cell_addr :: "nat \<Rightarrow> u32" where
  "cell_addr i = Console_screen + of_nat (2 * i)"

definition set_cell :: "nat \<Rightarrow> u16 \<Rightarrow> memory \<Rightarrow> memory" where
  "set_cell i v m = store16 m (cell_addr i) v"

section \<open>Cursor and screen\<close>

definition Console_MakeCursorInvisible :: "'d ports \<Rightarrow> 'd \<Rightarrow> 'd" where
  "Console_MakeCursorInvisible io d = Outb io 0x3D5 0x20 (Outb io 0x3D4 0x0A d)"

definition Console_MakeCursorVisible :: "'d ports \<Rightarrow> 'd \<Rightarrow> 'd" where
  "Console_MakeCursorVisible io d =
     (let (a, d1) = Inb io 0x3D5 (Outb io 0x3D4 0x0A d);
          d2 = Outb io 0x3D5 ((a AND 0xC0) OR 0xE) d1;
          (b, d3) = Inb io 0x3D5 (Outb io 0x3D4 0x0B d2)
      in Outb io 0x3D5 ((b AND 0xE0) OR 0xF) d3)"

definition Console_SetCursorPosition :: "'d ports \<Rightarrow> u16 \<Rightarrow> 'd \<Rightarrow> 'd" where
  "Console_SetCursorPosition io pos d =
     Outb io 0x3D5 (ucast (drop_bit 8 pos AND 0xFF))
       (Outb io 0x3D4 0x0E (Outb io 0x3D5 (ucast (pos AND 0xFF)) (Outb io 0x3D4 0x0F d)))"

definition Console_Attribute :: "u8 \<Rightarrow> u8 \<Rightarrow> u16" where
  "Console_Attribute fore back = push_bit 8 (ucast (fore AND 0x0F) + push_bit 4 (ucast (back AND 0x0F)))"

definition Console_ClearLine :: "u8 \<Rightarrow> memory \<Rightarrow> memory" where
  "Console_ClearLine line m =
     fold (\<lambda>i. set_cell (unat line * CONSOLE_VGA_NUM_COLUMNS + i)
            (Console_Attribute CONSOLE_COLOR_WHITE CONSOLE_COLOR_BLACK OR 0)) [0..<CONSOLE_VGA_NUM_COLUMNS] m"

definition Console_ClearScreen :: "memory \<Rightarrow> memory" where
  "Console_ClearScreen m =
     Console_ClearLine (of_nat CONSOLE_VGA_NUM_LINES)
       (fold (\<lambda>i. set_cell i (Console_Attribute CONSOLE_COLOR_WHITE CONSOLE_COLOR_BLACK OR 0))
          [CONSOLE_VGA_NUM_COLUMNS..<CONSOLE_VGA_NUM_COLUMNS * CONSOLE_VGA_NUM_LINES] m)"

section \<open>Characters and strings\<close>

text \<open>A \<open>char\<close> is signed: it is extended with its sign before it is combined with the colour.\<close>

definition Console_scroll :: "'d console \<Rightarrow> 'd console" where
  "Console_scroll con =
     (if Console_pos con \<ge> of_nat (CONSOLE_VGA_NUM_COLUMNS * CONSOLE_VGA_NUM_LINES) then
        con\<lparr>con_mem := snd (memmove (con_mem con) (cell_addr (unat CONSOLE_POS_START))
                          (cell_addr (unat CONSOLE_POS_START + CONSOLE_VGA_NUM_COLUMNS))
                          ((ucast (Console_pos con) - ucast CONSOLE_POS_START) * 2)),
            Console_pos := Console_pos con - of_nat CONSOLE_VGA_NUM_COLUMNS\<rparr>
      else con)"

definition Console_finish :: "'d ports \<Rightarrow> 'd console \<Rightarrow> 'd console" where
  "Console_finish io con =
     (let s = Console_scroll con
      in s\<lparr>con_mem := Console_ClearLine (of_nat CONSOLE_VGA_NUM_LINES) (con_mem s),
           con_dev := Console_SetCursorPosition io (Console_pos s) (con_dev s)\<rparr>)"

definition Console_PrintChar :: "'d ports \<Rightarrow> u8 \<Rightarrow> 'd console \<Rightarrow> 'd console option" where
  "Console_PrintChar io c con =
     (let color = Console_Attribute CONSOLE_COLOR_WHITE CONSOLE_COLOR_BLACK; pos = Console_pos con
      in if Console_inpanic con then None
         else if c = 0 then Some (Console_finish io con)
         else if c = 0x0A then
           Some (Console_finish io
             (con\<lparr>Console_pos := (pos div of_nat CONSOLE_VGA_NUM_COLUMNS + 1) * of_nat CONSOLE_VGA_NUM_COLUMNS\<rparr>))
         else if c = 0x09 then Some (Console_finish io (con\<lparr>Console_pos := pos + 3\<rparr>))
         else if c = 0x08 then
           (if pos = CONSOLE_POS_START then Some con
            else Some (Console_finish io
              (con\<lparr>con_mem := set_cell (unat (pos - 1)) (color OR 0) (con_mem con), Console_pos := pos - 1\<rparr>)))
         else Some (Console_finish io
           (con\<lparr>con_mem := set_cell (unat pos) (color OR scast c) (con_mem con), Console_pos := pos + 1\<rparr>)))"

definition Console_PrintChars :: "'d ports \<Rightarrow> u32 \<Rightarrow> u32 \<Rightarrow> 'd console \<Rightarrow> 'd console option" where
  "Console_PrintChars io string num con =
     fold (\<lambda>i r. Option.bind r (\<lambda>s. Console_PrintChar io (con_mem s (string + of_nat i)) s)) [0..<unat num] (Some con)"

partial_function (option) Console_PrintString :: "'d ports \<Rightarrow> u32 \<Rightarrow> 'd console \<Rightarrow> 'd console option" where
  "Console_PrintString io string con =
     (if con_mem con string \<noteq> 0
      then Option.bind (Console_PrintChar io (con_mem con string) con) (Console_PrintString io (string + 1))
      else Some con)"

section \<open>Numbers\<close>

definition digits_low :: "u8 list" where "digits_low = map of_char ''0123456789abcdef''"
definition digits_cap :: "u8 list" where "digits_cap = map of_char ''0123456789ABCDEF''"

text \<open>The loop over the divisors; \<open>put\<close> prints one character.\<close>

partial_function (option) print_digits ::
  "(u8 \<Rightarrow> 's \<Rightarrow> 's option) \<Rightarrow> u8 list \<Rightarrow> u32 \<Rightarrow> u32 \<Rightarrow> bool \<Rightarrow> u32 \<Rightarrow> 's \<Rightarrow> 's option" where
  "print_digits put digits base divisor start_printing val s =
     (if divisor > 0 then
        (let start = (start_printing \<or> val div divisor > 0)
         in Option.bind (if start then put (digits ! unat (val div divisor)) s else Some s)
              (print_digits put digits base (divisor div base) start (val mod divisor)))
      else Some s)"

definition print_number ::
  "(u8 \<Rightarrow> 's \<Rightarrow> 's option) \<Rightarrow> u32 \<Rightarrow> u32 \<Rightarrow> bool \<Rightarrow> 's \<Rightarrow> 's option" where
  "print_number put num num_type withsign s =
     (if num_type \<noteq> CONSOLE_NUMTYPE_OCTAL \<and> num_type \<noteq> CONSOLE_NUMTYPE_DECIMAL
         \<and> num_type \<noteq> CONSOLE_NUMTYPE_HEXLOW \<and> num_type \<noteq> CONSOLE_NUMTYPE_HEXCAP then Some s
      else
        (let neg = (num > 0x80000000);
             val = (if withsign then if neg then 0 - num else num else num);
             divisor = (if num_type = CONSOLE_NUMTYPE_OCTAL then 0x40000000
                        else if num_type = CONSOLE_NUMTYPE_DECIMAL then 1000000000 else 0x10000000);
             base = (if num_type = CONSOLE_NUMTYPE_OCTAL then 8
                     else if num_type = CONSOLE_NUMTYPE_DECIMAL then 10 else 0x10)
         in Option.bind (if withsign \<and> neg then put (of_char CHR ''-'') s else Some s) (\<lambda>s.
            if num_type = CONSOLE_NUMTYPE_OCTAL \<and> val < 8 then put (digits_low ! unat val) s
            else if val < 10 then put (digits_low ! unat val) s
            else Option.bind
              (if num_type = CONSOLE_NUMTYPE_OCTAL then put (of_char CHR ''0'') s
               else if num_type = CONSOLE_NUMTYPE_HEXLOW \<or> num_type = CONSOLE_NUMTYPE_HEXCAP
               then Option.bind (put (of_char CHR ''0'') s) (put (of_char CHR ''x'')) else Some s)
              (print_digits put (if num_type = CONSOLE_NUMTYPE_HEXCAP then digits_cap else digits_low)
                 base divisor False val))))"

definition Console_PrintNum :: "'d ports \<Rightarrow> u32 \<Rightarrow> u32 \<Rightarrow> bool \<Rightarrow> 'd console \<Rightarrow> 'd console option" where
  "Console_PrintNum io = print_number (Console_PrintChar io)"

section \<open>Formatted printing\<close>

text \<open>The argument list is the words on the caller's stack; \<open>k\<close> is the next one.\<close>

definition takes_argument :: "u8 \<Rightarrow> bool" where
  "takes_argument c \<longleftrightarrow> c \<in> of_char ` set ''cdiuoxXps''"

definition print_item :: "'d ports \<Rightarrow> u8 \<Rightarrow> u32 \<Rightarrow> 'd console \<Rightarrow> 'd console option" where
  "print_item io c arg con =
     (if c = of_char CHR ''c'' then Console_PrintChar io (ucast arg) con
      else if c = of_char CHR ''d'' then Console_PrintNum io arg CONSOLE_NUMTYPE_DECIMAL True con
      else if c = of_char CHR ''i'' then Console_PrintNum io arg CONSOLE_NUMTYPE_DECIMAL True con
      else if c = of_char CHR ''u'' then Console_PrintNum io arg CONSOLE_NUMTYPE_DECIMAL False con
      else if c = of_char CHR ''o'' then Console_PrintNum io arg CONSOLE_NUMTYPE_OCTAL False con
      else if c = of_char CHR ''x'' then Console_PrintNum io arg CONSOLE_NUMTYPE_HEXLOW False con
      else if c = of_char CHR ''X'' then Console_PrintNum io arg CONSOLE_NUMTYPE_HEXCAP False con
      else if c = of_char CHR ''p'' then Console_PrintNum io arg CONSOLE_NUMTYPE_HEXLOW False con
      else if c = of_char CHR ''s'' then Console_PrintString io arg con
      else if c = of_char CHR ''%'' then Console_PrintChar io c con
      else Option.bind (Console_PrintChar io (of_char CHR ''%'') con) (Console_PrintChar io c))"

partial_function (option) Console_VPrint ::
  "'d ports \<Rightarrow> u32 \<Rightarrow> (nat \<Rightarrow> u32) \<Rightarrow> nat \<Rightarrow> 'd console \<Rightarrow> 'd console option" where
  "Console_VPrint io format args k con =
     (let c = con_mem con format; d = con_mem con (format + 1)
      in if c = 0 then Some con
         else if c \<noteq> of_char CHR ''%'' then
           Option.bind (Console_PrintChar io c con) (Console_VPrint io (format + 1) args k)
         else if d = 0 then Some con
         else Option.bind (print_item io d (args k) con)
           (Console_VPrint io (format + 2) args (if takes_argument d then Suc k else k)))"

definition Console_Print ::
  "'d ports \<Rightarrow> u32 \<Rightarrow> (nat \<Rightarrow> u32) \<Rightarrow> 'd console \<times> cpu_state \<Rightarrow> ('d console \<times> cpu_state) option" where
  "Console_Print io format args cc =
     (case SpinLock_Acquire (Console_lock (fst cc)) (snd cc) of
        Inl e \<Rightarrow> None
      | Inr (l, cpu) \<Rightarrow>
          Option.bind (Console_VPrint io format args 0 ((fst cc)\<lparr>Console_lock := l\<rparr>)) (\<lambda>con.
            let (l', cpu') = SpinLock_Release (Console_lock con) cpu in Some (con\<lparr>Console_lock := l'\<rparr>, cpu')))"

text \<open>A panic never returns; the value is the state in which it stays.\<close>

definition Console_Panic :: "'d ports \<Rightarrow> u32 \<Rightarrow> (nat \<Rightarrow> u32) \<Rightarrow> 'd console \<Rightarrow> 'd console option" where
  "Console_Panic io format args con =
     (let con1 = con\<lparr>con_mem := Console_ClearScreen (con_mem con), Console_pos := CONSOLE_POS_START,
                     con_dev := Console_SetCursorPosition io CONSOLE_POS_START (con_dev con)\<rparr>
      in Option.bind (Console_VPrint io format args 0 con1) (\<lambda>con2. Some (con2\<lparr>Console_inpanic := True\<rparr>)))"

definition Console_Initialize :: "'d ports \<Rightarrow> 'd console \<Rightarrow> 'd console" where
  "Console_Initialize io con =
     (let m1 = fold (\<lambda>i. set_cell i (Console_Attribute CONSOLE_COLOR_BLACK CONSOLE_COLOR_GREEN OR 0))
                 [0..<CONSOLE_VGA_NUM_COLUMNS] (con_mem con);
          m2 = fold (\<lambda>(i, c). set_cell (CONSOLE_POS_START_BANNER + i)
                                (Console_Attribute CONSOLE_COLOR_RED CONSOLE_COLOR_GREEN OR of_char c))
                 (enumerate 0 ''AVOS'') m1
      in con\<lparr>con_mem := Console_ClearScreen m2,
             con_dev := Console_MakeCursorVisible io (Console_SetCursorPosition io (Console_pos con) (con_dev con)),
             Console_lock := SpinLock_Initialize (Console_lock con)\<rparr>)"

end
