(* ===== verification/AVOS_Console_Correct.thy ===== *)
theory AVOS_Console_Correct
  imports AVOS_Console
begin

text \<open>
  Correctness of the kernel console: printing a character refines the terminal \<open>term_put\<close> on a
  list of cells, and printing a number prints its numeral.
\<close>

section \<open>Cells of the screen\<close>

definition cell :: "memory \<Rightarrow> nat \<Rightarrow> u16" where
  "cell m i = load16 m (cell_addr i)"

definition blank :: u16 where
  "blank = Console_Attribute CONSOLE_COLOR_WHITE CONSOLE_COLOR_BLACK OR 0"

definition screen_offset :: "u32 \<Rightarrow> nat" where
  "screen_offset a = unat (a - Console_screen)"

lemma screen_addr_eq:
  assumes "n < 2 ^ 32"
  shows "a = Console_screen + of_nat n \<longleftrightarrow> screen_offset a = n"
proof -
  have n: "unat (of_nat n :: u32) = n" using assms by (simp add: unat_of_nat)
  have "a = Console_screen + of_nat n \<longleftrightarrow> a - Console_screen = of_nat n" by (auto simp: algebra_simps)
  also have "\<dots> \<longleftrightarrow> screen_offset a = n" unfolding screen_offset_def word_unat_eq_iff n ..
  finally show ?thesis .
qed

lemma set_cell_at:
  assumes "i < 2 ^ 16"
  shows "set_cell i v m a =
    (if screen_offset a = 2 * i then ucast v
     else if screen_offset a = 2 * i + 1 then ucast (drop_bit 8 v) else m a)"
proof -
  have "a = cell_addr i \<longleftrightarrow> screen_offset a = 2 * i" "a = cell_addr i + 1 \<longleftrightarrow> screen_offset a = 2 * i + 1"
    using screen_addr_eq [of "2 * i" a] screen_addr_eq [of "2 * i + 1" a] assms
    by (simp_all add: cell_addr_def add.commute add.left_commute)
  then show ?thesis by (simp add: set_cell_def store16_def)
qed

lemma screen_offset_cell:
  "i < 2 ^ 16 \<Longrightarrow> screen_offset (cell_addr i) = 2 * i"
  "i < 2 ^ 16 \<Longrightarrow> screen_offset (cell_addr i + 1) = 2 * i + 1"
  using screen_addr_eq [of "2 * i" "cell_addr i"] screen_addr_eq [of "2 * i + 1" "cell_addr i + 1"]
  by (simp_all add: cell_addr_def add.commute add.left_commute)

lemma cell_set_cell:
  assumes "i < 2 ^ 16" "j < 2 ^ 16"
  shows "cell (set_cell j v m) i = (if i = j then v else cell m i)"
proof (cases "i = j")
  case True
  then show ?thesis by (simp add: cell_def set_cell_def)
next
  case False
  have "2 * i \<noteq> 2 * j + 1" "2 * i + 1 \<noteq> 2 * j" by presburger+
  with False assms show ?thesis
    by (simp add: cell_def load16_def set_cell_at screen_offset_cell)
qed

lemma fold_set_cell:
  assumes "\<forall>i \<in> set is. i < 2 ^ 16" "j < 2 ^ 16"
  shows "cell (fold (\<lambda>i. set_cell i v) is m) j = (if j \<in> set is then v else cell m j)"
  using assms by (induction "is" arbitrary: m) (auto simp: cell_set_cell)

lemma fold_set_cell_frame:
  assumes "\<forall>i \<in> set is. i < 2 ^ 16" "\<forall>i \<in> set is. screen_offset a div 2 \<noteq> i"
  shows "fold (\<lambda>i. set_cell i v) is m a = m a"
  using assms by (induction "is" arbitrary: m) (auto simp: set_cell_at)

section \<open>Refinement of a terminal\<close>

text \<open>
  The abstract terminal: the position of the cursor and the cells of lines 1 to 24; line 0 is the
  banner, which printing never touches.
\<close>

definition term_scroll :: "nat \<times> u16 list \<Rightarrow> nat \<times> u16 list" where
  "term_scroll t = (if fst t \<ge> 2000 then (fst t - 80, drop 80 (snd t) @ replicate 80 blank) else t)"

definition term_put :: "u8 \<Rightarrow> nat \<times> u16 list \<Rightarrow> nat \<times> u16 list" where
  "term_put c t =
     (let (p, xs) = t
      in if c = 0 then t
         else if c = 0x0A then term_scroll ((p div 80 + 1) * 80, xs)
         else if c = 0x09 then term_scroll (p + 3, xs)
         else if c = 0x08 then (if p = 80 then t else (p - 1, xs[p - 1 - 80 := blank]))
         else term_scroll (p + 1, xs[p - 80 := Console_Attribute CONSOLE_COLOR_WHITE CONSOLE_COLOR_BLACK OR scast c]))"

definition text_cells :: "nat list" where
  "text_cells = [80..<2000]"

definition terminal :: "'d console \<Rightarrow> nat \<times> u16 list" where
  "terminal con = (unat (Console_pos con), map (cell (con_mem con)) text_cells)"

text \<open>The cursor is below the banner and on the screen, and the line below the screen is blank.\<close>

definition console_ok :: "'d console \<Rightarrow> bool" where
  "console_ok con \<longleftrightarrow> \<not> Console_inpanic con \<and> 80 \<le> unat (Console_pos con) \<and> unat (Console_pos con) < 2000
     \<and> (\<forall>i \<in> {2000..<2080}. cell (con_mem con) i = blank)"

lemma length_text_cells [simp]: "length text_cells = 1920"
  by (simp only: text_cells_def length_upt)

lemma nth_text_cells [simp]: "i < 1920 \<Longrightarrow> text_cells ! i = 80 + i"
  unfolding text_cells_def by (subst nth_upt) simp_all

lemmas console_sizes =
  CONSOLE_VGA_NUM_LINES_def CONSOLE_VGA_NUM_COLUMNS_def CONSOLE_POS_START_def

lemma cell_ClearLine:
  assumes "j < 2 ^ 16"
  shows "cell (Console_ClearLine 25 m) j = (if 2000 \<le> j \<and> j < 2080 then blank else cell m j)"
proof -
  have "Console_ClearLine 25 m = fold (\<lambda>i. set_cell i blank) (map ((+) 2000) [0..<80]) m"
    by (simp add: Console_ClearLine_def blank_def console_sizes fold_map comp_def)
  moreover have "set (map ((+) 2000) [0..<80]) = {2000..<2080 :: nat}" by auto
  ultimately show ?thesis using fold_set_cell [of "map ((+) 2000) [0..<80]" j blank m] assms by simp
qed

lemma ClearLine_frame:
  assumes "screen_offset a < 4000 \<or> 4160 \<le> screen_offset a"
  shows "Console_ClearLine 25 m a = m a"
proof -
  have "Console_ClearLine 25 m = fold (\<lambda>i. set_cell i blank) (map ((+) 2000) [0..<80]) m"
    by (simp add: Console_ClearLine_def blank_def console_sizes fold_map comp_def)
  then show ?thesis using fold_set_cell_frame [of "map ((+) 2000) [0..<80]" a blank m] assms by fastforce
qed

lemma scroll_bytes:
  assumes "unat n \<le> 2 ^ 16"
  shows "snd (memmove m (cell_addr 80) (cell_addr 160) n) a =
    (if 160 \<le> screen_offset a \<and> screen_offset a < 160 + unat n then m (a + 160) else m a)"
proof -
  have c: "cell_addr 80 = 0x800B80A0" "cell_addr 160 = 0x800B8140" "Console_screen = 0x800B8000"
    by (simp_all add: cell_addr_def Console_screen_def CONSOLE_VGA_TEXT_BUFFER_def KERNEL_HIGHER_HALF_OFFSET_def)
  have mm: "memmove m (cell_addr 80) (cell_addr 160) n = (cell_addr 80, \<lambda>a. if a - cell_addr 80 < n then m (cell_addr 160 + (a - cell_addr 80)) else m a)"
    by (rule memmove_region) (use assms in \<open>simp_all add: c\<close>)
  have src: "cell_addr 160 + (a - cell_addr 80) = a + 160" by (simp add: c)
  have "a - cell_addr 80 = (a - Console_screen) - 160" by (simp add: c)
  then have u: "unat (a - cell_addr 80) = (if 160 \<le> screen_offset a then screen_offset a - 160 else screen_offset a + 2 ^ 32 - 160)"
    using unat_sub_if' [of "a - Console_screen" 160] by (simp only: screen_offset_def) simp
  have "a - cell_addr 80 < n \<longleftrightarrow> 160 \<le> screen_offset a \<and> screen_offset a < 160 + unat n"
    unfolding word_less_nat_alt u using assms by auto
  then show ?thesis by (simp add: mm src del: add_uminus_conv_diff)
qed

lemma scroll_cells:
  assumes "unat n = 2 * k" "k \<le> 2 ^ 15" "i < 2 ^ 15"
  shows "cell (snd (memmove m (cell_addr 80) (cell_addr 160) n)) i =
    (if 80 \<le> i \<and> i < 80 + k then cell m (i + 80) else cell m i)"
proof -
  have addr: "cell_addr i + 160 = cell_addr (i + 80)" "cell_addr i + 1 + 160 = cell_addr (i + 80) + 1"
    by (simp_all add: cell_addr_def)
  have off: "screen_offset (cell_addr i) = 2 * i" "screen_offset (cell_addr i + 1) = 2 * i + 1"
    using screen_offset_cell [of i] assms(3) by simp_all
  have n: "unat n \<le> 2 ^ 16" using assms by simp
  show ?thesis unfolding cell_def load16_def scroll_bytes [OF n] off addr assms(1) by auto
qed

lemma unat_u16_small: "n < 2 ^ 16 \<Longrightarrow> unat (of_nat n :: u16) = n"
  by (simp add: unat_of_nat)

text \<open>The end of \<open>Console_PrintChar\<close>, from a state whose cursor may have left the screen.\<close>

lemma finish_terminal:
  assumes pos: "80 \<le> unat (Console_pos con)" "unat (Console_pos con) < 2080"
    and blanks: "\<forall>i \<in> {2000..<2080}. cell (con_mem con) i = blank" and ok: "\<not> Console_inpanic con"
  shows "console_ok (Console_finish io con)" and "terminal (Console_finish io con) = term_scroll (terminal con)"
    and "screen_offset a < 160 \<or> 4160 \<le> screen_offset a \<Longrightarrow> con_mem (Console_finish io con) a = con_mem con a"
proof -
  let ?p = "unat (Console_pos con)" and ?s = "Console_scroll con"
  let ?n = "(ucast (Console_pos con) - 80) * 2 :: u32"
  have blank: "cell (con_mem con) i = blank" if "2000 \<le> i" "i < 2080" for i
    using blanks that by simp
  have up: "unat (ucast (Console_pos con) :: u32) = ?p"
    using unsigned_less [of "Console_pos con", where ?'a = nat] by (simp add: unsigned_ucast_eq take_bit_nat_eq_self_iff)
  have n: "unat ?n = 2 * (?p - 80)"
  proof -
    have "(80 :: u32) \<le> ucast (Console_pos con)" unfolding word_le_nat_alt up using pos(1) by simp
    then have "unat (ucast (Console_pos con) - 80 :: u32) = ?p - 80" by (simp add: unat_sub up)
    then show ?thesis using pos(2) by (subst unat_mult_lem [THEN iffD1]) simp_all
  qed
  have ge: "of_nat (CONSOLE_VGA_NUM_COLUMNS * CONSOLE_VGA_NUM_LINES) \<le> Console_pos con \<longleftrightarrow> 2000 \<le> ?p"
    by (simp add: console_sizes word_le_nat_alt)
  have s: "?s = (if 2000 \<le> ?p then con\<lparr>con_mem := snd (memmove (con_mem con) (cell_addr 80) (cell_addr 160) ?n),
      Console_pos := Console_pos con - 80\<rparr> else con)"
    unfolding Console_scroll_def ge by (simp add: console_sizes)
  have sp: "unat (Console_pos ?s) = (if 2000 \<le> ?p then ?p - 80 else ?p)"
  proof (cases "2000 \<le> ?p")
    case True
    then have "(80 :: u16) \<le> Console_pos con" unfolding word_le_nat_alt by simp
    then show ?thesis using True by (simp add: s unat_sub)
  qed (simp add: s)
  have sc: "cell (con_mem ?s) i = (if 2000 \<le> ?p \<and> 80 \<le> i \<and> i < ?p then cell (con_mem con) (i + 80) else cell (con_mem con) i)"
    if "i < 2000" for i
    using scroll_cells [OF n, of i "con_mem con"] pos that by (auto simp: s)
  have fin: "con_mem (Console_finish io con) = Console_ClearLine 25 (con_mem ?s)"
    "Console_pos (Console_finish io con) = Console_pos ?s" "Console_inpanic (Console_finish io con) = Console_inpanic con"
    by (simp_all add: Console_finish_def Let_def CONSOLE_VGA_NUM_LINES_def Console_scroll_def)
  show "console_ok (Console_finish io con)"
    unfolding console_ok_def fin sp using ok pos
    by (auto simp: cell_ClearLine)
  have cells: "cell (Console_ClearLine 25 (con_mem ?s)) i = cell (con_mem ?s) i" if "i < 2000" for i
    using that by (simp add: cell_ClearLine)
  have "map (cell (Console_ClearLine 25 (con_mem ?s))) text_cells = snd (term_scroll (terminal con))"
    by (rule nth_equalityI) (auto simp: cells sc term_scroll_def terminal_def nth_append blank)
  then show "terminal (Console_finish io con) = term_scroll (terminal con)"
    unfolding terminal_def fin sp by (auto simp: term_scroll_def)
  show "con_mem (Console_finish io con) a = con_mem con a" if "screen_offset a < 160 \<or> 4160 \<le> screen_offset a"
  proof -
    have "unat ?n \<le> 2 ^ 16" using n pos by simp
    then have "con_mem ?s a = con_mem con a"
      using that n pos by (auto simp: s scroll_bytes)
    then show ?thesis unfolding fin using that by (subst ClearLine_frame) auto
  qed
qed

text \<open>The common end of the cases: at most one cell \<open>j\<close> of the text was set and the position moved to \<open>r\<close>.\<close>

lemma PrintChar_finish:
  assumes ok: "console_ok con" and con': "con' = Console_finish io (con\<lparr>con_mem := m, Console_pos := q\<rparr>)" "unat q = r" "80 \<le> r" "r < 2080"
    and m: "m = con_mem con \<or> m = set_cell j v (con_mem con)" "80 \<le> j" "j < 2000"
    and put: "term_put c (terminal con) = term_scroll (r, map (cell m) text_cells)"
  shows "console_ok con' \<and> terminal con' = term_put c (terminal con)
    \<and> (screen_offset a < 160 \<or> 4160 \<le> screen_offset a \<longrightarrow> con_mem con' a = con_mem con a)"
proof -
  have np: "\<not> Console_inpanic con" and bl: "\<forall>i \<in> {2000..<2080}. cell (con_mem con) i = blank"
    using ok by (auto simp: console_ok_def)
  have b: "\<forall>i \<in> {2000..<2080}. cell m i = blank" using m bl by (auto simp: cell_set_cell)
  have f: "m a = con_mem con a" if "screen_offset a < 160 \<or> 4160 \<le> screen_offset a"
    using m that by (auto simp: set_cell_at)
  show ?thesis
    using finish_terminal [of "con\<lparr>con_mem := m, Console_pos := q\<rparr>"] con' put b np f by (auto simp: terminal_def)
qed

lemma text_cells_update:
  "80 \<le> j \<Longrightarrow> j < 2000 \<Longrightarrow> map (cell (set_cell j v m)) text_cells = (map (cell m) text_cells)[j - 80 := v]"
  by (intro nth_equalityI) (auto simp: cell_set_cell nth_list_update)

lemma PrintChar_terminal:
  assumes ok: "console_ok con" and pr: "Console_PrintChar io c con = Some con'"
  shows "console_ok con' \<and> terminal con' = term_put c (terminal con)
    \<and> (screen_offset a < 160 \<or> 4160 \<le> screen_offset a \<longrightarrow> con_mem con' a = con_mem con a)"
proof -
  let ?p = "unat (Console_pos con)"
  have p: "80 \<le> ?p" "?p < 2000" and np: "\<not> Console_inpanic con"
    using ok by (auto simp: console_ok_def)
  note fin = PrintChar_finish [OF ok, where con' = con' and c = c and io = io] and upd = text_cells_update
  consider "c = 0" | "c = 0x0A" | "c = 0x09" | "c = 0x08" "Console_pos con = 80" | "c = 0x08" "Console_pos con \<noteq> 80"
    | "c \<notin> {0, 0x0A, 0x09, 0x08}" by auto
  then show ?thesis
  proof cases
    case 1
    then show ?thesis
      using fin [where m = "con_mem con" and q = "Console_pos con" and r = ?p and j = "80"] pr p np
      by (simp add: Console_PrintChar_def term_put_def term_scroll_def terminal_def)
  next
    case 2
    have "unat ((Console_pos con div 80 + 1) * 80) = (?p div 80 + 1) * 80"
    proof -
      have "?p div 80 < 25" using p by simp
      then show ?thesis by (simp add: unat_word_ariths unat_div)
    qed
    then show ?thesis
      using 2 fin [where m = "con_mem con" and q = "(Console_pos con div 80 + 1) * 80" and r = "(?p div 80 + 1) * 80" and j = "80"] pr p np
      by (simp add: Console_PrintChar_def term_put_def terminal_def console_sizes)
  next
    case 3
    have "unat (Console_pos con + 3) = ?p + 3" using p by (simp add: unat_word_ariths)
    then show ?thesis
      using 3 fin [where m = "con_mem con" and q = "Console_pos con + 3" and r = "?p + 3" and j = "80"] pr p np
      by (simp add: Console_PrintChar_def term_put_def terminal_def)
  next
    case 4
    then show ?thesis
      using pr ok np by (auto simp: Console_PrintChar_def term_put_def terminal_def console_sizes)
  next
    case 5
    then have q: "?p \<noteq> 80" by (simp add: word_unat_eq_iff)
    have u: "unat (Console_pos con - 1) = ?p - 1" using p by (simp add: unat_sub word_le_nat_alt)
    have "con' = Console_finish io (con\<lparr>con_mem := set_cell (?p - 1) blank (con_mem con), Console_pos := Console_pos con - 1\<rparr>)"
      using pr 5 u np by (simp add: Console_PrintChar_def Let_def console_sizes blank_def)
    then show ?thesis
      by (rule fin [where r = "?p - 1" and j = "?p - 1" and v = blank])
        (use 5 u q p upd [of "?p - 1" blank] in \<open>auto simp: term_put_def term_scroll_def terminal_def\<close>)
  next
    case 6
    let ?v = "Console_Attribute CONSOLE_COLOR_WHITE CONSOLE_COLOR_BLACK OR scast c"
    have u: "unat (Console_pos con + 1) = ?p + 1" using p by (simp add: unat_word_ariths)
    have "con' = Console_finish io (con\<lparr>con_mem := set_cell ?p ?v (con_mem con), Console_pos := Console_pos con + 1\<rparr>)"
      using pr 6 np by (simp add: Console_PrintChar_def Let_def)
    then show ?thesis
      by (rule fin [where r = "?p + 1" and j = ?p and v = ?v])
        (use 6 u p upd [of ?p ?v] in \<open>auto simp: term_put_def terminal_def\<close>)
  qed
qed

lemma PrintChar_returns: "console_ok con \<Longrightarrow> \<exists>con'. Console_PrintChar io c con = Some con'"
  by (auto simp: console_ok_def Console_PrintChar_def Let_def)

lemma Initialize_ok:
  assumes "Console_pos con = CONSOLE_POS_START" "\<not> Console_inpanic con"
  shows "console_ok (Console_Initialize io con)"
  using assms
  by (simp add: console_ok_def Console_Initialize_def Console_ClearScreen_def Let_def console_sizes cell_ClearLine)

lemma Initialize_frame:
  assumes "4160 \<le> screen_offset a"
  shows "con_mem (Console_Initialize io con) a = con_mem con a"
proof -
  have f: "fold (\<lambda>i. set_cell i v) [k..<n] m a = m a" if "n \<le> 2080" for k n v m
    by (rule fold_set_cell_frame) (use that assms in auto)
  have c: "set_cell i v m a = m a" if "i < 2080" for i v m
    using that assms by (simp add: set_cell_at)
  show ?thesis
    using assms by (simp add: Console_Initialize_def Console_ClearScreen_def Let_def console_sizes ClearLine_frame
        CONSOLE_POS_START_BANNER_def enumerate_simps c f del: upt_rec_numeral)
qed

section \<open>Numerals\<close>

text \<open>The text of a number in a base, without leading zeros, and with a fixed number of digits.\<close>

fun numeral_text :: "u8 list \<Rightarrow> nat \<Rightarrow> nat \<Rightarrow> u8 list" where
  "numeral_text ds b n = (if n < b \<or> b < 2 then [ds ! n] else numeral_text ds b (n div b) @ [ds ! (n mod b)])"

declare numeral_text.simps [simp del]

fun padded :: "u8 list \<Rightarrow> nat \<Rightarrow> nat \<Rightarrow> nat \<Rightarrow> u8 list" where
  "padded ds b 0 n = [ds ! n]"
| "padded ds b (Suc k) n = ds ! (n div b ^ Suc k) # padded ds b k (n mod b ^ Suc k)"

fun print_all :: "(u8 \<Rightarrow> 's \<Rightarrow> 's option) \<Rightarrow> u8 list \<Rightarrow> 's \<Rightarrow> 's option" where
  "print_all put [] s = Some s"
| "print_all put (c # cs) s = Option.bind (put c s) (print_all put cs)"

lemma print_all_single: "Option.bind (put c s) (print_all put []) = put c s"
  by (cases "put c s") simp_all

lemma print_all_append: "print_all put (xs @ ys) s = Option.bind (print_all put xs s) (print_all put ys)"
  by (induction xs arbitrary: s) (auto split: bind_splits)

lemma padded_snoc:
  assumes "1 < b"
  shows "padded ds b (Suc k) n = padded ds b k (n div b) @ [ds ! (n mod b)]"
proof (induction k arbitrary: n)
  case (Suc k)
  have d: "n div b ^ Suc (Suc k) = n div b div b ^ Suc k" by (simp add: div_mult2_eq)
  have m: "n mod b ^ Suc (Suc k) div b = n div b mod b ^ Suc k" "n mod b ^ Suc (Suc k) mod b = n mod b"
    using assms by (simp_all add: mod_mult2_eq mod_mod_cancel)
  have "padded ds b (Suc (Suc k)) n = ds ! (n div b ^ Suc (Suc k)) # padded ds b (Suc k) (n mod b ^ Suc (Suc k))"
    by (simp only: padded.simps)
  also have "\<dots> = padded ds b (Suc k) (n div b) @ [ds ! (n mod b)]"
    unfolding Suc.IH [of "n mod b ^ Suc (Suc k)"] m d by (simp only: padded.simps append_Cons)
  finally show ?case .
qed simp

lemma numeral_text_padded:
  assumes "1 < b" "b ^ k \<le> n" "n < b ^ Suc k"
  shows "numeral_text ds b n = padded ds b k n"
  using assms(2,3)
proof (induction k arbitrary: n)
  case 0
  then show ?case by (subst numeral_text.simps) simp
next
  case (Suc k)
  have "b ^ Suc k \<ge> b" using assms(1) by simp
  then have n: "\<not> n < b" using Suc.prems(1) by linarith
  have "b ^ k \<le> n div b" "n div b < b ^ Suc k"
    using Suc.prems assms(1) by (simp_all add: less_eq_div_iff_mult_less_eq div_less_iff_less_mult mult.commute)
  then have "numeral_text ds b (n div b) = padded ds b k (n div b)" by (rule Suc.IH)
  then show ?case
    using n assms(1) padded_snoc [OF assms(1), of ds k n] by (subst numeral_text.simps) simp
qed

text \<open>The loop over the divisors prints these texts.\<close>

lemma unat_pow_u32:
  assumes "b ^ k < 2 ^ 32"
  shows "unat (of_nat (b ^ k) :: u32) = b ^ k"
  using assms by (simp only: unat_of_nat) simp

lemma print_digits_padded:
  assumes b: "1 < b" "b < 2 ^ 32" and "b ^ k < 2 ^ 32" "unat val < b ^ Suc k"
  shows "print_digits put ds (of_nat b) (of_nat (b ^ k)) True val s = print_all put (padded ds b k (unat val)) s"
  using assms(3,4)
proof (induction k arbitrary: val s)
  case 0
  have "(1 :: u32) div of_nat b = 0"
    using b unfolding word_unat_eq_iff unat_div by (simp add: unat_of_nat)
  moreover have "print_digits put ds (of_nat b) 0 True v s = Some s" for v s
    by (subst print_digits.simps) simp
  ultimately show ?case by (subst print_digits.simps) (auto split: bind_splits)
next
  case (Suc k)
  let ?d = "of_nat (b ^ Suc k) :: u32"
  have u: "unat ?d = b ^ Suc k" by (rule unat_pow_u32) (rule Suc.prems)
  have k: "b ^ k < 2 ^ 32" using Suc.prems(1) b by (auto intro: le_less_trans [rotated])
  have pos: "0 < ?d" using b unfolding word_less_nat_alt u by simp
  have ud: "unat (of_nat b :: u32) = b" using b by (simp add: unat_of_nat)
  have next_d: "?d div of_nat b = of_nat (b ^ k)"
    unfolding word_unat_eq_iff unat_div u ud unat_pow_u32 [OF k] using b by simp
  have q: "unat (val div ?d) = unat val div b ^ Suc k" "unat (val mod ?d) = unat val mod b ^ Suc k"
    by (simp_all only: unat_div unat_mod u)
  have lt: "unat (val mod ?d) < b ^ Suc k" unfolding q using b by simp
  have "print_digits put ds (of_nat b) (of_nat (b ^ k)) True (val mod ?d) = print_all put (padded ds b k (unat (val mod ?d)))"
    by (rule ext) (rule Suc.IH [OF k lt])
  then show ?case
    unfolding padded.simps print_all.simps q(2) [symmetric]
    using pos next_d by (subst print_digits.simps) (simp add: q(1) Let_def del: of_nat_power power_Suc)
qed

lemma print_digits_numeral:
  assumes b: "1 < b" "b < 2 ^ 32" and "b ^ k < 2 ^ 32" "0 < unat val" "unat val < b ^ Suc k"
  shows "print_digits put ds (of_nat b) (of_nat (b ^ k)) False val s = print_all put (numeral_text ds b (unat val)) s"
  using assms(3,4,5)
proof (induction k)
  case started: 0
  have "print_digits put ds (of_nat b) 1 False val s = print_digits put ds (of_nat b) 1 True val s"
    using started(2) by (subst (1 2) print_digits.simps) (simp add: word_less_nat_alt)
  then show ?case
    using started print_digits_padded [OF b, of 0 val] numeral_text_padded [OF b(1), of 0 "unat val" ds] by simp
next
  case (Suc k)
  let ?d = "of_nat (b ^ Suc k) :: u32"
  have u: "unat ?d = b ^ Suc k" by (rule unat_pow_u32) (rule Suc.prems)
  have ud: "unat (of_nat b :: u32) = b" using b by (simp add: unat_of_nat)
  have k: "b ^ k < 2 ^ 32" using Suc.prems(1) b by (auto intro: le_less_trans [rotated])
  have pos: "0 < ?d" using b unfolding word_less_nat_alt u by simp
  show ?case
  proof (cases "b ^ Suc k \<le> unat val")
    case True
    have "0 < unat (val div ?d)" unfolding unat_div u using True b by (simp add: div_greater_zero_iff del: power_Suc)
    then have "print_digits put ds (of_nat b) ?d False val s = print_digits put ds (of_nat b) ?d True val s"
      by (subst (1 2) print_digits.simps) (simp add: word_less_nat_alt del: of_nat_power power_Suc)
    then show ?thesis
      using print_digits_padded [OF b Suc.prems(1,3)] numeral_text_padded [OF b(1) True Suc.prems(3)] by simp
  next
    case False
    then have v: "val div ?d = 0" "val mod ?d = val" "unat val < b ^ Suc k"
      unfolding word_unat_eq_iff unat_div unat_mod u by auto
    have "?d div of_nat b = of_nat (b ^ k)"
      unfolding word_unat_eq_iff unat_div u ud unat_pow_u32 [OF k] using b by simp
    then show ?thesis
      using Suc.IH [OF k Suc.prems(2) v(3)] pos v
      by (subst print_digits.simps) (simp add: Let_def del: of_nat_power power_Suc)
  qed
qed

section \<open>Numbers\<close>

definition num_base :: "u32 \<Rightarrow> nat" where
  "num_base num_type = (if num_type = CONSOLE_NUMTYPE_OCTAL then 8 else if num_type = CONSOLE_NUMTYPE_DECIMAL then 10 else 16)"

text \<open>C's way of writing a number: its numeral, marked with the base unless it is a single digit.\<close>

definition number_text :: "u32 \<Rightarrow> nat \<Rightarrow> u8 list" where
  "number_text num_type n =
     (if n < num_base num_type \<and> n < 10 then []
      else if num_type = CONSOLE_NUMTYPE_OCTAL then [of_char CHR ''0'']
      else if num_type = CONSOLE_NUMTYPE_DECIMAL then [] else map of_char ''0x'')
     @ numeral_text (if num_type = CONSOLE_NUMTYPE_HEXCAP then digits_cap else digits_low) (num_base num_type) n"

lemmas num_types =
  CONSOLE_NUMTYPE_DECIMAL_def CONSOLE_NUMTYPE_OCTAL_def CONSOLE_NUMTYPE_HEXLOW_def CONSOLE_NUMTYPE_HEXCAP_def

lemma digit_small: "n < 10 \<Longrightarrow> digits_cap ! n = digits_low ! n"
  by (auto simp: digits_cap_def digits_low_def numeral_eq_Suc less_Suc_eq)

lemma print_digits_by_type:
  assumes "0 < unat val" and "num_type < 4"
  defines "base \<equiv> (if num_type = CONSOLE_NUMTYPE_OCTAL then 8 else if num_type = CONSOLE_NUMTYPE_DECIMAL then 10 else 0x10)"
    and "divisor \<equiv> (if num_type = CONSOLE_NUMTYPE_OCTAL then 0x40000000
                   else if num_type = CONSOLE_NUMTYPE_DECIMAL then 1000000000 else 0x10000000)"
  shows "print_digits put ds base divisor False val s = print_all put (numeral_text ds (num_base num_type) (unat val)) s"
  using print_digits_numeral [of 8 10 val put ds s] print_digits_numeral [of 10 9 val put ds s]
    print_digits_numeral [of 16 7 val put ds s] unat_u32_lt [of val] assms(1)
  by (auto simp: base_def divisor_def num_base_def)


text \<open>The number meant by the bits \<open>num\<close>.\<close>

definition number_value :: "bool \<Rightarrow> u32 \<Rightarrow> int" where
  "number_value withsign num = (if withsign then sint num else uint num)"

lemma uint_u32_lt: "uint (num :: u32) < 4294967296"
  using uint_lt2p [of num] by simp

lemma sint_u32: "sint (num :: u32) = (if unat num < 2 ^ 31 then int (unat num) else int (unat num) - 2 ^ 32)"
proof -
  have s: "sint num = (uint num + 2147483648) mod 4294967296 - 2147483648"
    using int_word_sint [where ?'a = 32, of "uint num"] by simp
  have u: "uint num = int (unat num)" by simp
  have "uint num < 4294967296" "0 \<le> uint num" by (rule uint_u32_lt, simp)
  then have "(uint num + 2147483648) mod 4294967296
      = (if uint num < 2147483648 then uint num + 2147483648 else uint num - 2147483648)"
    using mod_add_self2 [of "uint num - 2147483648" 4294967296] by (auto simp: mod_pos_pos_trivial add.commute)
  then have "sint num = (if uint num < 2147483648 then uint num else uint num - 4294967296)"
    unfolding s by simp
  moreover have "uint num < 2147483648 \<longleftrightarrow> unat num < 2147483648" by (simp only: u of_nat_less_numeral_iff)
  ultimately show ?thesis by simp
qed

lemma signed_magnitude:
  fixes num :: u32
  assumes "num \<noteq> 0x80000000"
  shows "0x80000000 < num \<longleftrightarrow> sint num < 0" and "unat (if 0x80000000 < num then 0 - num else num) = nat \<bar>sint num\<bar>"
proof -
  have n: "unat num \<noteq> 2147483648" using assms by (auto simp: word_unat_eq_iff)
  have lt: "0x80000000 < num \<longleftrightarrow> 2147483648 < unat num" by (simp add: word_less_nat_alt)
  show "0x80000000 < num \<longleftrightarrow> sint num < 0"
    unfolding lt sint_u32 using n uint_u32_lt [of num] by auto
  have "unat (0 - num) = 4294967296 - unat num" if "2147483648 < unat num"
    using that unat_sub_if' [of 0 num] by simp
  then show "unat (if 0x80000000 < num then 0 - num else num) = nat \<bar>sint num\<bar>"
    unfolding lt sint_u32 using n unat_u32_lt [of num] uint_u32_lt [of num] by (auto simp: nat_diff_distrib)
qed

lemma numeral_text_digit: "n < b \<Longrightarrow> numeral_text ds b n = [ds ! n]"
  by (simp add: numeral_text.simps)

lemma num_type_cases:
  fixes num_type :: u32
  assumes "num_type < 4"
  obtains "num_type = 0" | "num_type = 1" | "num_type = 2" | "num_type = 3"
proof -
  have "unat num_type < 4" using assms by (simp add: word_less_nat_alt)
  then have "unat num_type \<in> {0, 1, 2, 3}" by auto
  then have "num_type \<in> {0, 1, 2, 3}" by (auto simp: word_unat_eq_iff)
  then show ?thesis using that by auto
qed

lemma print_number_magnitude:
  fixes num_type :: u32
  assumes ty: "num_type < 4" and oct: "\<not> (num_type = CONSOLE_NUMTYPE_OCTAL \<and> 8 \<le> val \<and> val < 10)"
    and val: "val = (if withsign then if num > 0x80000000 then 0 - num else num else num)"
  shows "print_number put num num_type withsign s =
    print_all put ((if withsign \<and> num > 0x80000000 then [of_char CHR ''-''] else []) @ number_text num_type (unat val)) s"
proof -
  have u: "val < 8 \<longleftrightarrow> unat val < 8" "val < 10 \<longleftrightarrow> unat val < 10" "8 \<le> val \<longleftrightarrow> 8 \<le> unat val" by (auto simp: word_less_nat_alt word_le_nat_alt)
  have loop: "print_digits put ds (if num_type = CONSOLE_NUMTYPE_OCTAL then 8 else if num_type = CONSOLE_NUMTYPE_DECIMAL then 10 else 0x10)
      (if num_type = CONSOLE_NUMTYPE_OCTAL then 0x40000000
       else if num_type = CONSOLE_NUMTYPE_DECIMAL then 1000000000 else 0x10000000) False val =
      print_all put (numeral_text ds (num_base num_type) (unat val))" if "10 \<le> unat val" for ds
    by (rule ext, rule print_digits_by_type [OF _ ty]) (use that in simp)
  from ty show ?thesis
    by (cases rule: num_type_cases; cases "unat val < 10"; cases "unat val < 8")
      (use oct loop in \<open>auto simp: print_number_def val [symmetric] u num_types num_base_def number_text_def Let_def
        print_all_append numeral_text_digit digit_small split: bind_splits\<close>)
qed

text \<open>The two values that are treated differently: the shortcut for small numbers, and \<open>-2\<^sup>31\<close>.\<close>

lemma print_octal_shortcut:
  assumes "unat val \<in> {8, 9}" and "val = (if withsign then if num > 0x80000000 then 0 - num else num else num)"
  shows "print_number put num CONSOLE_NUMTYPE_OCTAL withsign s =
    print_all put ((if withsign \<and> num > 0x80000000 then [of_char CHR ''-''] else [])
      @ [of_char (CHR ''0'') + of_nat (unat val)]) s"
proof -
  have "\<not> val < 8" "val < 10" using assms(1) by (auto simp: word_less_nat_alt)
  moreover have "digits_low ! unat val = of_char (CHR ''0'') + of_nat (unat val)"
  proof -
    consider "unat val = 8" | "unat val = 9" using assms(1) by blast
    then show ?thesis by cases (simp_all add: digits_low_def)
  qed
  ultimately show ?thesis
    using assms(2) by (auto simp: print_number_def num_types Let_def print_all_append print_all_single split: bind_splits)
qed

lemma printed_magnitude:
  "unat (if withsign then if num > 0x80000000 then 0 - num else num else num) = nat \<bar>number_value withsign num\<bar>"
proof (cases "num = 0x80000000")
  case True
  then show ?thesis by (simp add: number_value_def)
next
  case False
  then show ?thesis using signed_magnitude(2) [of num] by (auto simp: number_value_def)
qed

section \<open>Properties\<close>

text \<open>
  C29: From a state whose cursor is below the banner and on the screen, printing a character always
  returns, keeps the cursor there, acts on lines 1 to 24 as the abstract terminal does (characters,
  new line, tabulator, backspace, scrolling by a line when the cursor leaves the screen) and changes
  no byte of the banner or outside the text buffer.
\<close>

theorem Console_PrintChar_refines_terminal:
  assumes "console_ok con"
  shows "\<exists>con'. Console_PrintChar io c con = Some con' \<and> console_ok con'
    \<and> terminal con' = term_put c (terminal con)
    \<and> (\<forall>a. screen_offset a < 160 \<or> 4160 \<le> screen_offset a \<longrightarrow> con_mem con' a = con_mem con a)"
  using PrintChar_returns [OF assms, of io c] PrintChar_terminal [OF assms, of io c] by blast

definition quiet_ports :: "unit ports" where
  "quiet_ports = \<lparr>Inb = \<lambda>p d. (0, d), Outb = \<lambda>p v d. d\<rparr>"

definition fresh_console :: "unit console" where
  "fresh_console = Console_Initialize quiet_ports
     \<lparr>con_mem = \<lambda>a. 0, Console_pos = CONSOLE_POS_START, Console_inpanic = False, Console_lock = \<lparr>flag = True\<rparr>, con_dev = ()\<rparr>"

lemma fresh_console_ok: "console_ok fresh_console"
  unfolding fresh_console_def by (rule Initialize_ok) simp_all

theorem Console_PrintChar_refines_terminal_witness:
  "\<exists>con'. Console_PrintChar quiet_ports 0x41 fresh_console = Some con' \<and> console_ok con'
    \<and> terminal con' = term_put 0x41 (terminal fresh_console)"
  using Console_PrintChar_refines_terminal [OF fresh_console_ok, of quiet_ports "0x41"] by blast

text \<open>
  C30: What printing a number prints, for every value and type: the sign of a negative signed number, the
  mark of the base and the numeral of its magnitude without leading zeros, character by character; nothing
  for an unknown type. The two values the code treats wrongly are part of the statement: the most negative
  signed number has no sign, and a magnitude of 8 or 9 in octal is printed as that decimal digit.
\<close>

theorem Console_PrintNum_text:
  "Console_PrintNum io num num_type withsign con =
    print_all (Console_PrintChar io)
      (if 4 \<le> num_type then []
       else (if number_value withsign num < 0 \<and> num \<noteq> 0x80000000 then [of_char CHR ''-''] else [])
         @ (if num_type = CONSOLE_NUMTYPE_OCTAL \<and> nat \<bar>number_value withsign num\<bar> \<in> {8, 9}
            then [of_char (CHR ''0'') + of_nat (nat \<bar>number_value withsign num\<bar>)]
            else number_text num_type (nat \<bar>number_value withsign num\<bar>))) con"
proof (cases "4 \<le> num_type")
  case True
  then show ?thesis by (auto simp: Console_PrintNum_def print_number_def num_types word_le_nat_alt)
next
  case known: False
  define val where "val = (if withsign then if num > 0x80000000 then 0 - num else num else num)"
  have v: "unat val = nat \<bar>number_value withsign num\<bar>" unfolding val_def by (rule printed_magnitude)
  have sign: "withsign \<and> num > 0x80000000 \<longleftrightarrow> number_value withsign num < 0 \<and> num \<noteq> 0x80000000"
    using signed_magnitude [of num] by (auto simp: number_value_def)
  show ?thesis
  proof (cases "num_type = CONSOLE_NUMTYPE_OCTAL \<and> unat val \<in> {8, 9}")
    case True
    then show ?thesis
      using print_octal_shortcut [of val withsign num "Console_PrintChar io" con] val_def known sign
      unfolding Console_PrintNum_def v [symmetric] by simp
  next
    case False
    then have oct: "\<not> (num_type = CONSOLE_NUMTYPE_OCTAL \<and> 8 \<le> val \<and> val < 10)"
      by (auto simp: word_le_nat_alt word_less_nat_alt)
    have "num_type < 4" using known by simp
    from print_number_magnitude [OF this oct val_def] show ?thesis
      unfolding Console_PrintNum_def v [symmetric] if_not_P [OF known] if_not_P [OF False] sign .
  qed
qed

theorem Console_PrintNum_text_witness:
  "Console_PrintNum quiet_ports 0xFFFFFFD6 CONSOLE_NUMTYPE_DECIMAL True fresh_console
    = print_all (Console_PrintChar quiet_ports) (map of_char ''-42'') fresh_console \<and>
   Console_PrintNum quiet_ports 0xBEEF CONSOLE_NUMTYPE_HEXLOW False fresh_console
    = print_all (Console_PrintChar quiet_ports) (map of_char ''0xbeef'') fresh_console \<and>
   Console_PrintNum quiet_ports 8 CONSOLE_NUMTYPE_OCTAL False fresh_console
    = print_all (Console_PrintChar quiet_ports) (map of_char ''8'') fresh_console \<and>
   Console_PrintNum quiet_ports 0x80000000 CONSOLE_NUMTYPE_DECIMAL True fresh_console
    = print_all (Console_PrintChar quiet_ports) (map of_char ''2147483648'') fresh_console"
  unfolding Console_PrintNum_text
  by (simp add: num_types number_value_def number_text_def num_base_def numeral_text.simps digits_low_def word_le_nat_alt)

end
