(* ===== verification/AVOS_Interrupt.thy ===== *)
theory AVOS_Interrupt
  imports AVOS_Process AVOS_Descriptors
begin

text \<open>
  Dispatch of interrupts and system calls: \<open>kernel/arch/tasking/src/interrupt.c\<close> and
  \<open>kernel/core/syscall/src/syscall.c\<close>. A handler is a function on the interrupted context and
  on the state \<open>'s\<close> of the kernel; a null pointer in a table is \<open>None\<close>, and calling it is the
  fault \<open>Null_Call\<close>.
\<close>

type_synonym 's handler = "IContext \<Rightarrow> 's \<Rightarrow> (IContext \<times> 's) result"

record 's SysCall_entry =
  sc_id :: u32
  sc_flags :: u32
  sc_handler :: "'s handler option"

record 's handlers =
  Interrupt_Handlers :: "nat \<Rightarrow> 's handler option"
  SysCall_vector :: "nat \<Rightarrow> 's SysCall_entry"

definition call_handler :: "'s handler option \<Rightarrow> 's handler" where
  "call_handler h frame s = (case h of None \<Rightarrow> Inl Null_Call | Some f \<Rightarrow> f frame s)"

definition SysCall :: "'s handlers \<Rightarrow> u32 \<Rightarrow> 's handler" where
  "SysCall t call_id frame s =
     (if call_id \<ge> KERNEL_NUM_SYSCALLS then Inr (frame, s)
      else call_handler (sc_handler (SysCall_vector t (unat call_id))) frame s)"

definition Interrupt_Handle :: "'s handlers \<Rightarrow> 's handler" where
  "Interrupt_Handle t frame s =
     res_bind (if ic_vector frame = 0x80 then SysCall t (ic_eax frame) frame s else Inr (frame, s)) (\<lambda>(frame', s').
       res_bind (res_guard (unat (ic_vector frame') < IDT_NENTRIES) Out_Of_Bounds) (\<lambda>_.
         call_handler (Interrupt_Handlers t (unat (ic_vector frame'))) frame' s'))"

definition Interrupt_AddHandler :: "u8 \<Rightarrow> 's handler \<Rightarrow> 's handlers \<Rightarrow> 's handlers" where
  "Interrupt_AddHandler entry h t = t\<lparr>Interrupt_Handlers := (Interrupt_Handlers t)(unat entry := Some h)\<rparr>"

lemma AddHandler_then_Handle:
  assumes "ic_vector frame = ucast v" "v \<noteq> 0x80"
  shows "Interrupt_Handle (Interrupt_AddHandler v h t) frame s = h frame s"
proof -
  have u: "unat (ucast v :: u32) = unat v"
    using unat_u8_lt [of v] by (simp add: unsigned_ucast_eq take_bit_nat_eq_self_iff)
  have "(ucast v :: u32) \<noteq> 0x80"
  proof
    assume "(ucast v :: u32) = 0x80"
    then have "unat (ucast v :: u32) = 0x80" by simp
    then show False using assms(2) u by (simp add: word_unat_eq_iff)
  qed
  then show ?thesis
    using assms u unat_u8_lt [of v]
    by (simp add: Interrupt_Handle_def Interrupt_AddHandler_def call_handler_def IDT_NENTRIES_def)
qed

lemma AddHandler_other:
  "unat v \<noteq> n \<Longrightarrow> Interrupt_Handlers (Interrupt_AddHandler v h t) n = Interrupt_Handlers t n"
  by (simp add: Interrupt_AddHandler_def)

lemma Handle_without_handler:
  assumes "Interrupt_Handlers t 0x80 = None" "ic_vector frame = 0x80"
    and "\<forall>h frame' s'. sc_handler (SysCall_vector t (unat (ic_eax frame))) = Some h \<longrightarrow> h frame s = Inr (frame', s') \<longrightarrow> ic_vector frame' = 0x80"
  shows "\<exists>e. Interrupt_Handle t frame s = Inl e"
  using assms by (auto simp: Interrupt_Handle_def SysCall_def call_handler_def IDT_NENTRIES_def res_bind_def
      split: sum.splits option.splits)

end
