(* ===== verification/AVOS_APIC.thy ===== *)
theory AVOS_APIC
  imports AVOS_Interrupt AVOS_PIC
begin

text \<open>
  The interrupt controllers of multiprocessor machines: \<open>kernel/arch/apic/src/apic.c\<close>,
  \<open>lapic.c\<close> and \<open>ioapic.c\<close>, and the ACPI tables they read (\<open>kernel/arch/acpi\<close>).

  The tables are read from memory; a structure is a record with a function that reads it at an
  address. The registers of the controllers are memory-mapped: reading and writing them are device
  accesses, the argument \<open>mm\<close>. A walk over a table whose entries have length 0 does not end:
  \<open>Inl Loops_Forever\<close>.
\<close>

section \<open>Tables\<close>

record RSDPv1 =
  rsdp_revision :: u8
  rsdt_address :: u32

definition read_RSDPv1 :: "memory \<Rightarrow> u32 \<Rightarrow> RSDPv1" where
  "read_RSDPv1 m p = \<lparr>rsdp_revision = m (p + 15), rsdt_address = load32 m (p + 16)\<rparr>"

record SDTHeader =
  sdt_signature :: "u8 list"
  sdt_length :: u32
  sdt_revision :: u8
  sdt_checksum :: u8

definition SIZEOF_SDTHEADER :: u32 where "SIZEOF_SDTHEADER = 36"

definition read_SDTHeader :: "memory \<Rightarrow> u32 \<Rightarrow> SDTHeader" where
  "read_SDTHeader m p =
     \<lparr>sdt_signature = [m p, m (p + 1), m (p + 2), m (p + 3)], sdt_length = load32 m (p + 4),
      sdt_revision = m (p + 8), sdt_checksum = m (p + 9)\<rparr>"

definition rsdt_entry :: "memory \<Rightarrow> u32 \<Rightarrow> nat \<Rightarrow> u32" where
  "rsdt_entry m rsdt i = load32 m (rsdt + SIZEOF_SDTHEADER + 4 * of_nat i)"

record MADT =
  madt_header :: SDTHeader
  madt_local_apic_address :: u32
  madt_flags :: u32

definition read_MADT :: "memory \<Rightarrow> u32 \<Rightarrow> MADT" where
  "read_MADT m p =
     \<lparr>madt_header = read_SDTHeader m p, madt_local_apic_address = load32 m (p + 36), madt_flags = load32 m (p + 40)\<rparr>"

definition madt_first :: "u32 \<Rightarrow> u32" where
  "madt_first p = p + 44"

definition madt_end :: "memory \<Rightarrow> u32 \<Rightarrow> u32" where
  "madt_end m p = p + sdt_length (madt_header (read_MADT m p))"

record MADT_Entry =
  me_type :: u8
  me_length :: u8

definition read_MADT_Entry :: "memory \<Rightarrow> u32 \<Rightarrow> MADT_Entry" where
  "read_MADT_Entry m p = \<lparr>me_type = m p, me_length = m (p + 1)\<rparr>"

definition next_entry :: "memory \<Rightarrow> u32 \<Rightarrow> u32" where
  "next_entry m p = p + ucast (me_length (read_MADT_Entry m p))"

record MADT_Entry_LocalAPIC = MADT_Entry +
  ml_acpi_proc_id :: u8
  ml_apic_id :: u8
  ml_flags :: u8

definition read_MADT_Entry_LocalAPIC :: "memory \<Rightarrow> u32 \<Rightarrow> MADT_Entry_LocalAPIC" where
  "read_MADT_Entry_LocalAPIC m p =
     \<lparr>me_type = m p, me_length = m (p + 1), ml_acpi_proc_id = m (p + 2), ml_apic_id = m (p + 3), ml_flags = m (p + 4)\<rparr>"

record MADT_Entry_IOAPIC = MADT_Entry +
  mi_ioapic_id :: u8
  mi_ioapic_address :: u32
  mi_global_system_intr_base :: u32

definition read_MADT_Entry_IOAPIC :: "memory \<Rightarrow> u32 \<Rightarrow> MADT_Entry_IOAPIC" where
  "read_MADT_Entry_IOAPIC m p =
     \<lparr>me_type = m p, me_length = m (p + 1), mi_ioapic_id = m (p + 2), mi_ioapic_address = load32 m (p + 4),
      mi_global_system_intr_base = load32 m (p + 8)\<rparr>"

record MADT_Entry_IntrSrcOverride = MADT_Entry +
  mo_bus_source :: u8
  mo_irq_source :: u8
  mo_global_sys_intr :: u32
  mo_flags :: u16

definition read_MADT_Entry_IntrSrcOverride :: "memory \<Rightarrow> u32 \<Rightarrow> MADT_Entry_IntrSrcOverride" where
  "read_MADT_Entry_IntrSrcOverride m p =
     \<lparr>me_type = m p, me_length = m (p + 1), mo_bus_source = m (p + 2), mo_irq_source = m (p + 3),
      mo_global_sys_intr = load32 m (p + 4), mo_flags = load16 m (p + 8)\<rparr>"

record MADT_Entry_LocalAPICAddrOverride = MADT_Entry +
  ma_local_apic_phys_addr :: u64

definition read_MADT_Entry_LocalAPICAddrOverride :: "memory \<Rightarrow> u32 \<Rightarrow> MADT_Entry_LocalAPICAddrOverride" where
  "read_MADT_Entry_LocalAPICAddrOverride m p =
     \<lparr>me_type = m p, me_length = m (p + 1), ma_local_apic_phys_addr = load64 m (p + 4)\<rparr>"

definition MADT_ENTRY_PROC_LAPIC :: u8 where "MADT_ENTRY_PROC_LAPIC = 0"
definition MADT_ENTRY_IOAPIC :: u8 where "MADT_ENTRY_IOAPIC = 1"
definition MADT_ENTRY_LAPIC_ADDR :: u8 where "MADT_ENTRY_LAPIC_ADDR = 5"

definition MADT_POLARITY :: "u16 \<Rightarrow> u32" where
  "MADT_POLARITY flags = (if flags AND 2 = 0 then 0 else push_bit 13 1)"

definition MADT_TRIGMODE :: "u16 \<Rightarrow> u32" where
  "MADT_TRIGMODE flags = (if flags AND 2 = 0 then 0 else push_bit 15 1)"

section \<open>Collecting the information\<close>

record apic =
  APIC_InfoSaved :: bool
  MADT_ptr :: u32
  PIC_exists :: bool
  LocalAPIC_address :: u32
  LocalAPIC_InfoPtrs :: "u32 list"
  LocalAPIC_Num :: nat
  IOAPIC_InfoPtrs :: "u32 list"
  IOAPIC_Num :: nat

definition MULTIBOOT_TAG_TYPE_ACPI_OLD :: u32 where "MULTIBOOT_TAG_TYPE_ACPI_OLD = 14"
definition MULTIBOOT_TAG_TYPE_ACPI_NEW :: u32 where "MULTIBOOT_TAG_TYPE_ACPI_NEW = 15"

partial_function (option) find_rsdp :: "memory \<Rightarrow> u32 \<Rightarrow> u32 \<Rightarrow> u32 option" where
  "find_rsdp m tag rsdp =
     (if load32 m tag = 0 then Some rsdp
      else find_rsdp m (next_tag m tag)
        (if load32 m tag = MULTIBOOT_TAG_TYPE_ACPI_OLD \<or> load32 m tag = MULTIBOOT_TAG_TYPE_ACPI_NEW then tag + 8 else rsdp))"

definition table_checksum :: "memory \<Rightarrow> u32 \<Rightarrow> u32 \<Rightarrow> u8" where
  "table_checksum m p len = fold (\<lambda>i c. c + m (p + of_nat i)) [0..<unat len] 0"

definition find_madt :: "memory \<Rightarrow> u32 \<Rightarrow> u32 \<Rightarrow> u32" where
  "find_madt m rsdt ptr =
     fold (\<lambda>i acc.
       let sdt = rsdt_entry m rsdt i + KERNEL_HIGHER_HALF_OFFSET
       in if sdt_signature (read_SDTHeader m sdt) = map of_char ''APIC'' then sdt else acc)
     [0..<unat ((sdt_length (read_SDTHeader m rsdt) - SIZEOF_SDTHEADER) div 4)] ptr"

partial_function (option) count_entries :: "memory \<Rightarrow> u32 \<Rightarrow> u32 \<Rightarrow> nat \<Rightarrow> nat \<Rightarrow> (nat \<times> nat) option" where
  "count_entries m stop entry num_cpus num_ioapics =
     (if entry < stop then
        count_entries m stop (next_entry m entry)
          (if me_type (read_MADT_Entry m entry) = MADT_ENTRY_PROC_LAPIC then Suc num_cpus else num_cpus)
          (if me_type (read_MADT_Entry m entry) = MADT_ENTRY_IOAPIC then Suc num_ioapics else num_ioapics)
      else Some (num_cpus, num_ioapics))"

text \<open>
  The second pass: the entries are stored at increasing indices of arrays with 255 elements; the
  boolean of the result is the return value.
\<close>

definition put_ptr :: "nat \<Rightarrow> u32 \<Rightarrow> u32 list \<Rightarrow> u32 list result" where
  "put_ptr i p xs = (if i < length xs then Inr (xs[i := p]) else Inl Out_Of_Bounds)"

definition save_entry :: "memory \<Rightarrow> u32 \<Rightarrow> nat \<times> nat \<times> apic \<Rightarrow> (bool \<times> nat \<times> nat \<times> apic) result" where
  "save_entry m entry cia =
     (let (num_cpus, num_ioapics, a) = cia; t = me_type (read_MADT_Entry m entry)
      in if t = MADT_ENTRY_PROC_LAPIC then
           res_bind (put_ptr num_cpus entry (LocalAPIC_InfoPtrs a)) (\<lambda>xs.
             Inr (True, Suc num_cpus, num_ioapics, a\<lparr>LocalAPIC_InfoPtrs := xs\<rparr>))
         else if t = MADT_ENTRY_IOAPIC then
           res_bind (put_ptr num_ioapics entry (IOAPIC_InfoPtrs a)) (\<lambda>xs.
             Inr (True, num_cpus, Suc num_ioapics, a\<lparr>IOAPIC_InfoPtrs := xs\<rparr>))
         else if t = MADT_ENTRY_LAPIC_ADDR then
           (let addr = ma_local_apic_phys_addr (read_MADT_Entry_LocalAPICAddrOverride m entry)
            in if addr > 0xFFFFFFFF then Inr (False, num_cpus, num_ioapics, a)
               else Inr (True, num_cpus, num_ioapics, a\<lparr>LocalAPIC_address := ucast addr\<rparr>))
         else Inr (True, num_cpus, num_ioapics, a))"

partial_function (option) save_entries ::
  "memory \<Rightarrow> u32 \<Rightarrow> u32 \<Rightarrow> nat \<times> nat \<times> apic \<Rightarrow> (bool \<times> apic) result option" where
  "save_entries m stop entry cia =
     (if entry < stop then
        (case save_entry m entry cia of
           Inl e \<Rightarrow> Some (Inl e)
         | Inr (ok, cia') \<Rightarrow>
             if ok then save_entries m stop (next_entry m entry) cia' else Some (Inr (False, snd (snd cia'))))
      else Some (Inr (True, snd (snd cia))))"

definition or_loop :: "'a result option \<Rightarrow> 'a result" where
  "or_loop r = (case r of None \<Rightarrow> Inl Loops_Forever | Some x \<Rightarrow> x)"

definition APIC_SaveInfo :: "memory \<Rightarrow> u32 \<Rightarrow> apic \<Rightarrow> (bool \<times> apic) result" where
  "APIC_SaveInfo m BootInfo a =
     (if APIC_InfoSaved a then Inr (True, a)
      else res_bind (or_loop (map_option Inr (find_rsdp m (BootInfo + 8) 0))) (\<lambda>rsdp.
        if rsdp = 0 then Inr (False, a)
        else
          (let rsdt = rsdt_address (read_RSDPv1 m rsdp) + KERNEL_HIGHER_HALF_OFFSET
           in if table_checksum m rsdt (sdt_length (read_SDTHeader m rsdt)) \<noteq> 0 then Inr (False, a)
              else
                (let p = find_madt m rsdt (MADT_ptr a); a1 = a\<lparr>MADT_ptr := p\<rparr>; t = read_MADT m p
                 in if p = 0 then Inr (False, a1)
                    else if table_checksum m p (sdt_length (madt_header t)) \<noteq> 0 then Inr (False, a1)
                    else
                      (let a2 = a1\<lparr>PIC_exists := madt_flags t \<noteq> 0, LocalAPIC_address := madt_local_apic_address t\<rparr>
                       in res_bind (or_loop (map_option Inr (count_entries m (madt_end m p) (madt_first p) 0 0))) (\<lambda>(num_cpus, num_ioapics).
                            if num_cpus > MACHINE_MAX_CPUS \<or> num_cpus > MACHINE_MAX_IOAPICS then Inr (False, a2)
                            else
                              (let a3 = a2\<lparr>LocalAPIC_Num := num_cpus, IOAPIC_Num := num_ioapics\<rparr>
                               in res_bind (or_loop (save_entries m (madt_end m p) (madt_first p) (0, 0, a3))) (\<lambda>(ok, a4).
                                    Inr (ok, a4\<lparr>APIC_InfoSaved := ok\<rparr>)))))))))"

section \<open>Registers\<close>

record 'd mmio =
  Read32 :: "u32 \<Rightarrow> 'd \<Rightarrow> u32 \<times> 'd"
  Write32 :: "u32 \<Rightarrow> u32 \<Rightarrow> 'd \<Rightarrow> 'd"

definition LAPIC_REG_ID :: u32 where "LAPIC_REG_ID = 0x0020 div 4"
definition LAPIC_REG_VERSION :: u32 where "LAPIC_REG_VERSION = 0x0030 div 4"
definition LAPIC_REG_TPR :: u32 where "LAPIC_REG_TPR = 0x0080 div 4"
definition LAPIC_REG_EOI :: u32 where "LAPIC_REG_EOI = 0x00B0 div 4"
definition LAPIC_REG_SIVR :: u32 where "LAPIC_REG_SIVR = 0x00F0 div 4"
definition LAPIC_REG_ESR :: u32 where "LAPIC_REG_ESR = 0x0280 div 4"
definition LAPIC_REG_ICRLO :: u32 where "LAPIC_REG_ICRLO = 0x0300 div 4"
definition LAPIC_REG_ICRHI :: u32 where "LAPIC_REG_ICRHI = 0x0310 div 4"
definition LAPIC_REG_TIMER :: u32 where "LAPIC_REG_TIMER = 0x0320 div 4"
definition LAPIC_REG_TSR :: u32 where "LAPIC_REG_TSR = 0x0330 div 4"
definition LAPIC_REG_PCMR :: u32 where "LAPIC_REG_PCMR = 0x0340 div 4"
definition LAPIC_REG_LINT0 :: u32 where "LAPIC_REG_LINT0 = 0x0350 div 4"
definition LAPIC_REG_LINT1 :: u32 where "LAPIC_REG_LINT1 = 0x0360 div 4"
definition LAPIC_REG_ERROR :: u32 where "LAPIC_REG_ERROR = 0x0370 div 4"
definition LAPIC_REG_TICR :: u32 where "LAPIC_REG_TICR = 0x0380 div 4"
definition LAPIC_REG_TCCR :: u32 where "LAPIC_REG_TCCR = 0x0390 div 4"
definition LAPIC_REG_TDCR :: u32 where "LAPIC_REG_TDCR = 0x03E0 div 4"
definition LAPIC_STARTUP_VECTOR :: "u32 \<Rightarrow> u32" where "LAPIC_STARTUP_VECTOR x = drop_bit 12 x"
definition LAPIC_LVT_DELIVERY_INIT :: u32 where "LAPIC_LVT_DELIVERY_INIT = push_bit 8 5"
definition LAPIC_LVT_MASKED :: u32 where "LAPIC_LVT_MASKED = 0x10000"
definition LAPIC_LVT_TIMER_MODE_PERIODIC :: u32 where "LAPIC_LVT_TIMER_MODE_PERIODIC = push_bit 17 1"
definition LAPIC_TDCR_DIVIDE_BY_16 :: u32 where "LAPIC_TDCR_DIVIDE_BY_16 = 3"
definition LAPIC_ICR_DELIVERY_INIT :: u32 where "LAPIC_ICR_DELIVERY_INIT = push_bit 8 5"
definition LAPIC_ICR_DELIVERY_STARTUP :: u32 where "LAPIC_ICR_DELIVERY_STARTUP = push_bit 8 6"
definition LAPIC_ICR_DELIVERY_PENDING :: u32 where "LAPIC_ICR_DELIVERY_PENDING = push_bit 12 1"
definition LAPIC_ICR_LEVEL_DEASSERT :: u32 where "LAPIC_ICR_LEVEL_DEASSERT = 0"
definition LAPIC_ICR_LEVEL_ASSERT :: u32 where "LAPIC_ICR_LEVEL_ASSERT = push_bit 14 1"
definition LAPIC_ICR_TRIGGER_LEVEL :: u32 where "LAPIC_ICR_TRIGGER_LEVEL = push_bit 15 1"
definition LAPIC_ICR_DEST_ALLSELF :: u32 where "LAPIC_ICR_DEST_ALLSELF = push_bit 18 2"
definition LAPIC_SIVR_INTR_SPURIOUS :: u32 where "LAPIC_SIVR_INTR_SPURIOUS = 0xFF"
definition LAPIC_SIVR_SOFT_ENABLE :: u32 where "LAPIC_SIVR_SOFT_ENABLE = 0x100"
definition IOAPIC_REG_ID :: u32 where "IOAPIC_REG_ID = 0"
definition IOAPIC_REG_VERSION :: u32 where "IOAPIC_REG_VERSION = 1"
definition IOAPIC_INTR_MASKED :: u32 where "IOAPIC_INTR_MASKED = 0x10000"
definition IOAPIC_REDIRECT_TABLE_BASE :: u32 where "IOAPIC_REDIRECT_TABLE_BASE = 0x10"

definition LocalAPIC_WriteTo :: "'d mmio \<Rightarrow> u32 \<Rightarrow> u32 \<Rightarrow> u32 \<Rightarrow> 'd \<Rightarrow> u32 \<times> 'd" where
  "LocalAPIC_WriteTo mm lapic index value d =
     Read32 mm (lapic + 4 * LAPIC_REG_ID) (Write32 mm (lapic + 4 * index) value d)"

definition LocalAPIC_ReadFrom :: "'d mmio \<Rightarrow> u32 \<Rightarrow> u32 \<Rightarrow> 'd \<Rightarrow> u32 \<times> 'd" where
  "LocalAPIC_ReadFrom mm lapic index d = Read32 mm (lapic + 4 * index) d"

text \<open>A call of \<open>LocalAPIC_WriteTo\<close> whose result is ignored.\<close>

definition lapic_write :: "'d mmio \<Rightarrow> u32 \<Rightarrow> u32 \<Rightarrow> u32 \<Rightarrow> 'd \<Rightarrow> 'd" where
  "lapic_write mm lapic index value d = snd (LocalAPIC_WriteTo mm lapic index value d)"

definition LocalAPIC_EOI :: "'d mmio \<Rightarrow> u32 \<Rightarrow> 'd \<Rightarrow> 'd" where
  "LocalAPIC_EOI mm lapic d = lapic_write mm lapic LAPIC_REG_EOI 0 d"

definition LocalAPIC_ID :: "'d mmio \<Rightarrow> u32 \<Rightarrow> 'd \<Rightarrow> u8 \<times> 'd" where
  "LocalAPIC_ID mm lapic d = (let (v, d1) = LocalAPIC_ReadFrom mm lapic LAPIC_REG_ID d in (ucast (drop_bit 24 v), d1))"

section \<open>Local controllers\<close>

definition mask_if_version :: "'d mmio \<Rightarrow> u32 \<Rightarrow> u32 \<Rightarrow> u32 \<Rightarrow> 'd \<Rightarrow> 'd" where
  "mask_if_version mm lapic limit reg d =
     (let (v, d1) = LocalAPIC_ReadFrom mm lapic LAPIC_REG_VERSION d
      in if drop_bit 16 v AND 0xFF > limit then lapic_write mm lapic reg LAPIC_LVT_MASKED d1 else d1)"

partial_function (option) wait_delivered :: "'d mmio \<Rightarrow> u32 \<Rightarrow> 'd \<Rightarrow> 'd option" where
  "wait_delivered mm lapic d =
     (let (v, d1) = LocalAPIC_ReadFrom mm lapic LAPIC_REG_ICRLO d
      in if v AND LAPIC_ICR_DELIVERY_PENDING \<noteq> 0 then wait_delivered mm lapic d1 else Some d1)"

definition lapic_setup :: "'d mmio \<Rightarrow> u32 \<Rightarrow> 'd \<Rightarrow> 'd" where
  "lapic_setup mm lapic d =
     (let w = lapic_write mm lapic;
          d1 = w LAPIC_REG_SIVR (LAPIC_SIVR_SOFT_ENABLE OR LAPIC_SIVR_INTR_SPURIOUS) d;
          d2 = w LAPIC_REG_TIMER LAPIC_LVT_MASKED d1;
          d3 = w LAPIC_REG_LINT0 LAPIC_LVT_MASKED d2;
          d4 = w LAPIC_REG_LINT1 LAPIC_LVT_MASKED d3;
          d5 = w LAPIC_REG_ERROR LAPIC_LVT_MASKED d4;
          d6 = mask_if_version mm lapic 3 LAPIC_REG_PCMR d5;
          d7 = mask_if_version mm lapic 4 LAPIC_REG_TSR d6;
          d8 = w LAPIC_REG_TDCR 0 (w LAPIC_REG_TICR 0 d7);
          d9 = w LAPIC_REG_ESR 0 (w LAPIC_REG_ESR 0 d8);
          d10 = w LAPIC_REG_EOI 0 d9
      in w LAPIC_REG_ICRLO (LAPIC_ICR_DEST_ALLSELF OR LAPIC_LVT_DELIVERY_INIT OR LAPIC_ICR_TRIGGER_LEVEL OR LAPIC_ICR_LEVEL_DEASSERT)
           (w LAPIC_REG_ICRHI 0 d10))"

definition LocalAPIC_Initialize :: "'d mmio \<Rightarrow> memory \<Rightarrow> u32 \<Rightarrow> apic \<times> 'd \<Rightarrow> (bool \<times> apic \<times> 'd) result" where
  "LocalAPIC_Initialize mm m BootInfo ad =
     res_bind (APIC_SaveInfo m BootInfo (fst ad)) (\<lambda>(_, a).
       case wait_delivered mm (LocalAPIC_address a) (lapic_setup mm (LocalAPIC_address a) (snd ad)) of
         None \<Rightarrow> Inl Loops_Forever
       | Some d \<Rightarrow> Inr (True, a, lapic_write mm (LocalAPIC_address a) LAPIC_REG_TPR 0 d))"

text \<open>
  \<open>PIT_Delay\<close> waits for interrupts of the interval timer; what the devices do meanwhile is the
  argument \<open>pit_delay\<close>. The message that is printed is left out.
\<close>

definition timer_round :: "'d mmio \<Rightarrow> (u32 \<Rightarrow> 'd \<Rightarrow> 'd) \<Rightarrow> u32 \<Rightarrow> u32 \<times> 'd \<Rightarrow> u32 \<times> 'd" where
  "timer_round mm pit_delay lapic fd =
     (let w = lapic_write mm lapic;
          d1 = w LAPIC_REG_TDCR LAPIC_TDCR_DIVIDE_BY_16 (snd fd);
          d2 = w LAPIC_REG_TIMER (LAPIC_LVT_TIMER_MODE_PERIODIC OR 0xF0) d1;
          d3 = pit_delay 100 (w LAPIC_REG_TICR 0xFFFFFFFF d2);
          d4 = w LAPIC_REG_TIMER LAPIC_LVT_MASKED d3;
          (c, d5) = LocalAPIC_ReadFrom mm lapic LAPIC_REG_TCCR d4
      in (fst fd + (0xFFFFFFFF - c), d5))"

definition LocalAPIC_GetTimerFrequency :: "'d mmio \<Rightarrow> (u32 \<Rightarrow> 'd \<Rightarrow> 'd) \<Rightarrow> u32 \<Rightarrow> 'd \<Rightarrow> u32 \<times> 'd" where
  "LocalAPIC_GetTimerFrequency mm pit_delay lapic d =
     (let (freq, d1) = (timer_round mm pit_delay lapic ^^ 10) (0, d)
      in (push_bit 4 (freq div 10 div 10), d1))"

text \<open>The handler of the local timer and what \<open>LocalAPIC_Initialize_Timer\<close> does with the tables.\<close>

definition LocalAPIC_Timer_HandleInterrupt :: "'d mmio \<Rightarrow> u32 \<Rightarrow> Timer \<times> 'd \<Rightarrow> Timer \<times> 'd" where
  "LocalAPIC_Timer_HandleInterrupt mm lapic td = (Timer_Increment (fst td), LocalAPIC_EOI mm lapic (snd td))"

definition LocalAPIC_Initialize_Timer ::
  "'d mmio \<Rightarrow> (u32 \<Rightarrow> 'd \<Rightarrow> 'd) \<Rightarrow> 's handler \<Rightarrow> u32 \<Rightarrow> u8 \<Rightarrow> u32 \<Rightarrow>
     'd \<times> SpinLock \<times> cpu_state \<times> Timer \<times> 's handlers \<Rightarrow> ('d \<times> SpinLock \<times> cpu_state \<times> Timer \<times> 's handlers) result" where
  "LocalAPIC_Initialize_Timer mm pit_delay handler lapic vec freq st =
     (let (d, State_lock, cpu, tm, tab) = st;
          d1 = lapic_write mm lapic LAPIC_REG_TIMER LAPIC_LVT_MASKED d;
          (lapic_freq, d2) = LocalAPIC_GetTimerFrequency mm pit_delay lapic d1
      in if lapic_freq = 0 then Inr (d2, State_lock, cpu, tm, tab)
         else res_bind (SpinLock_Acquire State_lock cpu) (\<lambda>(l, cpu1).
           let (l', cpu2) = SpinLock_Release l cpu1;
               d3 = lapic_write mm lapic LAPIC_REG_TDCR LAPIC_TDCR_DIVIDE_BY_16 d2;
               d4 = lapic_write mm lapic LAPIC_REG_TIMER (LAPIC_LVT_TIMER_MODE_PERIODIC OR ucast vec) d3;
               d5 = lapic_write mm lapic LAPIC_REG_TICR ((lapic_freq div freq) * 1000) d4
           in Inr (d5, l', cpu2, \<lparr>seq_counter = 0, ticks = 0\<rparr>, Interrupt_AddHandler vec handler tab)))"

section \<open>I/O controllers\<close>

definition IOAPIC_WriteTo :: "'d mmio \<Rightarrow> u32 \<Rightarrow> u32 \<Rightarrow> u32 \<Rightarrow> 'd \<Rightarrow> 'd" where
  "IOAPIC_WriteTo mm ioapic index value d = Write32 mm (ioapic + 16) value (Write32 mm ioapic index d)"

definition IOAPIC_ReadFrom :: "'d mmio \<Rightarrow> u32 \<Rightarrow> u32 \<Rightarrow> 'd \<Rightarrow> u32 \<times> 'd" where
  "IOAPIC_ReadFrom mm ioapic index d = Read32 mm (ioapic + 16) (Write32 mm ioapic index d)"

definition max_interrupts :: "'d mmio \<Rightarrow> u32 \<Rightarrow> 'd \<Rightarrow> u32 \<times> 'd" where
  "max_interrupts mm ioapic d =
     (let (v, d1) = IOAPIC_ReadFrom mm ioapic IOAPIC_REG_VERSION d in (drop_bit 16 v AND 0xFF, d1))"

definition mask_line :: "'d mmio \<Rightarrow> u32 \<Rightarrow> u32 \<Rightarrow> u32 \<Rightarrow> 'd \<Rightarrow> 'd" where
  "mask_line mm lapic ioapic j d =
     (let d1 = IOAPIC_WriteTo mm ioapic (IOAPIC_REDIRECT_TABLE_BASE + 2 * j) IOAPIC_INTR_MASKED d;
          (v, d2) = LocalAPIC_ReadFrom mm lapic LAPIC_REG_ID d1
      in IOAPIC_WriteTo mm ioapic (IOAPIC_REDIRECT_TABLE_BASE + 2 * j + 1) (drop_bit 24 v) d2)"

definition mask_controller :: "'d mmio \<Rightarrow> memory \<Rightarrow> u32 \<Rightarrow> u32 \<Rightarrow> bool \<times> 'd \<Rightarrow> bool \<times> 'd" where
  "mask_controller mm m lapic entry bd =
     (if \<not> fst bd then bd
      else
        (let e = read_MADT_Entry_IOAPIC m entry; ioapic = mi_ioapic_address e;
             (v, d1) = IOAPIC_ReadFrom mm ioapic IOAPIC_REG_ID (snd bd)
         in if ucast (mi_ioapic_id e) \<noteq> drop_bit 24 v then (False, d1)
            else (let (n, d2) = max_interrupts mm ioapic d1
                  in (True, fold (\<lambda>j. mask_line mm lapic ioapic (of_nat j)) [0..<Suc (unat n)] d2))))"

definition IOAPIC_Initialize ::
  "'d ports \<Rightarrow> 'd mmio \<Rightarrow> memory \<Rightarrow> u32 \<Rightarrow> apic \<times> 'd \<times> cpu_state \<Rightarrow> (bool \<times> apic \<times> 'd \<times> cpu_state) result" where
  "IOAPIC_Initialize io mm m BootInfo adc =
     (let (a0, d0, cpu) = adc
      in res_bind (APIC_SaveInfo m BootInfo a0) (\<lambda>(_, a).
           let d1 = (if PIC_exists a then snd (PIC_Initialize io d0) else d0);
               (ok, d2) = fold (mask_controller mm m (LocalAPIC_address a)) (take (IOAPIC_Num a) (IOAPIC_InfoPtrs a)) (True, d1)
           in Inr (ok, a, d2, if ok then EnableInterrupts cpu else cpu)))"

partial_function (option) find_override :: "memory \<Rightarrow> u32 \<Rightarrow> u8 \<Rightarrow> u32 \<Rightarrow> u32 \<times> u16 \<Rightarrow> (u32 \<times> u16) option" where
  "find_override m stop irq entry gf =
     (if entry < stop then
        (let e = read_MADT_Entry_IntrSrcOverride m entry
         in find_override m stop irq (next_entry m entry)
              (if me_type e = 2 \<and> mo_irq_source e = irq then (mo_global_sys_intr e, mo_flags e) else gf))
      else Some gf)"

fun route_interrupt :: "'d mmio \<Rightarrow> memory \<Rightarrow> u32 \<Rightarrow> u16 \<Rightarrow> u8 \<Rightarrow> u8 \<Rightarrow> u32 list \<Rightarrow> 'd \<Rightarrow> 'd" where
  "route_interrupt mm m gsi flags intr_vec local_apic_id [] d = d"
| "route_interrupt mm m gsi flags intr_vec local_apic_id (entry # rest) d =
     (let e = read_MADT_Entry_IOAPIC m entry; ioapic = mi_ioapic_address e; base = mi_global_system_intr_base e;
          (n, d1) = max_interrupts mm ioapic d
      in if base \<le> gsi \<and> base + n \<ge> gsi then
           IOAPIC_WriteTo mm ioapic (IOAPIC_REDIRECT_TABLE_BASE + 2 * (gsi - base) + 1) (ucast local_apic_id)
             (IOAPIC_WriteTo mm ioapic (IOAPIC_REDIRECT_TABLE_BASE + 2 * (gsi - base))
                (MADT_POLARITY flags OR MADT_POLARITY flags OR ucast intr_vec) d1)
         else route_interrupt mm m gsi flags intr_vec local_apic_id rest d1)"

definition IOAPIC_EnableInterrupt :: "'d mmio \<Rightarrow> memory \<Rightarrow> apic \<Rightarrow> u8 \<Rightarrow> u8 \<Rightarrow> u8 \<Rightarrow> 'd \<Rightarrow> 'd result" where
  "IOAPIC_EnableInterrupt mm m a irq intr_vec local_apic_id d =
     (case find_override m (madt_end m (MADT_ptr a)) irq (madt_first (MADT_ptr a)) (ucast irq, 0) of
        None \<Rightarrow> Inl Loops_Forever
      | Some (gsi, flags) \<Rightarrow>
          Inr (route_interrupt mm m gsi flags intr_vec local_apic_id (take (IOAPIC_Num a) (IOAPIC_InfoPtrs a)) d))"

section \<open>Devices that use them\<close>

definition attach_line ::
  "'d mmio \<Rightarrow> memory \<Rightarrow> apic \<Rightarrow> 's handler \<Rightarrow> u8 \<Rightarrow> u8 \<Rightarrow> 'd \<times> 's handlers \<Rightarrow> ('d \<times> 's handlers) result" where
  "attach_line mm m a handler irq vec dt =
     (let tab = Interrupt_AddHandler vec handler (snd dt); (id8, d1) = LocalAPIC_ID mm (LocalAPIC_address a) (fst dt)
      in res_bind (IOAPIC_EnableInterrupt mm m a irq vec id8 d1) (\<lambda>d2. Inr (d2, tab)))"

definition Keyboard_Initialize ::
  "'d mmio \<Rightarrow> memory \<Rightarrow> apic \<Rightarrow> 's handler \<Rightarrow> u8 \<Rightarrow> u8 \<Rightarrow> 'd \<times> 's handlers \<Rightarrow> ('d \<times> 's handlers) result" where
  "Keyboard_Initialize mm m a handler irq vec dt = attach_line mm m a handler irq vec dt"

definition PIT_Initialize ::
  "'d ports \<Rightarrow> 'd mmio \<Rightarrow> memory \<Rightarrow> apic \<Rightarrow> 's handler \<Rightarrow> u8 \<Rightarrow> u8 \<Rightarrow> Timer \<times> 'd \<times> 's handlers
     \<Rightarrow> (Timer \<times> 'd \<times> 's handlers) result" where
  "PIT_Initialize io mm m a handler irq vec st =
     res_bind (attach_line mm m a handler irq vec (snd st)) (\<lambda>(d, tab).
       let (tm, d1) = PIT_Set io 10000 (fst st, d) in Inr (tm, d1, tab))"

end
