(* ===== verification/AVOS_APIC_Correct.thy ===== *)
theory AVOS_APIC_Correct
  imports AVOS_APIC
begin

text \<open>
  Correctness of the collection of the interrupt controllers from the ACPI tables.
\<close>

section \<open>Entries of the table\<close>

text \<open>\<open>madt_walk m stop p ps\<close>: the entries from address \<open>p\<close> up to \<open>stop\<close> start at the addresses \<open>ps\<close>.\<close>

inductive madt_walk :: "memory \<Rightarrow> u32 \<Rightarrow> u32 \<Rightarrow> u32 list \<Rightarrow> bool" for m stop where
  walk_end: "\<not> p < stop \<Longrightarrow> madt_walk m stop p []"
| walk_step: "p < stop \<Longrightarrow> madt_walk m stop (next_entry m p) ps \<Longrightarrow> madt_walk m stop p (p # ps)"

inductive_simps madt_walk_Nil: "madt_walk m stop p []"
inductive_simps madt_walk_Cons: "madt_walk m stop p (q # ps)"

definition entries_of :: "memory \<Rightarrow> u8 \<Rightarrow> u32 list \<Rightarrow> u32 list" where
  "entries_of m t ps = filter (\<lambda>p. me_type (read_MADT_Entry m p) = t) ps"

definition override_addr :: "memory \<Rightarrow> u32 \<Rightarrow> u64" where
  "override_addr m p = ma_local_apic_phys_addr (read_MADT_Entry_LocalAPICAddrOverride m p)"

definition local_address :: "memory \<Rightarrow> u32 list \<Rightarrow> u32 \<Rightarrow> u32" where
  "local_address m ps a = fold (\<lambda>p _. ucast (override_addr m p)) (entries_of m MADT_ENTRY_LAPIC_ADDR ps) a"

definition overrides_fit :: "memory \<Rightarrow> u32 list \<Rightarrow> bool" where
  "overrides_fit m ps \<longleftrightarrow> list_all (\<lambda>p. override_addr m p \<le> 0xFFFFFFFF) (entries_of m MADT_ENTRY_LAPIC_ADDR ps)"

lemmas madt_types = MADT_ENTRY_PROC_LAPIC_def MADT_ENTRY_IOAPIC_def MADT_ENTRY_LAPIC_ADDR_def

lemma entries_of_simps [simp]:
  "entries_of m t [] = []"
  "entries_of m t (p # ps) = (if me_type (read_MADT_Entry m p) = t then p # entries_of m t ps else entries_of m t ps)"
  by (simp_all add: entries_of_def)

lemma count_entries_walk:
  assumes "madt_walk m stop p ps"
  shows "count_entries m stop p c i =
    Some (c + length (entries_of m MADT_ENTRY_PROC_LAPIC ps), i + length (entries_of m MADT_ENTRY_IOAPIC ps))"
  using assms by (induction arbitrary: c i) (subst count_entries.simps, simp add: madt_types)+

text \<open>The array after the entries \<open>ps\<close> are stored from index \<open>k\<close> on.\<close>

definition filled :: "nat \<Rightarrow> u32 list \<Rightarrow> u32 list \<Rightarrow> u32 list" where
  "filled k ps xs = take k xs @ ps @ drop (k + length ps) xs"

lemma filled_Nil [simp]: "filled k [] xs = xs"
  by (simp add: filled_def)

lemma filled_step: "k < length xs \<Longrightarrow> filled (Suc k) ps (xs[k := p]) = filled k (p # ps) xs"
  by (simp add: filled_def take_Suc_conv_app_nth)

lemma take_filled: "k + length ps \<le> length xs \<Longrightarrow> take (length ps) (filled 0 ps xs) = ps"
  by (simp add: filled_def)

lemma length_filled: "k + length ps \<le> length xs \<Longrightarrow> length (filled k ps xs) = length xs"
  by (simp add: filled_def)

lemma save_entries_walk:
  assumes "madt_walk m stop p ps" "overrides_fit m ps"
    and "c + length (entries_of m MADT_ENTRY_PROC_LAPIC ps) \<le> length (LocalAPIC_InfoPtrs a)"
  shows "save_entries m stop p (c, i, a) = Some
    (if i + length (entries_of m MADT_ENTRY_IOAPIC ps) \<le> length (IOAPIC_InfoPtrs a) \<or> entries_of m MADT_ENTRY_IOAPIC ps = [] then
       Inr (True, a\<lparr>LocalAPIC_address := local_address m ps (LocalAPIC_address a),
                    LocalAPIC_InfoPtrs := filled c (entries_of m MADT_ENTRY_PROC_LAPIC ps) (LocalAPIC_InfoPtrs a),
                    IOAPIC_InfoPtrs := filled i (entries_of m MADT_ENTRY_IOAPIC ps) (IOAPIC_InfoPtrs a)\<rparr>)
     else Inl Out_Of_Bounds)"
  using assms
proof (induction arbitrary: c i a)
  case (walk_end p)
  then show ?case by (subst save_entries.simps) (simp add: local_address_def)
next
  case (walk_step p ps)
  let ?t = "me_type (read_MADT_Entry m p)"
  consider "?t = MADT_ENTRY_PROC_LAPIC" | "?t = MADT_ENTRY_IOAPIC" "i < length (IOAPIC_InfoPtrs a)"
    | "?t = MADT_ENTRY_IOAPIC" "\<not> i < length (IOAPIC_InfoPtrs a)" | "?t = MADT_ENTRY_LAPIC_ADDR"
    | "?t \<noteq> MADT_ENTRY_PROC_LAPIC" "?t \<noteq> MADT_ENTRY_IOAPIC" "?t \<noteq> MADT_ENTRY_LAPIC_ADDR" by blast
  then show ?case
  proof cases
    case 1
    then show ?thesis
      using walk_step by (subst save_entries.simps)
        (simp add: save_entry_def put_ptr_def madt_types overrides_fit_def local_address_def filled_step)
  next
    case 2
    then show ?thesis
      using walk_step by (subst save_entries.simps)
        (auto simp: save_entry_def put_ptr_def madt_types overrides_fit_def local_address_def filled_step)
  next
    case 3
    then show ?thesis
      using walk_step by (subst save_entries.simps) (simp add: save_entry_def put_ptr_def madt_types)
  next
    case 4
    then show ?thesis
      using walk_step by (subst save_entries.simps)
        (simp add: save_entry_def madt_types overrides_fit_def local_address_def override_addr_def Let_def flip: not_less)
  next
    case 5
    then show ?thesis
      using walk_step by (subst save_entries.simps)
        (simp add: save_entry_def madt_types overrides_fit_def local_address_def)
  qed
qed

section \<open>Saving the information\<close>

text \<open>The tables are in order: the root table and the table \<open>p\<close> of the controllers are found and have a zero sum.\<close>

definition madt_found :: "memory \<Rightarrow> u32 \<Rightarrow> u32 \<Rightarrow> u32 \<Rightarrow> bool" where
  "madt_found m BootInfo ptr p \<longleftrightarrow>
     (case find_rsdp m (BootInfo + 8) 0 of
        None \<Rightarrow> False
      | Some rsdp \<Rightarrow>
          (let rsdt = rsdt_address (read_RSDPv1 m rsdp) + KERNEL_HIGHER_HALF_OFFSET
           in rsdp \<noteq> 0 \<and> table_checksum m rsdt (sdt_length (read_SDTHeader m rsdt)) = 0
              \<and> find_madt m rsdt ptr = p \<and> p \<noteq> 0
              \<and> table_checksum m p (sdt_length (madt_header (read_MADT m p))) = 0))"

lemma SaveInfo_walk:
  assumes "\<not> APIC_InfoSaved a" "madt_found m BootInfo (MADT_ptr a) p" "madt_walk m (madt_end m p) (madt_first p) ps"
    and "overrides_fit m ps" "length (LocalAPIC_InfoPtrs a) = 255" "length (IOAPIC_InfoPtrs a) = 255"
    and "length (entries_of m MADT_ENTRY_PROC_LAPIC ps) \<le> 255"
  shows "APIC_SaveInfo m BootInfo a =
    (if length (entries_of m MADT_ENTRY_IOAPIC ps) \<le> 255 then
       Inr (True, a\<lparr>APIC_InfoSaved := True, MADT_ptr := p, PIC_exists := madt_flags (read_MADT m p) \<noteq> 0,
         LocalAPIC_address := local_address m ps (madt_local_apic_address (read_MADT m p)),
         LocalAPIC_InfoPtrs := filled 0 (entries_of m MADT_ENTRY_PROC_LAPIC ps) (LocalAPIC_InfoPtrs a),
         LocalAPIC_Num := length (entries_of m MADT_ENTRY_PROC_LAPIC ps),
         IOAPIC_InfoPtrs := filled 0 (entries_of m MADT_ENTRY_IOAPIC ps) (IOAPIC_InfoPtrs a),
         IOAPIC_Num := length (entries_of m MADT_ENTRY_IOAPIC ps)\<rparr>)
     else Inl Out_Of_Bounds)"
proof -
  obtain rsdp where r: "find_rsdp m (BootInfo + 8) 0 = Some rsdp"
    using assms(2) by (auto simp: madt_found_def split: option.splits)
  show ?thesis
    using assms r count_entries_walk [OF assms(3), of 0 0] save_entries_walk [OF assms(3,4), of 0 _ 0]
    by (auto simp: APIC_SaveInfo_def madt_found_def Let_def or_loop_def MACHINE_MAX_CPUS_def MACHINE_MAX_IOAPICS_def)
qed

section \<open>Properties\<close>

text \<open>
  C32: When the tables are found and have valid checksums and there are at most 255 processors,
  collecting them stores the processors and the I/O controllers in the order of the table, with
  their numbers, the last override of the address of the local controllers, and whether the legacy
  controller exists; but with more than 255 I/O controllers, whose number is not checked, it writes
  past the end of the array.
\<close>

theorem APIC_SaveInfo_collects:
  assumes "\<not> APIC_InfoSaved a" and "madt_found m BootInfo (MADT_ptr a) p"
    and "madt_walk m (madt_end m p) (madt_first p) ps" and "overrides_fit m ps"
    and "length (LocalAPIC_InfoPtrs a) = 255" and "length (IOAPIC_InfoPtrs a) = 255"
    and "length (entries_of m MADT_ENTRY_PROC_LAPIC ps) \<le> 255"
  shows "if length (entries_of m MADT_ENTRY_IOAPIC ps) \<le> 255 then
      \<exists>a'. APIC_SaveInfo m BootInfo a = Inr (True, a') \<and> APIC_InfoSaved a' \<and> MADT_ptr a' = p
        \<and> (PIC_exists a' \<longleftrightarrow> madt_flags (read_MADT m p) \<noteq> 0)
        \<and> LocalAPIC_address a' = local_address m ps (madt_local_apic_address (read_MADT m p))
        \<and> take (LocalAPIC_Num a') (LocalAPIC_InfoPtrs a') = entries_of m MADT_ENTRY_PROC_LAPIC ps
        \<and> take (IOAPIC_Num a') (IOAPIC_InfoPtrs a') = entries_of m MADT_ENTRY_IOAPIC ps
        \<and> length (LocalAPIC_InfoPtrs a') = 255 \<and> length (IOAPIC_InfoPtrs a') = 255
    else APIC_SaveInfo m BootInfo a = Inl Out_Of_Bounds"
  using SaveInfo_walk [OF assms] assms(5-7) by (simp add: take_filled [of 0] length_filled)

definition sample_tables :: memory where
  "sample_tables a = (case map_of [
      (0x1008, 0xE), (0x100C, 0x1C), (0x1021, 0x20), (0x102C, 0x8), (0x80002000, 0x52), (0x80002001, 0x53),
      (0x80002002, 0x44), (0x80002003, 0x54), (0x80002004, 0x28), (0x80002009, 0x6B), (0x80002025, 0x30),
      (0x80003000, 0x41), (0x80003001, 0x50), (0x80003002, 0x49), (0x80003003, 0x43), (0x80003004, 0x40),
      (0x80003009, 0xE7), (0x80003026, 0xE0), (0x80003027, 0xFE), (0x80003028, 0x1), (0x8000302D, 0x8), (0x8000302F,
      0x7), (0x80003030, 0x1), (0x80003034, 0x1), (0x80003035, 0xC), (0x80003036, 0x2), (0x8000303A, 0xC0),
      (0x8000303B, 0xFE)] a of None \<Rightarrow> 0 | Some b \<Rightarrow> b)"

definition empty_apic :: apic where
  "empty_apic = \<lparr>APIC_InfoSaved = False, MADT_ptr = 0, PIC_exists = False, LocalAPIC_address = 0,
     LocalAPIC_InfoPtrs = replicate 255 0, LocalAPIC_Num = 0, IOAPIC_InfoPtrs = replicate 255 0, IOAPIC_Num = 0\<rparr>"

lemma sample_tags:
  "load32 sample_tables 0x1008 = 14" "next_tag sample_tables 0x1008 = 0x1028" "load32 sample_tables 0x1028 = 0"
  by code_simp+

lemma sample_rsdp: "find_rsdp sample_tables (0x1000 + 8) 0 = Some 0x1010"
  by (subst find_rsdp.simps, subst find_rsdp.simps) (simp add: sample_tags MULTIBOOT_TAG_TYPE_ACPI_OLD_def)

lemma sample_found: "madt_found sample_tables 0x1000 0 0x80003000"
  unfolding madt_found_def sample_rsdp by code_simp

lemma sample_bounds: "madt_end sample_tables 0x80003000 = 0x80003040" "madt_first 0x80003000 = 0x8000302C"
  by code_simp+

lemma sample_next: "next_entry sample_tables 0x8000302C = 0x80003034" "next_entry sample_tables 0x80003034 = 0x80003040"
  by code_simp+

lemma sample_walk: "madt_walk sample_tables 0x80003040 0x8000302C [0x8000302C, 0x80003034]"
  by (simp add: madt_walk_Cons madt_walk_Nil sample_next)

lemma sample_entries:
  "entries_of sample_tables MADT_ENTRY_PROC_LAPIC [0x8000302C, 0x80003034] = [0x8000302C]"
  "entries_of sample_tables MADT_ENTRY_IOAPIC [0x8000302C, 0x80003034] = [0x80003034]"
  "entries_of sample_tables MADT_ENTRY_LAPIC_ADDR [0x8000302C, 0x80003034] = []"
  by code_simp+

theorem APIC_SaveInfo_collects_witness:
  "\<exists>a'. APIC_SaveInfo sample_tables 0x1000 empty_apic = Inr (True, a')
     \<and> take (LocalAPIC_Num a') (LocalAPIC_InfoPtrs a') = [0x8000302C]
     \<and> take (IOAPIC_Num a') (IOAPIC_InfoPtrs a') = [0x80003034]"
  using APIC_SaveInfo_collects [of empty_apic sample_tables "0x1000" "0x80003000" "[0x8000302C, 0x80003034]"]
    sample_found sample_walk sample_entries
  by (auto simp: empty_apic_def sample_bounds overrides_fit_def)

end
