(* ===== verification/AVOS_Keyboard.thy ===== *)
theory AVOS_Keyboard
  imports AVOS_Console
begin

text \<open>
  The keyboard driver, \<open>kernel/devices/keyboard/src/keyboard.c\<close>: scan codes to characters, with
  the state of the modifier keys. The four tables are written as the initialisers of the source:
  a positional part, entries at given indices, zero elsewhere.
\<close>

section \<open>Tables\<close>

definition KEYBOARD_STAT_PORT :: u16 where "KEYBOARD_STAT_PORT = 0x64"
definition KEYBOARD_DATA_PORT :: u16 where "KEYBOARD_DATA_PORT = 0x60"
definition KEYBOARD_DATA_IN_BUFFER :: u8 where "KEYBOARD_DATA_IN_BUFFER = 0x01"
definition KEY_SHIFT :: u8 where "KEY_SHIFT = push_bit 0 1"
definition KEY_CTL :: u8 where "KEY_CTL = push_bit 1 1"
definition KEY_ALT :: u8 where "KEY_ALT = push_bit 2 1"
definition KEY_CAPSLOCK :: u8 where "KEY_CAPSLOCK = push_bit 3 1"
definition KEY_NUMLOCK :: u8 where "KEY_NUMLOCK = push_bit 4 1"
definition KEY_SCROLLLOCK :: u8 where "KEY_SCROLLLOCK = push_bit 5 1"
definition KEY_E0ESC :: u32 where "KEY_E0ESC = push_bit 6 1"
definition KEY_HOME :: u8 where "KEY_HOME = 0xE0"
definition KEY_END :: u8 where "KEY_END = 0xE1"
definition KEY_UP :: u8 where "KEY_UP = 0xE2"
definition KEY_DN :: u8 where "KEY_DN = 0xE3"
definition KEY_LF :: u8 where "KEY_LF = 0xE4"
definition KEY_RT :: u8 where "KEY_RT = 0xE5"
definition KEY_PGUP :: u8 where "KEY_PGUP = 0xE6"
definition KEY_PGDN :: u8 where "KEY_PGDN = 0xE7"
definition KEY_INS :: u8 where "KEY_INS = 0xE8"
definition KEY_DEL :: u8 where "KEY_DEL = 0xE9"

text \<open>The macro \<open>C\<close> of the header: the control character of a key.\<close>

definition control_char :: "char \<Rightarrow> u8" where
  "control_char c = of_char c - of_char CHR ''@''"

definition table256 :: "u8 list \<Rightarrow> (nat \<times> u8) list \<Rightarrow> u8 list" where
  "table256 positional designated =
     fold (\<lambda>(i, v) t. t[i := v]) designated (positional @ replicate (256 - length positional) 0)"

definition Keyboard_shiftcode :: "u8 list" where
  "Keyboard_shiftcode = table256 []
     [(0x1D, KEY_CTL), (0x2A, KEY_SHIFT), (0x36, KEY_SHIFT), (0x38, KEY_ALT), (0x9D, KEY_CTL), (0xB8, KEY_ALT)]"

definition Keyboard_togglecode :: "u8 list" where
  "Keyboard_togglecode = table256 [] [(0x3A, KEY_CAPSLOCK), (0x45, KEY_NUMLOCK), (0x46, KEY_SCROLLLOCK)]"

definition keypad_keys :: "(nat \<times> u8) list" where
  "keypad_keys = [(0xC8, KEY_UP), (0xD0, KEY_DN), (0xC9, KEY_PGUP), (0xD1, KEY_PGDN), (0xCB, KEY_LF), (0xCD, KEY_RT),
     (0x97, KEY_HOME), (0xCF, KEY_END), (0xD2, KEY_INS), (0xD3, KEY_DEL)]"

definition Keyboard_normalmap :: "u8 list" where
  "Keyboard_normalmap = table256
     ([0, 0x1B] @ map of_char ''1234567890-='' @ [0x08, 0x09]
      @ map of_char ''qwertyuiop[]'' @ [0x0A, 0] @ map of_char ''asdfghjkl;'' @ [0x27] @ map of_char ''`'' @ [0, 0x5C]
      @ map of_char ''zxcvbnm,./'' @ [0] @ map of_char ''*'' @ [0] @ map of_char '' '' @ replicate 13 0
      @ map of_char ''789-456+1230.'' @ [0, 0, 0, 0])
     ([(0x9C, 0x0A), (0xB5, of_char CHR ''/'')] @ keypad_keys)"

definition Keyboard_shiftmap :: "u8 list" where
  "Keyboard_shiftmap = table256
     ([0, 0x1B] @ map of_char ''!@#$%^&*()_+'' @ [0x08, 0x09]
      @ map of_char ''QWERTYUIOP{}'' @ [0x0A, 0] @ map of_char ''ASDFGHJKL:'' @ [0x22] @ map of_char ''~'' @ [0]
      @ map of_char ''|ZXCVBNM<>?'' @ [0] @ map of_char ''*'' @ [0] @ map of_char '' '' @ replicate 13 0
      @ map of_char ''789-456+1230.'' @ [0, 0, 0, 0])
     ([(0x9C, 0x0A), (0xB5, of_char CHR ''/'')] @ keypad_keys)"

definition Keyboard_ctlmap :: "u8 list" where
  "Keyboard_ctlmap = table256
     (replicate 16 0 @ map control_char ''QWERTYUIOP'' @ [0, 0, 0x0D, 0] @ map control_char ''ASDFGHJKL''
      @ [0, 0, 0, 0, 0x1C] @ map control_char ''ZXCVBNM'' @ [0, 0] @ map control_char ''/'' @ [0, 0])
     ([(0x9C, 0x0D), (0xB5, control_char CHR ''/'')] @ keypad_keys)"

section \<open>Reading a key\<close>

definition charcode :: "nat \<Rightarrow> u8 list" where
  "charcode i = [Keyboard_normalmap, Keyboard_shiftmap, Keyboard_ctlmap, Keyboard_ctlmap] ! i"

text \<open>What is done with a scan code: the new state of the modifiers and the character.\<close>

definition capitalise :: "u32 \<Rightarrow> u8 \<Rightarrow> u8" where
  "capitalise shift c =
     (if shift AND ucast KEY_CAPSLOCK \<noteq> 0 then
        (if of_char CHR ''a'' \<le> c \<and> c \<le> of_char CHR ''z'' then c + (of_char CHR ''A'' - of_char CHR ''a'')
         else if of_char CHR ''A'' \<le> c \<and> c \<le> of_char CHR ''Z'' then c + (of_char CHR ''a'' - of_char CHR ''A'')
         else c)
      else c)"

definition key_press :: "u32 \<Rightarrow> u8 \<Rightarrow> u32 \<times> u8" where
  "key_press shift data =
     (let shift1 = (shift OR ucast (Keyboard_shiftcode ! unat data)) XOR ucast (Keyboard_togglecode ! unat data)
      in (shift1, capitalise shift1 (charcode (unat (shift1 AND ucast (KEY_CTL OR KEY_SHIFT))) ! unat data)))"

definition key_code :: "u32 \<Rightarrow> u8 \<Rightarrow> u32 \<times> u8" where
  "key_code shift data =
     (if data = 0xE0 then (shift OR KEY_E0ESC, 0)
      else if data AND 0x80 \<noteq> 0 then
        (let k = (if shift AND KEY_E0ESC \<noteq> 0 then data else data AND 0x7F)
         in (shift AND NOT (ucast (Keyboard_shiftcode ! unat k) OR KEY_E0ESC), 0))
      else if shift AND KEY_E0ESC \<noteq> 0 then key_press (shift AND NOT KEY_E0ESC) (data OR 0x80)
      else key_press shift data)"

definition Keyboard_GetChar :: "'d ports \<Rightarrow> u32 \<times> 'd \<Rightarrow> u8 \<times> u32 \<times> 'd" where
  "Keyboard_GetChar io sd =
     (let (status, d1) = Inb io KEYBOARD_STAT_PORT (snd sd)
      in if status AND KEYBOARD_DATA_IN_BUFFER = 0 then (0xFF, fst sd, d1)
         else (let (data, d2) = Inb io KEYBOARD_DATA_PORT d1; (shift, c) = key_code (fst sd) data in (c, shift, d2)))"

definition Keyboard_HandleInterrupt ::
  "'d ports \<Rightarrow> ('d \<Rightarrow> 'd) \<Rightarrow> u32 \<times> 'd console \<Rightarrow> (u32 \<times> 'd console) option" where
  "Keyboard_HandleInterrupt io LocalAPIC_EOI sc =
     (let (c, shift, d) = Keyboard_GetChar io (fst sc, con_dev (snd sc))
      in Option.bind (Console_PrintChar io c ((snd sc)\<lparr>con_dev := d\<rparr>)) (\<lambda>con.
           Some (shift, con\<lparr>con_dev := LocalAPIC_EOI (con_dev con)\<rparr>)))"

section \<open>Facts about the tables\<close>

lemma length_table256 [simp]: "length positional \<le> 256 \<Longrightarrow> length (table256 positional designated) = 256"
proof -
  have "length (fold (\<lambda>(i, v) t. t[i := v]) ds xs) = length xs" for ds :: "(nat \<times> u8) list" and xs
    by (induction ds arbitrary: xs) auto
  then show "length positional \<le> 256 \<Longrightarrow> ?thesis" by (simp add: table256_def)
qed

lemma length_tables:
  "length Keyboard_normalmap = 256" "length Keyboard_shiftmap = 256" "length Keyboard_ctlmap = 256"
  "length Keyboard_shiftcode = 256" "length Keyboard_togglecode = 256"
  by (simp_all add: Keyboard_normalmap_def Keyboard_shiftmap_def Keyboard_ctlmap_def Keyboard_shiftcode_def
      Keyboard_togglecode_def)

lemma shiftcode_at:
  "n < 256 \<Longrightarrow> Keyboard_shiftcode ! n =
     (if n = 0x1D \<or> n = 0x9D then 2 else if n = 0x2A \<or> n = 0x36 then 1 else if n = 0x38 \<or> n = 0xB8 then 4 else 0)"
  by (simp add: Keyboard_shiftcode_def table256_def nth_list_update KEY_CTL_def KEY_SHIFT_def KEY_ALT_def del: replicate.simps)

lemma togglecode_at:
  "n < 256 \<Longrightarrow> Keyboard_togglecode ! n = (if n = 0x3A then 8 else if n = 0x45 then 16 else if n = 0x46 then 32 else 0)"
  by (simp add: Keyboard_togglecode_def table256_def nth_list_update KEY_CAPSLOCK_def KEY_NUMLOCK_def KEY_SCROLLLOCK_def
      del: replicate.simps)

section \<open>The modifier state after a sequence of scan codes\<close>

definition key_shift :: "u32 \<Rightarrow> u8 \<Rightarrow> u32" where
  "key_shift shift data = fst (key_code shift data)"

text \<open>
  How often the caps lock key was pressed: make codes \<open>0x3A\<close> that do not follow the escape
  \<open>0xE0\<close>.
\<close>

fun caps_presses :: "bool \<Rightarrow> u8 list \<Rightarrow> nat" where
  "caps_presses escaped [] = 0"
| "caps_presses escaped (c # cs) = (if c = 0x3A \<and> \<not> escaped then 1 else 0) + caps_presses (c = 0xE0) cs"

lemma test_bit_and: "(w :: u32) AND push_bit n 1 \<noteq> 0 \<longleftrightarrow> bit w n"
proof -
  have "w AND push_bit n 1 = 0 \<longleftrightarrow> (\<forall>m. \<not> bit (w AND push_bit n 1) m)"
    by (rule iffI) (simp, rule bit_word_eqI, simp del: push_bit_of_1)
  also have "\<dots> \<longleftrightarrow> \<not> bit w n" using bit_imp_le_length [of w n] by (auto simp: bit_and_iff bit_exp_iff)
  finally show ?thesis by blast
qed

lemma test_bit_and_u8: "(w :: u8) AND push_bit n 1 \<noteq> 0 \<longleftrightarrow> bit w n"
proof -
  have "w AND push_bit n 1 = 0 \<longleftrightarrow> (\<forall>m. \<not> bit (w AND push_bit n 1) m)"
    by (rule iffI) (simp, rule bit_word_eqI, simp del: push_bit_of_1)
  also have "\<dots> \<longleftrightarrow> \<not> bit w n" using bit_imp_le_length [of w n] by (auto simp: bit_and_iff bit_exp_iff)
  finally show ?thesis by blast
qed

lemma data_and_0x80: "data AND (0x80 :: u8) \<noteq> 0 \<longleftrightarrow> bit data 7"
  using test_bit_and_u8 [of data 7] by simp

lemma data_or_0x80: "data OR 0x80 \<noteq> (0x3A :: u8)"
proof
  assume "data OR 0x80 = (0x3A :: u8)"
  then have "bit (data OR 0x80) 7 \<longleftrightarrow> bit (0x3A :: u8) 7" by simp
  then show False by (simp add: bit_simps)
qed

lemma bit_power_word: "k < LENGTH('a) \<Longrightarrow> bit (2 ^ k :: 'a::len word) n \<longleftrightarrow> n = k"
  by (auto simp: bit_exp_iff)

lemmas bit_flags =
  bit_power_word [where ?'a = 32 and k = "0", simplified] bit_power_word [where ?'a = 32 and k = "1", simplified]
  bit_power_word [where ?'a = 32 and k = "2", simplified] bit_power_word [where ?'a = 32 and k = "3", simplified]
  bit_power_word [where ?'a = 32 and k = "4", simplified] bit_power_word [where ?'a = 32 and k = "5", simplified]
  bit_power_word [where ?'a = 32 and k = "6", simplified]
  bit_power_word [where ?'a = 8 and k = "0", simplified] bit_power_word [where ?'a = 8 and k = "1", simplified]
  bit_power_word [where ?'a = 8 and k = "2", simplified] bit_power_word [where ?'a = 8 and k = "3", simplified]
  bit_power_word [where ?'a = 8 and k = "4", simplified] bit_power_word [where ?'a = 8 and k = "5", simplified]

lemma bit_shiftcode: "bit (ucast (Keyboard_shiftcode ! unat (k :: u8)) :: u32) n \<Longrightarrow> n < 3"
  using unat_u8_lt [of k] by (simp add: shiftcode_at bit_flags split: if_splits)

lemma bit_togglecode:
  "bit (ucast (Keyboard_togglecode ! unat (k :: u8)) :: u32) n \<Longrightarrow> 3 \<le> n \<and> n < 6"
  "bit (ucast (Keyboard_togglecode ! unat (k :: u8)) :: u32) 3 \<longleftrightarrow> k = 0x3A"
  using unat_u8_lt [of k] by (simp_all add: togglecode_at bit_flags word_unat_eq_iff split: if_splits)

lemma bit_key_press:
  "bit (fst (key_press s k)) n \<longleftrightarrow>
    (bit s n \<or> bit (ucast (Keyboard_shiftcode ! unat k) :: u32) n) \<noteq> bit (ucast (Keyboard_togglecode ! unat k) :: u32) n"
  by (simp add: key_press_def Let_def bit_simps)

lemma bit_E0ESC: "bit KEY_E0ESC n \<longleftrightarrow> n = 6"
  by (simp add: KEY_E0ESC_def bit_flags)

lemma key_shift_bits:
  "bit (key_shift s c) 6 \<longleftrightarrow> c = 0xE0"
  "bit (key_shift s c) 3 \<longleftrightarrow> bit s 3 \<noteq> (c = 0x3A \<and> \<not> bit s 6)"
  "(\<And>n. bit s n \<Longrightarrow> n < 7) \<Longrightarrow> bit (key_shift s c) n \<Longrightarrow> n < 7"
proof -
  have e: "s AND KEY_E0ESC \<noteq> 0 \<longleftrightarrow> bit s 6" unfolding KEY_E0ESC_def by (rule test_bit_and)
  have k: "bit (0xE0 :: u8) 7" "\<not> bit (0x3A :: u8) 7" by (simp_all add: bit_simps)
  consider "c = 0xE0" | "c \<noteq> 0xE0" "bit c 7" | "\<not> bit c 7" "bit s 6" | "\<not> bit c 7" "\<not> bit s 6" by blast
  note cases = this
  have s3: "\<not> bit (ucast (Keyboard_shiftcode ! unat (k :: u8)) :: u32) 3" "\<not> bit (ucast (Keyboard_shiftcode ! unat (k :: u8)) :: u32) 6"
    "\<not> bit (ucast (Keyboard_togglecode ! unat (k :: u8)) :: u32) 6" for k
    using bit_shiftcode [of k 3] bit_shiftcode [of k 6] bit_togglecode(1) [of k 6] by auto
  show "bit (key_shift s c) 6 \<longleftrightarrow> c = 0xE0"
    by (cases rule: cases) (use k in \<open>auto simp: key_shift_def key_code_def Let_def data_and_0x80 e bit_key_press s3 bit_E0ESC bit_and_iff bit_or_iff bit_not_iff\<close>)
  show "bit (key_shift s c) 3 \<longleftrightarrow> bit s 3 \<noteq> (c = 0x3A \<and> \<not> bit s 6)"
    by (cases rule: cases) (use k data_or_0x80 in \<open>auto simp: key_shift_def key_code_def Let_def data_and_0x80 e bit_key_press s3 bit_togglecode(2)
        bit_E0ESC bit_and_iff bit_or_iff bit_not_iff\<close>)
  show "n < 7" if "\<And>n. bit s n \<Longrightarrow> n < 7" "bit (key_shift s c) n"
    using that(2) by (cases rule: cases)
      (auto simp: key_shift_def key_code_def Let_def data_and_0x80 e bit_key_press bit_E0ESC bit_and_iff bit_or_iff
        dest: that(1) bit_shiftcode bit_togglecode(1) split: if_splits)
qed

lemma key_shift_width: "(\<And>n. bit s n \<Longrightarrow> n < 7) \<Longrightarrow> bit (foldl key_shift s cs) n \<Longrightarrow> n < 7"
proof (induction cs arbitrary: s)
  case (Cons c cs)
  show ?case
    by (rule Cons.IH [of "key_shift s c"]) (use Cons.prems key_shift_bits(3) in \<open>auto\<close>)
qed auto

lemma key_shift_escape: "bit (foldl key_shift s cs) 6 \<longleftrightarrow> (if cs = [] then bit s 6 else last cs = 0xE0)"
  by (induction cs arbitrary: s) (simp_all add: key_shift_bits(1))

lemma key_shift_caps: "bit (foldl key_shift s cs) 3 \<longleftrightarrow> bit s 3 \<noteq> odd (caps_presses (bit s 6) cs)"
proof (induction cs arbitrary: s)
  case (Cons c cs)
  show ?case
    unfolding foldl_Cons Cons.IH key_shift_bits(1,2) caps_presses.simps by auto
qed simp

section \<open>Properties\<close>

text \<open>
  C31: After any sequence of scan codes from the initial state the modifier word uses its seven
  bits only, the escape bit says whether the last code was \<open>0xE0\<close>, and the caps lock bit is the
  parity of the presses of its key; codes that follow an escape are another key's.
\<close>

theorem Keyboard_modifier_state:
  "foldl key_shift 0 codes = take_bit 7 (foldl key_shift 0 codes)
   \<and> (bit (foldl key_shift 0 codes) 6 \<longleftrightarrow> codes \<noteq> [] \<and> last codes = 0xE0)
   \<and> (bit (foldl key_shift 0 codes) 3 \<longleftrightarrow> odd (caps_presses False codes))"
proof -
  have "foldl key_shift 0 codes = take_bit 7 (foldl key_shift 0 codes)"
    using key_shift_width [of 0 codes] by (intro bit_word_eqI) (auto simp: bit_take_bit_iff)
  then show ?thesis using key_shift_escape [of 0 codes] key_shift_caps [of 0 codes] by simp
qed

end
