(* ===== verification/AVOS_Initialize.thy ===== *)
theory AVOS_Initialize
  imports AVOS_APIC AVOS_Keyboard
begin

text \<open>
  Start-up of the kernel, \<open>kernel/arch/initialize/src/initialize.c\<close>: the tables and registers of a
  processor, the devices, and the other processors. The functions compose those of the components;
  what they need of assembly code and of the machine is the record \<open>env\<close>: the port and register
  accesses, the symbols of the assembly code, what the devices do during a delay, and which
  processors answer to a start-up message.
\<close>

section \<open>State\<close>

record TSS =
  tss_ss0 :: u16
  tss_iomap_base_address :: u16

record Descriptor =
  desc_limit :: u16
  desc_base :: u32

record CPU =
  cpu_apic_id :: u32
  cpu_acpi_id :: u32
  cpu_task_state :: TSS
  cpu_gdt_table :: "nat \<Rightarrow> GDT_Entry"
  cpu_gdt_desc :: Descriptor
  cpu_idt_table :: "nat \<Rightarrow> IDT_Entry"
  cpu_idt_desc :: Descriptor

text \<open>The registers of the processor that start-up code sets.\<close>

record registers =
  r_cr0 :: u32
  r_cr3 :: u32
  r_cr4 :: u32
  r_gdtr :: Descriptor
  r_idtr :: Descriptor
  r_tr :: u16

record ('d, 's) system =
  sys_kernel :: kernel
  sys_apic :: apic
  sys_dev :: 'd
  sys_pit :: Timer
  sys_handlers :: "'s handlers"
  sys_pos :: u16
  sys_inpanic :: bool
  sys_console_lock :: SpinLock
  Kernel_numcpus_online :: nat
  sys_cpus :: "u32 \<Rightarrow> CPU"
  sys_registers :: registers

record ('d, 's) env =
  env_io :: "'d ports"
  env_mm :: "'d mmio"
  env_BootInfo :: u32
  env_delay :: "u32 \<Rightarrow> 'd \<Rightarrow> 'd"
  env_PIT_handler :: "'s handler"
  env_Keyboard_handler :: "'s handler"
  env_Timer_handler :: "'s handler"
  env_state :: u32
  env_pagedirectory :: u32
  env_entry_points :: "u32 \<times> u32 \<times> u32 \<times> u32"
  env_StartAP :: u32
  env_EndAP :: u32
  env_answers :: "u8 \<Rightarrow> bool"

definition SMP_CMOS_RAM_ADDR_PORT :: u16 where "SMP_CMOS_RAM_ADDR_PORT = 0x70"
definition SMP_CMOS_RAM_DATA_PORT :: u16 where "SMP_CMOS_RAM_DATA_PORT = 0x71"
definition SMP_WARM_RESET_ADDR :: u8 where "SMP_WARM_RESET_ADDR = 0x0F"
definition SMP_WARM_RESET_SIGN :: u8 where "SMP_WARM_RESET_SIGN = 0x0A"
definition SMP_WARM_RESET_VECTOR :: u32 where "SMP_WARM_RESET_VECTOR = push_bit 4 0x40 OR 0x67"
definition SMP_WARM_RESET_BOOT_OFF :: "u32 \<Rightarrow> u32" where "SMP_WARM_RESET_BOOT_OFF x = x AND 0xF"
definition SMP_WARM_RESET_BOOT_SEG :: "u32 \<Rightarrow> u32" where "SMP_WARM_RESET_BOOT_SEG x = drop_bit 4 x"
definition KERNEL_AP_BOOT_START_ADDR :: u32 where "KERNEL_AP_BOOT_START_ADDR = 0x8000"
definition CR0_WP :: u32 where "CR0_WP = 0x10000"
definition CR0_PG :: u32 where "CR0_PG = 0x80000000"
definition CR4_PSE :: u32 where "CR4_PSE = 0x10"
definition GDT_NENTRIES :: nat where "GDT_NENTRIES = 6"
definition GDT_SEG_TSS :: u16 where "GDT_SEG_TSS = 5 * 8"
definition PIT_IRQLINE :: u8 where "PIT_IRQLINE = 0"
definition KEYBOARD_PS2_IRQLINE :: u8 where "KEYBOARD_PS2_IRQLINE = 1"

text \<open>Sizes of the packed structures.\<close>

definition SIZEOF_TSS :: u32 where "SIZEOF_TSS = 104"
definition SIZEOF_CPU :: u32 where "SIZEOF_CPU = 8 + SIZEOF_TSS + 6 * 8 + 6 + 256 * 8 + 6"
definition SIZEOF_KPROC :: u32 where "SIZEOF_KPROC = 4 + 4 + 16"

section \<open>Starting another processor\<close>

definition wake_sequence :: "('d, 's) env \<Rightarrow> u32 \<Rightarrow> u8 \<Rightarrow> u32 \<Rightarrow> 'd \<Rightarrow> 'd" where
  "wake_sequence env lapic local_apic_id boot_address d =
     (let w = lapic_write (env_mm env) lapic; delay = env_delay env 2; dest = push_bit 24 (ucast local_apic_id);
          startup = LAPIC_ICR_DELIVERY_STARTUP OR LAPIC_STARTUP_VECTOR boot_address;
          d1 = w LAPIC_REG_ICRHI dest d;
          d2 = delay (w LAPIC_REG_ICRLO (LAPIC_ICR_DELIVERY_INIT OR LAPIC_ICR_TRIGGER_LEVEL OR LAPIC_ICR_LEVEL_ASSERT) d1);
          d3 = delay (w LAPIC_REG_ICRLO (LAPIC_ICR_DELIVERY_INIT OR LAPIC_ICR_TRIGGER_LEVEL OR LAPIC_ICR_LEVEL_DEASSERT) d2);
          d4 = delay (w LAPIC_REG_ICRLO startup (w LAPIC_REG_ICRHI dest d3))
      in delay (w LAPIC_REG_ICRLO startup (w LAPIC_REG_ICRHI dest d4)))"

definition Initialize_CPU ::
  "('d, 's) env \<Rightarrow> u8 \<Rightarrow> u32 \<Rightarrow> ('d, 's) system \<Rightarrow> (bool \<times> ('d, 's) system) result" where
  "Initialize_CPU env local_apic_id boot_address s =
     (let io = env_io env; k = sys_kernel s; vec = SMP_WARM_RESET_VECTOR + KERNEL_HIGHER_HALF_OFFSET;
          d1 = Outb io SMP_CMOS_RAM_DATA_PORT SMP_WARM_RESET_SIGN (Outb io SMP_CMOS_RAM_ADDR_PORT SMP_WARM_RESET_ADDR (sys_dev s));
          m1 = store16 (store16 (mem k) vec (ucast (SMP_WARM_RESET_BOOT_OFF boot_address))) (vec + 2)
                 (ucast (SMP_WARM_RESET_BOOT_SEG boot_address));
          d2 = wake_sequence env (LocalAPIC_address (sys_apic s)) local_apic_id boot_address d1
      in if env_answers env local_apic_id
         then Inr (True, s\<lparr>sys_kernel := k\<lparr>mem := m1\<rparr>, sys_dev := d2, Kernel_numcpus_online := Suc (Kernel_numcpus_online s)\<rparr>)
         else Inl Loops_Forever)"

section \<open>The processor that runs the code\<close>

definition load_tables :: "('d, 's) env \<Rightarrow> u32 \<Rightarrow> u8 \<Rightarrow> CPU" where
  "load_tables env cpu_ptr apic_id8 =
     (let (i20, i21, i30, i80) = env_entry_points env
      in \<lparr>cpu_apic_id = ucast apic_id8, cpu_acpi_id = 0,
          cpu_task_state = \<lparr>tss_ss0 = GDT_SEG_KERN_DATA, tss_iomap_base_address = 0xFFFF\<rparr>,
          cpu_gdt_table = cpu_gdt (cpu_ptr + 8) (SIZEOF_TSS - 1),
          cpu_gdt_desc = \<lparr>desc_limit = of_nat (8 * GDT_NENTRIES - 1), desc_base = cpu_ptr + 8 + SIZEOF_TSS\<rparr>,
          cpu_idt_table = cpu_idt i20 i21 i30 i80,
          cpu_idt_desc = \<lparr>desc_limit = of_nat (8 * IDT_NENTRIES - 1), desc_base = cpu_ptr + 8 + SIZEOF_TSS + 8 * 6 + 6\<rparr>\<rparr>)"

definition Initialize_ThisProcessor :: "('d, 's) env \<Rightarrow> ('d, 's) system \<Rightarrow> ('d, 's) system result" where
  "Initialize_ThisProcessor env s =
     (let state = env_state env; k = sys_kernel s; r = sys_registers s;
          cpu_ptr = state - SIZEOF_CPU; kproc = state - SIZEOF_CPU - SIZEOF_KPROC;
          k1 = k\<lparr>cpu := (cpu k)\<lparr>state_current := \<lparr>preemption_vetos = 0, interrupt_priority = 0, process = None, kernel_task = kproc\<rparr>\<rparr>,
                 kprocs := (kprocs k)(kproc := (kprocs k kproc)\<lparr>kp_cpu := cpu_ptr\<rparr>)\<rparr>;
          (apic_id8, d1) = LocalAPIC_ID (env_mm env) (LocalAPIC_address (sys_apic s)) (sys_dev s);
          c = load_tables env cpu_ptr apic_id8;
          r1 = r\<lparr>r_cr3 := PHYSADDR (env_pagedirectory env), r_cr4 := r_cr4 r OR CR4_PSE, r_cr0 := r_cr0 r OR CR0_PG OR CR0_WP,
                 r_gdtr := cpu_gdt_desc c, r_tr := GDT_SEG_TSS OR GDT_RPL3, r_idtr := cpu_idt_desc c\<rparr>
      in res_bind (LocalAPIC_Initialize (env_mm env) (mem k1) (env_BootInfo env) (sys_apic s, d1)) (\<lambda>(_, a, d2).
           Inr (s\<lparr>sys_kernel := k1, sys_apic := a, sys_dev := d2, sys_cpus := (sys_cpus s)(cpu_ptr := c),
                  sys_registers := r1, Kernel_numcpus_online := Suc (Kernel_numcpus_online s)\<rparr>)))"

section \<open>Devices and the other processors\<close>

definition console_of :: "('d, 's) system \<Rightarrow> 'd console" where
  "console_of s = \<lparr>con_mem = mem (sys_kernel s), Console_pos = sys_pos s, Console_inpanic = sys_inpanic s,
     Console_lock = sys_console_lock s, con_dev = sys_dev s\<rparr>"

definition with_console :: "'d console \<Rightarrow> ('d, 's) system \<Rightarrow> ('d, 's) system" where
  "with_console c s = s\<lparr>sys_kernel := (sys_kernel s)\<lparr>mem := con_mem c\<rparr>, sys_pos := Console_pos c, sys_inpanic := Console_inpanic c,
     sys_console_lock := Console_lock c, sys_dev := con_dev c\<rparr>"

fun start_processors :: "('d, 's) env \<Rightarrow> u32 list \<Rightarrow> ('d, 's) system \<Rightarrow> ('d, 's) system result" where
  "start_processors env [] s = Inr s"
| "start_processors env (p # ps) s =
     (let (id8, d1) = LocalAPIC_ID (env_mm env) (LocalAPIC_address (sys_apic s)) (sys_dev s);
          s1 = s\<lparr>sys_dev := d1\<rparr>; target = ml_apic_id (read_MADT_Entry_LocalAPIC (mem (sys_kernel s1)) p)
      in if id8 = target then start_processors env ps s1
         else res_bind (Initialize_CPU env target KERNEL_AP_BOOT_START_ADDR s1) (\<lambda>(_, s2). start_processors env ps s2))"

definition Initialize_System :: "('d, 's) env \<Rightarrow> ('d, 's) system \<Rightarrow> ('d, 's) system result" where
  "Initialize_System env s =
     (let io = env_io env; mm = env_mm env
      in res_bind (IOAPIC_Initialize io mm (mem (sys_kernel s)) (env_BootInfo env) (sys_apic s, sys_dev s, cpu (sys_kernel s)))
           (\<lambda>(_, a, d, c).
         let s1 = s\<lparr>sys_kernel := (sys_kernel s)\<lparr>cpu := c\<rparr>, sys_apic := a, sys_dev := d\<rparr>;
             s2 = with_console (Console_Initialize io (console_of s1)) s1
         in res_bind (PIT_Initialize io mm (mem (sys_kernel s2)) a (env_PIT_handler env) PIT_IRQLINE 0x20
                        (sys_pit s2, sys_dev s2, sys_handlers s2)) (\<lambda>(tm, d3, t3).
            res_bind (Keyboard_Initialize mm (mem (sys_kernel s2)) a (env_Keyboard_handler env) KEYBOARD_PS2_IRQLINE 0x21 (d3, t3))
              (\<lambda>(d4, t4).
            let k = Scheduler_Initialize (sys_kernel s2);
                m1 = snd (memmove (mem k) (KERNEL_AP_BOOT_START_ADDR + KERNEL_HIGHER_HALF_OFFSET) (env_StartAP env)
                       (env_EndAP env - env_StartAP env));
                s5 = s2\<lparr>sys_kernel := k\<lparr>mem := m1\<rparr>, sys_pit := tm, sys_dev := d4, sys_handlers := t4\<rparr>
            in res_bind (start_processors env (take (LocalAPIC_Num a) (LocalAPIC_InfoPtrs a)) s5) (\<lambda>s6.
                 Inr (s6\<lparr>sys_kernel := (sys_kernel s6)\<lparr>Kernel_pagedirectory := (Kernel_pagedirectory (sys_kernel s6))(0 := 0)\<rparr>\<rparr>))))))"

text \<open>
  \<open>GetToWork\<close> up to the scheduler: the message on the console (\<open>format\<close> is where its text is) and
  the timer of the processor.
\<close>

definition GetToWork :: "('d, 's) env \<Rightarrow> u32 \<Rightarrow> ('d, 's) system \<Rightarrow> ('d, 's) system result" where
  "GetToWork env format s =
     (let (id8, d1) = LocalAPIC_ID (env_mm env) (LocalAPIC_address (sys_apic s)) (sys_dev s); s1 = s\<lparr>sys_dev := d1\<rparr>
      in case Console_Print (env_io env) format (\<lambda>_. ucast id8) (console_of s1, cpu (sys_kernel s1)) of
           None \<Rightarrow> Inl Loops_Forever
         | Some (con, c) \<Rightarrow>
             (let s2 = with_console con s1; k = (sys_kernel s2)\<lparr>cpu := c\<rparr>; kt = kernel_task (state_current c)
              in res_bind (LocalAPIC_Initialize_Timer (env_mm env) (env_delay env) (env_Timer_handler env)
                             (LocalAPIC_address (sys_apic s2)) 0x30 200
                             (sys_dev s2, State_lock k, c, kp_timer (kprocs k kt), sys_handlers s2))
                   (\<lambda>(d3, l, c3, tm, tab).
                      Inr (s2\<lparr>sys_kernel := k\<lparr>State_lock := l, cpu := c3, kprocs := (kprocs k)(kt := (kprocs k kt)\<lparr>kp_timer := tm\<rparr>)\<rparr>,
                              sys_dev := d3, sys_handlers := tab\<rparr>))))"

end
