(* ===== verification/AVOS_Boot_BIOS.thy ===== *)
theory AVOS_Boot_BIOS
  imports AVOS_Clib
begin

text \<open>
  The boot loader's interface to the BIOS (\<open>bootloader/multiboot/include/bios.h\<close>) and the disk,
  system and video functions built on it (\<open>diskio.c\<close>, \<open>system.c\<close>, \<open>video.c\<close>). \<open>BIOS_Interrupt\<close>
  is assembly code that runs real-mode firmware: it is the argument \<open>bios\<close>, a function from the
  interrupt number, the registers and memory to new registers and memory.
\<close>

section \<open>Registers\<close>

record BIOS_Registers =
  eax :: u32
  ebx :: u32
  ecx :: u32
  edx :: u32
  esi :: u32
  edi :: u32
  ebp :: u32
  esp :: u32
  ds :: u16
  es :: u16
  ss :: u16
  flags16 :: u16

text \<open>The 16-bit and 8-bit members of the unions.\<close>

definition lo16 :: "u32 \<Rightarrow> u16" where "lo16 r = ucast r"
definition lo8 :: "u32 \<Rightarrow> u8" where "lo8 r = ucast r"
definition hi8 :: "u32 \<Rightarrow> u8" where "hi8 r = ucast (drop_bit 8 r)"

definition set_lo16 :: "u16 \<Rightarrow> u32 \<Rightarrow> u32" where
  "set_lo16 v r = (r AND 0xFFFF0000) OR ucast v"

definition BIOS_ClearRegistry :: BIOS_Registers where
  "BIOS_ClearRegistry = \<lparr>eax = 0, ebx = 0, ecx = 0, edx = 0, esi = 0, edi = 0, ebp = 0, esp = 0, ds = 0, es = 0, ss = 0, flags16 = 0\<rparr>"

definition carry :: "BIOS_Registers \<Rightarrow> bool" where
  "carry r \<longleftrightarrow> flags16 r AND 1 = 1"

type_synonym bios = "u32 \<Rightarrow> BIOS_Registers \<Rightarrow> memory \<Rightarrow> BIOS_Registers \<times> memory"

section \<open>Disk\<close>

definition DISKIO_MAX_SECTOR_SIZE :: u16 where "DISKIO_MAX_SECTOR_SIZE = 0x1000"
definition DISKIO_DISK_ADDRESS_PACKET_SIZE :: u8 where "DISKIO_DISK_ADDRESS_PACKET_SIZE = 0x10"
definition DISKIO_DISK_GEOMETRY_PACKET_SIZE :: u16 where "DISKIO_DISK_GEOMETRY_PACKET_SIZE = 0x1A"

record DiskIO_Geometry =
  geom_size :: u16
  geom_flags :: u16
  geom_cylinders :: u32
  geom_heads :: u32
  geom_sectors_per_track :: u32
  geom_sectors :: u64
  geom_bytes_per_sector :: u16
  geom_dpte_ptr :: u32

definition read_DiskIO_Geometry :: "memory \<Rightarrow> u32 \<Rightarrow> DiskIO_Geometry" where
  "read_DiskIO_Geometry m p =
     \<lparr>geom_size = load16 m p, geom_flags = load16 m (p + 2), geom_cylinders = load32 m (p + 4), geom_heads = load32 m (p + 8),
      geom_sectors_per_track = load32 m (p + 12), geom_sectors = load64 m (p + 16), geom_bytes_per_sector = load16 m (p + 24),
      geom_dpte_ptr = load32 m (p + 26)\<rparr>"

record DiskIO_DAP =
  dap_size :: u8
  dap_unused1 :: u8
  dap_sectors :: u8
  dap_unused2 :: u8
  dap_memory_offset :: u16
  dap_memory_segment :: u16
  dap_start_sector :: u64

definition write_DiskIO_DAP :: "DiskIO_DAP \<Rightarrow> u32 \<Rightarrow> memory \<Rightarrow> memory" where
  "write_DiskIO_DAP d p m =
     store64 (store16 (store16 (m(p := dap_size d, p + 1 := dap_unused1 d, p + 2 := dap_sectors d, p + 3 := dap_unused2 d))
       (p + 4) (dap_memory_offset d)) (p + 6) (dap_memory_segment d)) (p + 8) (dap_start_sector d)"

definition DiskIO_CheckForBIOSExtensions :: "bios \<Rightarrow> u8 \<Rightarrow> memory \<Rightarrow> bool \<times> memory" where
  "DiskIO_CheckForBIOSExtensions bios drive m =
     (let (r, m1) = bios 0x13 (BIOS_ClearRegistry\<lparr>eax := 0x4100, ebx := 0x55AA, edx := ucast drive\<rparr>) m
      in (\<not> (carry r \<or> lo16 (ebx r) \<noteq> 0xAA55 \<or> lo16 (ecx r) AND 1 = 0), m1))"

definition DiskIO_GetDiskGeometry :: "bios \<Rightarrow> u8 \<Rightarrow> u32 \<Rightarrow> memory \<Rightarrow> bool \<times> memory" where
  "DiskIO_GetDiskGeometry bios drive geometry m =
     (let (r, m1) = bios 0x13 (BIOS_ClearRegistry\<lparr>eax := 0x4800, edx := ucast drive, esi := geometry AND 0xF,
                        ds := ucast (drop_bit 4 geometry)\<rparr>) m
      in (\<not> carry r, m1))"

text \<open>
  The structures \<open>geom\<close> and \<open>dap\<close> on the stack and the static sector buffer are at addresses that
  the compiler chooses: arguments of the functions.
\<close>

record disk_frame =
  at_geom :: u32
  at_dap :: u32
  DiskIO_LowMemoryBuffer :: u32

text \<open>The copy of a sector reads the length of a sector from \<open>geom\<close> in every turn; \<open>dst\<close> moves along.\<close>

definition bytes_per_sector :: "disk_frame \<Rightarrow> memory \<Rightarrow> u16" where
  "bytes_per_sector fr m = geom_bytes_per_sector (read_DiskIO_Geometry m (at_geom fr))"

function copy_sector :: "disk_frame \<Rightarrow> nat \<Rightarrow> u32 \<Rightarrow> memory \<Rightarrow> u32 \<times> memory" where
  "copy_sector fr j dst m =
     (if j < unat (bytes_per_sector fr m) then copy_sector fr (Suc j) (dst + 1) (m(dst := m (DiskIO_LowMemoryBuffer fr + of_nat j)))
      else (dst, m))"
  by pat_completeness auto
termination
proof (relation "measure (\<lambda>(fr, j, dst, m). 65536 - j)", goal_cases)
  case (2 fr j dst m)
  then show ?case using unat_u16_lt [of "bytes_per_sector fr m"] by simp
qed simp

declare copy_sector.simps [simp del]

fun read_sectors :: "bios \<Rightarrow> disk_frame \<Rightarrow> u8 \<Rightarrow> nat \<Rightarrow> BIOS_Registers \<Rightarrow> u32 \<Rightarrow> u32 \<Rightarrow> memory \<Rightarrow> u32 \<times> memory" where
  "read_sectors bios fr drive 0 regs dst bytes_read m = (bytes_read, m)"
| "read_sectors bios fr drive (Suc n) regs dst bytes_read m =
     (let regs1 = regs\<lparr>eax := set_lo16 0x4200 (eax regs), edx := set_lo16 (ucast drive) (edx regs),
                       esi := set_lo16 (ucast (at_dap fr AND 0xF)) (esi regs), ds := ucast (drop_bit 4 (at_dap fr))\<rparr>;
          (regs2, m2) = bios 0x13 regs1 m
      in if carry regs2 then (bytes_read, m2)
         else
           (let (dst', m3) = copy_sector fr 0 dst m2; sector = at_dap fr + 8
            in read_sectors bios fr drive n regs2 dst' (bytes_read + ucast (bytes_per_sector fr m3)) (store64 m3 sector (load64 m3 sector + 1))))"

definition DiskIO_ReadFromDisk :: "bios \<Rightarrow> disk_frame \<Rightarrow> u8 \<Rightarrow> u32 \<Rightarrow> u64 \<Rightarrow> u32 \<Rightarrow> memory \<Rightarrow> u32 \<times> memory" where
  "DiskIO_ReadFromDisk bios fr drive mem_start_addr disk_start_sector num_sectors m =
     (if num_sectors = 0 then (0, m)
      else
        (let m0 = store16 m (at_geom fr) DISKIO_DISK_GEOMETRY_PACKET_SIZE;
             (ok1, m1) = DiskIO_CheckForBIOSExtensions bios drive m0
         in if \<not> ok1 then (0, m1)
            else
              (let (ok2, m2) = DiskIO_GetDiskGeometry bios drive (at_geom fr) m1
               in if \<not> ok2 then (0, m2)
                  else if geom_size (read_DiskIO_Geometry m2 (at_geom fr)) > DISKIO_MAX_SECTOR_SIZE then (0, m2)
                  else read_sectors bios fr drive (unat num_sectors) BIOS_ClearRegistry mem_start_addr 0 (write_DiskIO_DAP
                         \<lparr>dap_size = DISKIO_DISK_ADDRESS_PACKET_SIZE, dap_unused1 = 0, dap_sectors = 1, dap_unused2 = 0,
                          dap_memory_offset = ucast (DiskIO_LowMemoryBuffer fr AND 0xF),
                          dap_memory_segment = ucast (drop_bit 4 (DiskIO_LowMemoryBuffer fr)),
                          dap_start_sector = disk_start_sector\<rparr> (at_dap fr) m2))))"

section \<open>System tables\<close>

definition System_StoreAPMInfo :: "bios \<Rightarrow> u32 \<Rightarrow> memory \<Rightarrow> u32 \<times> memory" where
  "System_StoreAPMInfo bios addr m =
     (let (r1, m1) = bios 0x15 (BIOS_ClearRegistry\<lparr>eax := 0x5300\<rparr>) m
      in if carry r1 then (addr, m1)
         else if hi8 (ebx r1) \<noteq> of_char CHR ''P'' \<or> lo8 (ebx r1) \<noteq> of_char CHR ''M'' then (addr, m1)
         else
           (let (r2, m2) = bios 0x15 (r1\<lparr>eax := set_lo16 0x5304 (eax r1)\<rparr>) m1
            in if carry r2 \<or> hi8 (eax r2) \<noteq> 3 then (addr, m2)
               else
                 (let (r3, m3) = bios 0x15 (BIOS_ClearRegistry\<lparr>eax := 0x5303\<rparr>) m2
                  in if carry r3 then (addr, m3)
                     else
                       (addr + 20,
                        store16 (store16 (store16 (store16 (store16 (store16 (store32 (store16 (store16 m3
                          addr (lo16 (eax r1))) (addr + 2) (lo16 (eax r3))) (addr + 4) (ebx r3)) (addr + 8) (lo16 (ecx r3)))
                          (addr + 10) (lo16 (edx r3))) (addr + 12) (lo16 (ecx r1))) (addr + 14) (lo16 (esi r3)))
                          (addr + 16) (ucast (drop_bit 16 (esi r3 AND 0xFFFF0000)))) (addr + 18) (lo16 (edi r3))))))"

definition byte_sum :: "memory \<Rightarrow> u32 \<Rightarrow> nat \<Rightarrow> u8" where
  "byte_sum m p n = fold (\<lambda>i c. c + m (p + of_nat i)) [0..<n] 0"

definition smbios_at :: "memory \<Rightarrow> u32 \<Rightarrow> bool" where
  "smbios_at m p \<longleftrightarrow> map m [p, p + 1, p + 2, p + 3] = map of_char ''_SM_'' \<and> byte_sum m p (unat (m (p + 5))) = 0"

definition find_smbios :: "memory \<Rightarrow> u32" where
  "find_smbios m =
     (case find (smbios_at m) (map (\<lambda>k. 0xF0000 + 0x10 * of_nat k) [0..<0x1000]) of None \<Rightarrow> 0x100000 | Some p \<Rightarrow> p)"

text \<open>
  The packed structure \<open>Multiboot_SMBIOS_EntryPointTable\<close> has the version at offset 6, the length of the
  tables at offset 19 and their address at offset 21.
\<close>

definition System_StoreSMBIOSInfo :: "u32 \<Rightarrow> memory \<Rightarrow> u32 \<times> memory" where
  "System_StoreSMBIOSInfo addr m =
     (let p = find_smbios m
      in if p = 0x100000 then (addr, m)
         else
           (let m1 = fold (\<lambda>i m. m(addr + of_nat i := 0)) [2..<8] (m(addr := m (p + 6), addr + 1 := m (p + 7)));
                dst = addr + 8; m2 = snd (memmove m1 dst p (ucast (m1 (p + 5))));
                dst2 = dst + ucast (m2 (p + 5));
                m3 = snd (memmove m2 dst2 (load32 m2 (p + 21)) (ucast (load16 m2 (p + 19))));
                retval = dst2 + ucast (load16 m3 (p + 19))
            in if retval mod 8 \<noteq> 0 then (retval + (8 - retval mod 8), snd (memset m3 retval 0 (8 - retval mod 8)))
               else (retval, m3)))"

definition SIZEOF_RSDPv1 :: nat where "SIZEOF_RSDPv1 = 20"
definition SIZEOF_RSDPv2 :: nat where "SIZEOF_RSDPv2 = 36"

definition word_sum :: "memory \<Rightarrow> u32 \<Rightarrow> nat \<Rightarrow> nat \<Rightarrow> u32" where
  "word_sum m p a b = fold (\<lambda>i c. c + ucast (m (p + of_nat i))) [a..<b] 0"

definition rsdp_at :: "memory \<Rightarrow> bool \<Rightarrow> u32 \<Rightarrow> bool" where
  "rsdp_at m old p \<longleftrightarrow>
     map (\<lambda>i. m (p + of_nat i)) [0..<8] = map of_char ''RSD PTR '' \<and> word_sum m p 0 SIZEOF_RSDPv1 AND 0xFF = 0
     \<and> (old \<or> m (p + 15) = 2 \<and> word_sum m p SIZEOF_RSDPv1 (SIZEOF_RSDPv2 - SIZEOF_RSDPv1) AND 0xFF = 0)"

text \<open>The search steps from the extended BIOS data area to the BIOS area; it may not end.\<close>

partial_function (option) find_rsdp_boot :: "memory \<Rightarrow> bool \<Rightarrow> u32 \<Rightarrow> u32 \<Rightarrow> u32 option option" where
  "find_rsdp_boot m old ebda_1kb ptr =
     (if ptr < 0x100000 then
        (if rsdp_at m old ptr then Some (Some ptr)
         else find_rsdp_boot m old ebda_1kb (if ptr + 0x10 = ebda_1kb then 0xE0000 else ptr + 0x10))
      else Some None)"

definition System_StoreACPIInfo :: "u32 \<Rightarrow> bool \<Rightarrow> memory \<Rightarrow> (u32 \<times> memory) result" where
  "System_StoreACPIInfo addr old m =
     (let ptr = push_bit 4 (ucast (load16 m 0x40E))
      in case find_rsdp_boot m old (ptr + 0x400) ptr of
           None \<Rightarrow> Inl Loops_Forever
         | Some None \<Rightarrow> Inr (addr, m)
         | Some (Some p) \<Rightarrow>
             (let len = of_nat (if old then SIZEOF_RSDPv1 else SIZEOF_RSDPv2) in Inr (addr + len, snd (memmove m addr p len))))"

section \<open>Video\<close>

record VBE_Mode_Info =
  vm_attributes :: u16
  vm_window_a :: u8
  vm_window_b :: u8
  vm_granularity :: u16
  vm_window_size :: u16
  vm_segment_a :: u16
  vm_segment_b :: u16
  vm_win_func_ptr :: u32
  vm_pitch :: u16
  vm_width :: u16
  vm_height :: u16
  vm_w_char :: u8
  vm_y_char :: u8
  vm_planes :: u8
  vm_bpp :: u8
  vm_banks :: u8
  vm_memory_model :: u8
  vm_bank_size :: u8
  vm_image_pages :: u8
  vm_reserved0 :: u8
  vm_red_mask :: u8
  vm_red_position :: u8
  vm_green_mask :: u8
  vm_green_position :: u8
  vm_blue_mask :: u8
  vm_blue_position :: u8
  vm_reserved_mask :: u8
  vm_reserved_position :: u8
  vm_direct_color_attributes :: u8
  vm_framebuffer :: u32
  vm_off_screen_mem_off :: u32
  vm_off_screen_mem_size :: u16

text \<open>The reserved bytes at the end of the structure are not read.\<close>

definition read_VBE_Mode_Info :: "memory \<Rightarrow> u32 \<Rightarrow> VBE_Mode_Info" where
  "read_VBE_Mode_Info m p =
     \<lparr>vm_attributes = load16 m p, vm_window_a = m (p + 2), vm_window_b = m (p + 3),
      vm_granularity = load16 m (p + 4), vm_window_size = load16 m (p + 6), vm_segment_a = load16 m (p + 8),
      vm_segment_b = load16 m (p + 10), vm_win_func_ptr = load32 m (p + 12), vm_pitch = load16 m (p + 16),
      vm_width = load16 m (p + 18), vm_height = load16 m (p + 20), vm_w_char = m (p + 22),
      vm_y_char = m (p + 23), vm_planes = m (p + 24), vm_bpp = m (p + 25),
      vm_banks = m (p + 26), vm_memory_model = m (p + 27), vm_bank_size = m (p + 28),
      vm_image_pages = m (p + 29), vm_reserved0 = m (p + 30), vm_red_mask = m (p + 31),
      vm_red_position = m (p + 32), vm_green_mask = m (p + 33), vm_green_position = m (p + 34),
      vm_blue_mask = m (p + 35), vm_blue_position = m (p + 36), vm_reserved_mask = m (p + 37),
      vm_reserved_position = m (p + 38), vm_direct_color_attributes = m (p + 39), vm_framebuffer = load32 m (p + 40),
      vm_off_screen_mem_off = load32 m (p + 44), vm_off_screen_mem_size = load16 m (p + 48)\<rparr>"

definition SIZEOF_VBE_INFO :: u32 where "SIZEOF_VBE_INFO = 512"

definition VBE_StoreInfo :: "bios \<Rightarrow> u32 \<Rightarrow> memory \<Rightarrow> u32 \<times> memory" where
  "VBE_StoreInfo bios addr m =
     (let m0 = m(addr := of_char CHR ''V'', addr + 1 := of_char CHR ''B'', addr + 2 := of_char CHR ''E'', addr + 3 := of_char CHR ''2'');
          (r, m1) = bios 0x10 (BIOS_ClearRegistry\<lparr>eax := 0x4F00, edi := addr AND 0xF, es := ucast (drop_bit 4 addr)\<rparr>) m0
      in if lo16 (eax r) \<noteq> 0x4F then (addr, m1)
         else if map m1 [addr, addr + 1, addr + 2, addr + 3] \<noteq> map of_char ''VESA'' then (addr, m1)
         else (addr + SIZEOF_VBE_INFO, m1))"

definition VBE_GetModeInfo :: "bios \<Rightarrow> u16 \<Rightarrow> u32 \<Rightarrow> memory \<Rightarrow> bool \<times> memory" where
  "VBE_GetModeInfo bios mode addr m =
     (if mode = 0xFFFF then (False, m)
      else (let (r, m1) = bios 0x10 (BIOS_ClearRegistry\<lparr>eax := 0x4F01, ecx := ucast mode, edi := addr AND 0xF,
                            es := ucast (drop_bit 4 addr)\<rparr>) m
            in (lo16 (eax r) = 0x4F, m1)))"

definition VBE_SetMode :: "bios \<Rightarrow> u16 \<Rightarrow> memory \<Rightarrow> bool \<times> memory" where
  "VBE_SetMode bios mode m =
     (if mode = 0xFFFF then (False, m)
      else (let (r, m1) = bios 0x10 (BIOS_ClearRegistry\<lparr>eax := 0x4F02, ebx := ucast mode\<rparr>) m in (lo16 (eax r) = 0x4F, m1)))"

definition VBE_GetCurrentMode :: "bios \<Rightarrow> memory \<Rightarrow> u16 \<times> memory" where
  "VBE_GetCurrentMode bios m =
     (let (r, m1) = bios 0x10 (BIOS_ClearRegistry\<lparr>eax := 0x4F03\<rparr>) m
      in (if lo16 (eax r) \<noteq> 0x4F then 0xFFFF else lo16 (ebx r), m1))"

definition VBE_StorePModeInfo :: "bios \<Rightarrow> u32 \<Rightarrow> memory \<Rightarrow> u32 \<times> memory" where
  "VBE_StorePModeInfo bios addr m =
     (let (r, m1) = bios 0x10 (BIOS_ClearRegistry\<lparr>eax := 0x4F0A\<rparr>) m
      in if lo16 (eax r) \<noteq> 0x4F \<or> carry r then (addr, m1)
         else (addr + SIZEOF_VBE_INFO,
               store16 (store16 (store16 m1 addr (es r)) (addr + 2) (lo16 (edi r))) (addr + 4) (lo16 (ecx r))))"

text \<open>
  One of the loops over the list of modes: the first mode that passes \<open>pre\<close>, can be queried and whose
  description passes \<open>fits\<close>. The list ends with \<open>0xFFFF\<close>; without an end the loop does not end.
\<close>

partial_function (option) scan_modes ::
  "bios \<Rightarrow> u32 \<Rightarrow> (u16 \<Rightarrow> bool) \<Rightarrow> (VBE_Mode_Info \<Rightarrow> bool) \<Rightarrow> u32 \<Rightarrow> memory \<Rightarrow> (u16 \<times> memory) option" where
  "scan_modes bios buffer pre fits p m =
     (let mode = load16 m p
      in if mode = 0xFFFF then Some (0xFFFF, m)
         else if \<not> pre mode then scan_modes bios buffer pre fits (p + 2) m
         else
           (let (ok, m1) = VBE_GetModeInfo bios mode buffer m
            in if ok \<and> fits (read_VBE_Mode_Info m1 buffer) then Some (mode, m1)
               else scan_modes bios buffer pre fits (p + 2) m1))"

definition is_text :: "VBE_Mode_Info \<Rightarrow> bool" where
  "is_text v \<longleftrightarrow> vm_attributes v AND 0x10 = 0"

definition has_size :: "u32 \<Rightarrow> u32 \<Rightarrow> VBE_Mode_Info \<Rightarrow> bool" where
  "has_size w h v \<longleftrightarrow> (w = 0 \<or> ucast (vm_width v) = w) \<and> (h = 0 \<or> ucast (vm_height v) = h)"

text \<open>Loops one after the other: the next one runs when the one before found nothing.\<close>

definition or_else :: "(u16 \<times> memory) option \<Rightarrow> (memory \<Rightarrow> (u16 \<times> memory) option) \<Rightarrow> (u16 \<times> memory) option" where
  "or_else r f = Option.bind r (\<lambda>(mode, m). if mode = 0xFFFF then f m else Some (mode, m))"

definition scan_text :: "bios \<Rightarrow> u32 \<Rightarrow> u32 \<Rightarrow> memory \<Rightarrow> (u16 \<times> memory) option" where
  "scan_text bios buffer video_modes m =
     or_else (scan_modes bios buffer (\<lambda>mode. mode = 3) (\<lambda>v. is_text v \<and> vm_width v = 80 \<and> vm_height v = 25) video_modes m) (\<lambda>m1.
     or_else (scan_modes bios buffer (\<lambda>_. True) (\<lambda>v. is_text v \<and> vm_width v = 80 \<and> vm_height v = 25) video_modes m1) (\<lambda>m2.
     scan_modes bios buffer (\<lambda>_. True) is_text video_modes m2))"

definition VBE_GetTextMode :: "bios \<Rightarrow> u32 \<Rightarrow> u32 \<Rightarrow> u32 \<Rightarrow> u32 \<Rightarrow> memory \<Rightarrow> (u16 \<times> memory) option" where
  "VBE_GetTextMode bios buffer video_modes width height m =
     (if width = 0 \<and> height = 0 then scan_text bios buffer video_modes m
      else scan_modes bios buffer (\<lambda>_. True) (\<lambda>v. is_text v \<and> has_size width height v) video_modes m)"

definition linear_mode :: "(u16 \<times> memory) option \<Rightarrow> (u16 \<times> memory) option" where
  "linear_mode r = map_option (\<lambda>(mode, m). (if mode = 0xFFFF then mode else mode OR 0x4000, m)) r"

definition VBE_GetMode :: "bios \<Rightarrow> u32 \<Rightarrow> u32 \<Rightarrow> u32 \<Rightarrow> u32 \<Rightarrow> u32 \<Rightarrow> memory \<Rightarrow> (u16 \<times> memory) option" where
  "VBE_GetMode bios buffer video_modes width height depth m =
     (if width = 0 \<and> height = 0 \<and> depth = 0 then
        or_else (scan_text bios buffer video_modes m) (\<lambda>m1.
          linear_mode (scan_modes bios buffer (\<lambda>_. True) (\<lambda>_. True) video_modes m1))
      else if (width \<noteq> 0 \<or> height \<noteq> 0) \<and> depth = 0 then
        or_else (VBE_GetTextMode bios buffer video_modes width height m) (\<lambda>m1.
          linear_mode (scan_modes bios buffer (\<lambda>_. True) (has_size width height) video_modes m1))
      else linear_mode (scan_modes bios buffer (\<lambda>_. True) (\<lambda>v. has_size width height v \<and> ucast (vm_bpp v) = depth) video_modes m))"

end
