(* ===== verification/AVOS_Boot_Console.thy ===== *)
theory AVOS_Boot_Console
  imports AVOS_Boot_BIOS "HOL-Library.Monad_Syntax"
begin

text \<open>
  The boot loader's console, \<open>bootloader/multiboot/src/console.c\<close>. The screen is the text buffer in
  memory; the cursor is behind the ports and the keyboard behind the BIOS, both arguments of the
  functions. Names carry the prefix \<open>Boot_\<close> where the kernel's console has a function of the same name.
  Strings are the values of the literals the loader passes, and an answer of \<open>None\<close> is a loop that never ends.
\<close>

section \<open>Screen\<close>

definition Boot_CONSOLE_VGA_TEXT_BUFFER :: u32 where "Boot_CONSOLE_VGA_TEXT_BUFFER = 0xB8000"
definition Boot_CONSOLE_VGA_NUM_LINES :: u32 where "Boot_CONSOLE_VGA_NUM_LINES = 25"
definition Boot_CONSOLE_VGA_NUM_COLUMNS :: u32 where "Boot_CONSOLE_VGA_NUM_COLUMNS = 80"
definition Boot_CONSOLE_KEY_ENTER :: u8 where "Boot_CONSOLE_KEY_ENTER = 0x0D"
definition Boot_CONSOLE_KEY_SPACE :: int where "Boot_CONSOLE_KEY_SPACE = 0x20"
definition Boot_CONSOLE_COLOR_BLACK :: u8 where "Boot_CONSOLE_COLOR_BLACK = 0"
definition Boot_CONSOLE_COLOR_RED :: u8 where "Boot_CONSOLE_COLOR_RED = 4"
definition Boot_CONSOLE_COLOR_LIGHT_BLUE :: u8 where "Boot_CONSOLE_COLOR_LIGHT_BLUE = 9"
definition Boot_CONSOLE_COLOR_WHITE :: u8 where "Boot_CONSOLE_COLOR_WHITE = 0xF"

definition Boot_Console_Screen :: u32 where
  "Boot_Console_Screen = Boot_CONSOLE_VGA_TEXT_BUFFER"

definition Boot_Console_Attribute :: "u8 \<Rightarrow> u8 \<Rightarrow> u16" where
  "Boot_Console_Attribute fore back = push_bit 8 (ucast (fore AND 0x0F) + push_bit 4 (ucast (back AND 0x0F)))"

definition put_cell :: "u32 \<Rightarrow> u16 \<Rightarrow> memory \<Rightarrow> memory" where
  "put_cell pos v m = store16 m (Boot_Console_Screen + 2 * pos) v"

definition cell_at :: "u8 \<Rightarrow> u8 \<Rightarrow> u32" where
  "cell_at line column = ucast line * Boot_CONSOLE_VGA_NUM_COLUMNS + ucast column"

definition Boot_Console_ClearScreen :: "memory \<Rightarrow> memory" where
  "Boot_Console_ClearScreen m =
     fold (\<lambda>i. put_cell (of_nat i) (Boot_Console_Attribute Boot_CONSOLE_COLOR_WHITE Boot_CONSOLE_COLOR_BLACK))
       [0..<unat (Boot_CONSOLE_VGA_NUM_COLUMNS * Boot_CONSOLE_VGA_NUM_LINES)] m"

text \<open>\<open>char\<close> is signed: the character is sign-extended before it is combined with the attribute.\<close>

definition Boot_Console_PrintChar :: "u8 \<Rightarrow> u8 \<Rightarrow> u8 \<Rightarrow> u8 \<Rightarrow> u8 \<Rightarrow> memory \<Rightarrow> memory" where
  "Boot_Console_PrintChar c line column fore_color back_color m =
     put_cell (cell_at line column) (Boot_Console_Attribute fore_color back_color OR scast c) m"

definition Boot_Console_PrintChars :: "u8 list \<Rightarrow> u8 \<Rightarrow> u8 \<Rightarrow> u8 \<Rightarrow> u8 \<Rightarrow> memory \<Rightarrow> memory" where
  "Boot_Console_PrintChars string line column fore_color back_color m =
     fold (\<lambda>i. put_cell (cell_at line column + of_nat i) (Boot_Console_Attribute fore_color back_color OR scast (string ! i)))
       [0..<length string] m"

definition Boot_Console_PrintString :: "string \<Rightarrow> u8 \<Rightarrow> u8 \<Rightarrow> u8 \<Rightarrow> u8 \<Rightarrow> memory \<Rightarrow> memory" where
  "Boot_Console_PrintString str line column fore_color back_color m =
     Boot_Console_PrintChars (map of_char str) line column fore_color back_color m"

definition boot_digits :: "u8 list" where
  "boot_digits = map of_char ''0123456789ABCDEF''"

function boot_print_digits :: "bool \<Rightarrow> u16 \<Rightarrow> u32 \<Rightarrow> bool \<Rightarrow> u32 \<Rightarrow> u32 \<Rightarrow> memory \<Rightarrow> memory" where
  "boot_print_digits hex color divisor started num pos m =
     (if divisor > 0 then
        (let s = (started \<or> num div divisor > 0); d = divisor div (if hex then 0x10 else 10)
         in if s then boot_print_digits hex color d s (num mod divisor) (pos + 1)
                        (put_cell pos (color OR scast (boot_digits ! unat (num div divisor))) m)
            else boot_print_digits hex color d s (num mod divisor) pos m)
      else m)"
  by pat_completeness auto
termination
proof (relation "measure (\<lambda>(hex, color, divisor, s, num, pos, m). unat divisor)", goal_cases)
  case (2 hex color divisor s num pos m)
  then show ?case by (cases hex) (simp_all add: unat_div word_less_nat_alt)
next
  case (3 hex color divisor s num pos m)
  then show ?case by (cases hex) (simp_all add: unat_div word_less_nat_alt)
qed simp

declare boot_print_digits.simps [simp del]

definition Boot_Console_PrintNum :: "u32 \<Rightarrow> bool \<Rightarrow> u8 \<Rightarrow> u8 \<Rightarrow> u8 \<Rightarrow> u8 \<Rightarrow> memory \<Rightarrow> memory" where
  "Boot_Console_PrintNum num hex line column fore_color back_color m =
     (let pos = cell_at line column; color = Boot_Console_Attribute fore_color back_color;
          (pos, m) = (if hex then (pos + 2, put_cell (pos + 1) (color OR of_char CHR ''x'') (put_cell pos (color OR of_char CHR ''0'') m))
                      else (pos, m));
          (pos, m) = (if num = 0 then (pos + 1, put_cell pos (color OR of_char CHR ''0'') m) else (pos, m))
      in boot_print_digits hex color (if hex then 0x10000000 else 1000000000) False num pos m)"

section \<open>Cursor\<close>

definition Boot_Console_MakeCursorInvisible :: "'d ports \<Rightarrow> 'd \<Rightarrow> 'd" where
  "Boot_Console_MakeCursorInvisible p d = Outb p 0x3D5 0x20 (Outb p 0x3D4 0x0A d)"

definition Boot_Console_MakeCursorVisible :: "'d ports \<Rightarrow> 'd \<Rightarrow> 'd" where
  "Boot_Console_MakeCursorVisible p d =
     (let (v1, d1) = Inb p 0x3D5 (Outb p 0x3D4 0x0A d);
          (v2, d2) = Inb p 0x3D5 (Outb p 0x3D4 0x0B (Outb p 0x3D5 ((v1 AND 0xC0) OR 0xE) d1))
      in Outb p 0x3D5 ((v2 AND 0xE0) OR 0xF) d2)"

definition Boot_Console_SetCursorPosition :: "'d ports \<Rightarrow> u8 \<Rightarrow> u8 \<Rightarrow> 'd \<Rightarrow> 'd" where
  "Boot_Console_SetCursorPosition p line column d =
     (let pos = ucast (cell_at line column) :: u16
      in Outb p 0x3D5 (ucast (drop_bit 8 pos AND 0xFF)) (Outb p 0x3D4 0x0E (Outb p 0x3D5 (ucast (pos AND 0xFF)) (Outb p 0x3D4 0x0F d))))"

section \<open>Banner and input\<close>

definition Boot_Console_ReadChar :: "bios \<Rightarrow> memory \<Rightarrow> u8 \<times> memory" where
  "Boot_Console_ReadChar bios m =
     (let (r, m1) = bios 0x16 BIOS_ClearRegistry m in (if flags16 r AND 1 \<noteq> 0 then 0 else lo8 (eax r), m1))"

definition Boot_Console_PrintBanner :: "'d ports \<Rightarrow> memory \<Rightarrow> 'd \<Rightarrow> memory \<times> 'd" where
  "Boot_Console_PrintBanner p m d =
     (let color = Boot_Console_Attribute Boot_CONSOLE_COLOR_WHITE Boot_CONSOLE_COLOR_LIGHT_BLUE;
          str = map of_char ''AVOS Boot loader'' :: u8 list;
          m1 = fold (\<lambda>i. put_cell (of_nat i) color) [0..<unat Boot_CONSOLE_VGA_NUM_COLUMNS] (Boot_Console_ClearScreen m);
          m2 = fold (\<lambda>i. put_cell (32 + of_nat i) (color + scast (str ! i))) [0..<length str] m1
      in (m2, Boot_Console_MakeCursorInvisible p d))"

definition Boot_Console_PrintAndReturn :: "string \<Rightarrow> bool \<Rightarrow> memory \<Rightarrow> bool \<times> memory" where
  "Boot_Console_PrintAndReturn str retval m =
     (retval, Boot_Console_PrintString str 23 0 Boot_CONSOLE_COLOR_RED Boot_CONSOLE_COLOR_BLACK m)"

partial_function (option) wait_for_enter :: "bios \<Rightarrow> memory \<Rightarrow> memory option" where
  "wait_for_enter bios m =
     (let (c, m1) = Boot_Console_ReadChar bios m in if c \<noteq> Boot_CONSOLE_KEY_ENTER then wait_for_enter bios m1 else Some m1)"

text \<open>
  The loop of \<open>Console_ReadCommand\<close>: \<open>line\<close> and \<open>column\<close> are the place of the next character on
  the screen and \<open>pos\<close> its place in the buffer. The place after a character, and the place after a backspace.
\<close>

definition step_right :: "u8 \<Rightarrow> u8 \<Rightarrow> u8 \<times> u8" where
  "step_right line column =
     (if ucast column = Boot_CONSOLE_VGA_NUM_COLUMNS - 1 then (line + 1, 0) else (line, column + 1))"

definition step_left :: "u8 \<Rightarrow> u8 \<Rightarrow> u8 \<times> u8" where
  "step_left line column =
     (if column = 0 then (line - 1, ucast (Boot_CONSOLE_VGA_NUM_COLUMNS - 1)) else (line, column - 1))"

definition command_char :: "u32 \<Rightarrow> u8 \<Rightarrow> u8 \<times> u8 \<times> u32 \<times> memory \<Rightarrow> u8 \<times> u8 \<times> u32 \<times> memory" where
  "command_char buffer c = (\<lambda>(line, column, pos, m).
     (if sint c \<ge> Boot_CONSOLE_KEY_SPACE \<and> sint c < 0x7F then
        (let m1 = Boot_Console_PrintChar c line column Boot_CONSOLE_COLOR_WHITE Boot_CONSOLE_COLOR_BLACK m;
             (line', column') = step_right line column
         in (line', column', pos + 1, m1(buffer + pos := c)))
      else (line, column, pos, m)))"

definition command_back :: "u8 \<times> u8 \<times> u32 \<times> memory \<Rightarrow> u8 \<times> u8 \<times> u32 \<times> memory" where
  "command_back = (\<lambda>(line, column, pos, m).
     let (line', column') = step_left line column
     in (line', column', pos - 1, Boot_Console_PrintChar (of_char CHR '' '') line' column' Boot_CONSOLE_COLOR_WHITE Boot_CONSOLE_COLOR_BLACK m))"

partial_function (option) command_loop ::
  "bios \<Rightarrow> 'd ports \<Rightarrow> u32 \<Rightarrow> u8 \<times> u8 \<Rightarrow> u8 \<times> u8 \<Rightarrow> u8 \<times> u8 \<times> u32 \<times> memory \<Rightarrow> 'd \<Rightarrow> (memory \<times> 'd) option" where
  "command_loop bios p buffer start stop s d =
     (let d1 = Boot_Console_SetCursorPosition p (fst s) (fst (snd s)) d;
          (c, m1) = Boot_Console_ReadChar bios (snd (snd (snd s)));
          s1 = command_char buffer c (fst s, fst (snd s), fst (snd (snd s)), m1)
      in if c = 8 \<and> fst s1 = fst start \<and> fst (snd s1) = snd start then command_loop bios p buffer start stop s1 d1
         else
           (let (line, column, pos, m2) = (if c = 8 then command_back s1 else s1)
            in if c = Boot_CONSOLE_KEY_ENTER then Some (m2(buffer + pos := 0), d1)
               else if line = fst stop \<and> column = snd stop
               then map_option (\<lambda>m3. (m3(buffer + pos := 0), d1))
                 (wait_for_enter bios (Boot_Console_PrintString ''Command line buffer full. Press enter to continue'' 23 0
                    Boot_CONSOLE_COLOR_WHITE Boot_CONSOLE_COLOR_BLACK m2))
               else command_loop bios p buffer start stop (line, column, pos, m2) d1))"

definition Boot_Console_ReadCommand :: "bios \<Rightarrow> 'd ports \<Rightarrow> u32 \<Rightarrow> memory \<Rightarrow> 'd \<Rightarrow> (memory \<times> 'd) option" where
  "Boot_Console_ReadCommand bios p buffer m d =
     (let line = 2; d1 = Boot_Console_MakeCursorVisible p d;
          m1 = Boot_Console_PrintString ''[BOOT:]'' line 0 Boot_CONSOLE_COLOR_WHITE Boot_CONSOLE_COLOR_BLACK m;
          column = 7; pos = cell_at line column + 0x3FF;
          stop = (ucast (pos div Boot_CONSOLE_VGA_NUM_COLUMNS), ucast (pos mod Boot_CONSOLE_VGA_NUM_COLUMNS))
      in command_loop bios p buffer (line, column) stop (line, column, 0, m1) d1)"

end
