(* ===== verification/AVOS_Boot_Memory.thy ===== *)
theory AVOS_Boot_Memory
  imports AVOS_Boot_BIOS
begin

text \<open>
  The boot loader's memory map, \<open>bootloader/multiboot/src/memory.c\<close>: asking the BIOS for the map,
  the table of available blocks made from it, and the search for a block in that table.
\<close>

section \<open>Asking the BIOS\<close>

definition MEMORY_NULL_PTR :: u32 where "MEMORY_NULL_PTR = 0xFFFFFFFF"
definition MEMORY_32BIT_LIMIT :: u32 where "MEMORY_32BIT_LIMIT = 0xFFFFFFFF"
definition MEMORY_HIGH_START :: u32 where "MEMORY_HIGH_START = 0x100000"
definition MEMORY_E820_ACPI3_FLAG :: u32 where "MEMORY_E820_ACPI3_FLAG = 1"
definition MEMORY_E820_AVAILABLE :: u32 where "MEMORY_E820_AVAILABLE = 1"

definition Memory_StoreBasicInfo :: "bios \<Rightarrow> u32 \<Rightarrow> memory \<Rightarrow> u32 \<times> memory" where
  "Memory_StoreBasicInfo bios addr m =
     (let (r1, m1) = bios 0x12 BIOS_ClearRegistry m
      in if carry r1 then (addr, m1)
         else
           (let m2 = store32 m1 addr (ucast (lo16 (eax r1)))
            in if load32 m2 addr = 0 then (addr, m2)
               else
                 (let m3 = store32 m2 (addr + 4) 0;
                      (r2, m4) = bios 0x15 (BIOS_ClearRegistry\<lparr>eax := 0xE801\<rparr>) m3;
                      e801 = (\<not> carry r2 \<and> hi8 (eax r2) \<noteq> 0x86 \<and> hi8 (eax r2) \<noteq> 0x80)
                  in if e801 \<and> lo16 (ecx r2) \<noteq> 0 then
                       (addr + 8, store32 m4 (addr + 4) (load32 m4 (addr + 4) + (ucast (lo16 (ecx r2)) + ucast (lo16 (edx r2)) * 0x40)))
                     else if e801 \<and> lo16 (eax r2) \<noteq> 0 then
                       (addr + 8, store32 m4 (addr + 4) (load32 m4 (addr + 4) + (ucast (lo16 (eax r2)) + ucast (lo16 (ebx r2)) * 0x40)))
                     else
                       (let (r3, m5) = bios 0x15 (BIOS_ClearRegistry\<lparr>eax := 0x88\<rparr>) m4
                        in if carry r3 then (addr, m5) else (addr + 8, store32 m5 (addr + 4) (ucast (lo16 (eax r3))))))))"

record Multiboot_E820_Entry =
  e_base :: u64
  e_size :: u64
  e_type :: u32
  e_acpi3 :: u32

definition read_E820 :: "memory \<Rightarrow> u32 \<Rightarrow> Multiboot_E820_Entry" where
  "read_E820 m p = \<lparr>e_base = load64 m p, e_size = load64 m (p + 8), e_type = load32 m (p + 16), e_acpi3 = load32 m (p + 20)\<rparr>"

text \<open>The loop ends when the BIOS says so; \<open>entry\<close> is the next free entry.\<close>

partial_function (option) store_e820 :: "bios \<Rightarrow> BIOS_Registers \<Rightarrow> u32 \<Rightarrow> memory \<Rightarrow> (BIOS_Registers \<times> memory) option" where
  "store_e820 bios regs entry m =
     (let (r, m1) = bios 0x15 (regs\<lparr>eax := 0xE820, ecx := 0x18, edx := 0x534D4150\<rparr>) (store32 m (entry + 20) 1); e = read_E820 m1 entry
      in if carry r \<or> eax r \<noteq> 0x534D4150 \<or> ebx r = 0 then Some (r, m1)
         else if (ecx r \<le> 20 \<or> e_acpi3 e AND 3 = 1) \<and> e_size e > 0
         then store_e820 bios (r\<lparr>esi := esi r + 0x18, edi := edi r + 0x18\<rparr>) (entry + 24) m1
         else store_e820 bios r entry m1)"

definition Memory_StoreE820Info :: "bios \<Rightarrow> u32 \<Rightarrow> memory \<Rightarrow> (u32 \<times> memory) option" where
  "Memory_StoreE820Info bios addr m =
     map_option (\<lambda>(r, m1). (addr + esi r, m1))
       (store_e820 bios (BIOS_ClearRegistry\<lparr>edi := addr AND 0xF, es := ucast (drop_bit 4 addr)\<rparr>) addr m)"

section \<open>The table of available blocks\<close>

record BootInfo_BlockRAM =
  b_address :: u64
  b_size :: u64

definition read_block :: "memory \<Rightarrow> u32 \<Rightarrow> nat \<Rightarrow> BootInfo_BlockRAM" where
  "read_block m t i = \<lparr>b_address = load64 m (t + 16 * of_nat i), b_size = load64 m (t + 16 * of_nat i + 8)\<rparr>"

definition write_block :: "u32 \<Rightarrow> nat \<Rightarrow> u64 \<Rightarrow> u64 \<Rightarrow> memory \<Rightarrow> memory" where
  "write_block t i a s m = store64 (store64 m (t + 16 * of_nat i) a) (t + 16 * of_nat i + 8) s"

definition usable :: "Multiboot_E820_Entry \<Rightarrow> bool" where
  "usable e \<longleftrightarrow> e_acpi3 e = MEMORY_E820_ACPI3_FLAG \<and> e_type e = MEMORY_E820_AVAILABLE"

definition e820_at :: "memory \<Rightarrow> u32 \<Rightarrow> nat \<Rightarrow> Multiboot_E820_Entry" where
  "e820_at m table i = read_E820 m (table + 24 * of_nat i)"

definition closest_boundary :: "memory \<Rightarrow> u32 \<Rightarrow> nat \<Rightarrow> u64 \<Rightarrow> u64" where
  "closest_boundary m table n address =
     fold (\<lambda>i closest. let e = e820_at m table i
        in if usable e \<and> e_base e \<ge> address \<and> e_base e < closest then e_base e else closest) [0..<n] (NOT 0)"

text \<open>The extent of the current block: it is extended in memory by each usable entry that touches its end.\<close>

definition extend_block :: "u32 \<Rightarrow> u32 \<Rightarrow> nat \<Rightarrow> nat \<Rightarrow> memory \<Rightarrow> memory" where
  "extend_block table t k n m =
     fold (\<lambda>i m. let e = e820_at m table i; b = read_block m t k; e820_entry_end = e_base e + e_size e;
                    table_entry_end = b_address b + b_size b
        in if usable e \<and> e820_entry_end \<ge> table_entry_end \<and> e_base e \<le> table_entry_end
           then write_block t k (b_address b) (e820_entry_end - b_address b) m else m) [0..<n] m"

partial_function (option) build_blocks :: "u32 \<Rightarrow> nat \<Rightarrow> u32 \<Rightarrow> nat \<Rightarrow> memory \<Rightarrow> (nat \<times> memory) option" where
  "build_blocks table n t k m =
     (let c = closest_boundary m table n (b_address (read_block m t k))
      in if c = NOT 0 then Some (k, m)
         else
           (let m1 = extend_block table t k n (write_block t k c 0 m); b = read_block m1 t k
            in build_blocks table n t (Suc k) (store64 m1 (t + 16 * of_nat (Suc k)) (b_address b + b_size b))))"

definition align_block :: "u32 \<Rightarrow> nat \<Rightarrow> memory \<Rightarrow> memory" where
  "align_block t i m =
     (let b = read_block m t i; mask = NOT 0xFFF; lo = b_address b AND mask; max_addr = (b_address b + b_size b) AND mask;
          min_addr = (if lo < b_address b then lo + 0x1000 else lo)
      in write_block t i (if max_addr > min_addr then min_addr else 0) (if max_addr > min_addr then max_addr - min_addr else 0) m)"

function remove_empty :: "u32 \<Rightarrow> nat \<Rightarrow> nat \<Rightarrow> memory \<Rightarrow> nat \<times> memory" where
  "remove_empty t i table_size m =
     (if i < table_size then
        (if b_size (read_block m t i) = 0
         then remove_empty t (Suc i) (table_size - 1)
                (snd (memmove m (t + 16 * of_nat i) (t + 16 * of_nat (Suc i)) (of_nat ((table_size - i - 1) * 16))))
         else remove_empty t (Suc i) table_size m)
      else (table_size, m))"
  by pat_completeness auto
termination
  by (relation "measure (\<lambda>(t, i, n, m). n - i)") auto

definition Memory_StoreInfo :: "u32 \<Rightarrow> bool \<Rightarrow> u32 \<Rightarrow> u32 \<Rightarrow> memory \<Rightarrow> (u32 \<times> memory) option" where
  "Memory_StoreInfo addr page_align E820_Table E820_Table_size m =
     map_option (\<lambda>(n, m1).
       let m2 = (if page_align then fold (align_block addr) [0..<n] m1 else m1);
           (n', m3) = remove_empty addr 0 n m2
       in (addr + of_nat n' * 16, m3))
     (build_blocks E820_Table (unat E820_Table_size) addr 0 (write_block addr 0 0 0 m))"

section \<open>Finding a block\<close>

definition Memory_AlignAddress :: "u32 \<Rightarrow> u32 \<Rightarrow> bool \<Rightarrow> u32" where
  "Memory_AlignAddress addr align up =
     (if align \<le> 1 \<or> addr mod align = 0 then addr else align * ((if up then 1 else 0) + addr div align))"

text \<open>The arguments \<open>above\<close> and \<open>size\<close> of the source are \<open>up\<close> and \<open>sz\<close> here. One turn of the loop: \<open>Inl\<close> is an early return, \<open>Inr\<close> the new value of \<open>mem\<close>.\<close>

definition try_block :: "u32 \<Rightarrow> bool \<Rightarrow> u32 \<Rightarrow> u32 \<Rightarrow> u32 \<Rightarrow> BootInfo_BlockRAM \<Rightarrow> u32 \<Rightarrow> u32 + u32" where
  "try_block addr up sz align aligned_addr b mem =
     (if b_address b \<ge> ucast MEMORY_32BIT_LIMIT then Inr mem
      else
        (let base = ucast (b_address b) :: u32;
             esize = (if b_address b + b_size b > ucast MEMORY_32BIT_LIMIT then ucast (ucast MEMORY_32BIT_LIMIT - b_address b)
                      else ucast (b_size b)) :: u32
         in if esize < sz then Inr mem
            else
              (let shifted_base = (if up then base
                                   else if base + esize - sz \<ge> aligned_addr then aligned_addr else base + esize - sz);
                   aligned_base = Memory_AlignAddress shifted_base align up
               in if aligned_base < base \<or> aligned_base \<ge> base + esize then Inr mem
                  else
                    (let aligned_size = base + esize - aligned_base
                     in if base \<le> aligned_addr \<and> base + esize > aligned_addr + sz then Inl aligned_addr
                        else if up \<and> aligned_size \<ge> sz \<and> aligned_base \<ge> addr \<and> aligned_base < mem then Inr aligned_base
                        else if \<not> up \<and> aligned_size \<ge> sz \<and> aligned_base < addr \<and> aligned_base > mem then Inr aligned_base
                        else Inr mem))))"

fun scan_blocks :: "u32 \<Rightarrow> bool \<Rightarrow> u32 \<Rightarrow> u32 \<Rightarrow> u32 \<Rightarrow> BootInfo_BlockRAM list \<Rightarrow> u32 \<Rightarrow> u32" where
  "scan_blocks addr up sz align aligned_addr [] mem = (if up \<or> mem \<noteq> 0 then mem else MEMORY_32BIT_LIMIT)"
| "scan_blocks addr up sz align aligned_addr (b # bs) mem =
     (case try_block addr up sz align aligned_addr b mem of
        Inl r \<Rightarrow> r | Inr mem' \<Rightarrow> scan_blocks addr up sz align aligned_addr bs mem')"

definition Memory_FindBlockAddress :: "memory \<Rightarrow> u32 \<Rightarrow> bool \<Rightarrow> u32 \<Rightarrow> u32 \<Rightarrow> u32 \<Rightarrow> u32 \<Rightarrow> u32" where
  "Memory_FindBlockAddress m addr up sz align mmap mmap_size =
     (if sz = 0 then MEMORY_32BIT_LIMIT
      else if up \<and> (addr = MEMORY_32BIT_LIMIT \<or> addr + sz < addr) then MEMORY_32BIT_LIMIT
      else if \<not> up \<and> (addr = 0 \<or> addr < sz) then MEMORY_32BIT_LIMIT
      else
        (let mem = (if up then MEMORY_32BIT_LIMIT else 0);
             aligned_addr = Memory_AlignAddress (if up then addr else addr - sz) align up
         in if mmap_size = 0 \<or> mmap = MEMORY_NULL_PTR then mem
            else scan_blocks addr up sz align aligned_addr (map (read_block m mmap) [0..<unat mmap_size]) mem))"

section \<open>Where a found block lies\<close>

text \<open>A block that does not run past the top of the 64-bit address space.\<close>

definition block_fits :: "BootInfo_BlockRAM \<Rightarrow> bool" where
  "block_fits b \<longleftrightarrow> unat (b_address b) + unat (b_size b) < 2 ^ 64"

definition inside :: "u32 \<Rightarrow> u32 \<Rightarrow> BootInfo_BlockRAM \<Rightarrow> bool" where
  "inside r sz b \<longleftrightarrow> unat (b_address b) \<le> unat r \<and> unat r + unat sz \<le> unat (b_address b) + unat (b_size b)"

definition aligned_to :: "u32 \<Rightarrow> u32 \<Rightarrow> bool" where
  "aligned_to align r \<longleftrightarrow> align \<le> 1 \<or> unat r mod unat align = 0"

text \<open>What holds of a result: the block asked for lies in \<open>b\<close>, aligned, on the side of \<open>addr\<close> asked for.\<close>

definition found_in :: "u32 \<Rightarrow> bool \<Rightarrow> u32 \<Rightarrow> u32 \<Rightarrow> u32 \<Rightarrow> BootInfo_BlockRAM \<Rightarrow> bool" where
  "found_in addr up sz align r b \<longleftrightarrow>
     inside r sz b \<and> aligned_to align r \<and> (if up then unat addr \<le> unat r else unat r + unat sz \<le> unat addr)"

lemma unat_u32_div: "unat (x div y) = unat x div unat y" for x y :: u32
  by (simp add: unat_div)

lemma unat_u32_mult: "unat (x * y) = unat x * unat y mod 2 ^ 32" for x y :: u32
  using unat_word_ariths(2) [of x y] by simp

lemma unat_align_next:
  fixes align addr :: u32
  assumes "1 < unat align"
  shows "unat (align * (1 + addr div align)) = unat align * (1 + unat addr div unat align) mod 2 ^ 32"
proof -
  have "unat addr div unat align \<le> unat addr div 2" using assms by (simp add: div_le_mono2)
  then have lt: "1 + unat addr div unat align < 2 ^ 32" using unat_u32_lt [of addr] by simp
  have "unat (1 + addr div align) = (1 + unat (addr div align)) mod 2 ^ 32"
    using unat_word_ariths(1) [of 1 "addr div align"] by simp
  then have "unat (1 + addr div align) = 1 + unat addr div unat align"
    using lt by (simp only: unat_u32_div mod_less)
  then show ?thesis by (simp only: unat_u32_mult)
qed

lemma AlignAddress_up:
  assumes "unat addr + unat align < 2 ^ 32"
  shows "unat addr \<le> unat (Memory_AlignAddress addr align True)"
    and "unat (Memory_AlignAddress addr align True) \<le> unat addr + unat align"
    and "aligned_to align (Memory_AlignAddress addr align True)"
proof -
  let ?a = "unat addr" and ?g = "unat align"
  show "?a \<le> unat (Memory_AlignAddress addr align True)"
    and "unat (Memory_AlignAddress addr align True) \<le> ?a + ?g"
    and "aligned_to align (Memory_AlignAddress addr align True)"
  proof (atomize(full), cases "align \<le> 1 \<or> addr mod align = 0")
    case True
    then show "?a \<le> unat (Memory_AlignAddress addr align True) \<and> unat (Memory_AlignAddress addr align True) \<le> ?a + ?g
        \<and> aligned_to align (Memory_AlignAddress addr align True)"
      by (auto simp: Memory_AlignAddress_def aligned_to_def word_unat_eq_iff unat_mod)
  next
    case False
    then have g: "1 < ?g" by (simp add: word_le_nat_alt)
    have d: "?g * (?a div ?g) \<le> ?a" "?a < ?g * (?a div ?g) + ?g"
      using g dividend_less_times_div [of ?g ?a] by simp_all
    have t: "?g * (1 + ?a div ?g) = ?g + ?g * (?a div ?g)" by (simp only: distrib_left mult_1_right)
    have lt: "?g * (1 + ?a div ?g) < 2 ^ 32" unfolding t using assms d(1) by linarith
    then have u: "unat (align * (1 + addr div align)) = ?g * (1 + ?a div ?g)"
      by (simp only: unat_align_next [OF g] mod_less)
    show "?a \<le> unat (Memory_AlignAddress addr align True) \<and> unat (Memory_AlignAddress addr align True) \<le> ?a + ?g
        \<and> aligned_to align (Memory_AlignAddress addr align True)"
      using False u d unfolding Memory_AlignAddress_def aligned_to_def by (simp add: algebra_simps)
  qed
qed

lemma AlignAddress_down:
  "unat (Memory_AlignAddress addr align False) \<le> unat addr" (is ?le)
  "aligned_to align (Memory_AlignAddress addr align False)" (is ?al)
proof -
  have "?le \<and> ?al"
  proof (cases "align \<le> 1 \<or> addr mod align = 0")
    case True
    then show ?thesis by (auto simp: Memory_AlignAddress_def aligned_to_def word_unat_eq_iff unat_mod)
  next
    case False
    have le: "unat align * (unat addr div unat align) \<le> unat addr" by simp
    from le_less_trans [OF this] have "unat align * (unat addr div unat align) < 2 ^ 32" using unat_u32_lt [of addr] by simp
    then have "unat (align * (addr div align)) = unat align * (unat addr div unat align)"
      by (simp only: unat_u32_mult unat_u32_div mod_less)
    then show ?thesis using False le by (simp add: Memory_AlignAddress_def aligned_to_def)
  qed
  then show ?le ?al by blast+
qed

text \<open>The part of a block below 4 GB, in natural numbers.\<close>

lemma block_words:
  assumes "block_fits b" "\<not> b_address b \<ge> ucast MEMORY_32BIT_LIMIT"
  defines "base \<equiv> ucast (b_address b) :: u32"
    and "esize \<equiv> (if b_address b + b_size b > ucast MEMORY_32BIT_LIMIT then ucast (ucast MEMORY_32BIT_LIMIT - b_address b)
                   else ucast (b_size b)) :: u32"
  shows "unat base = unat (b_address b)" and "unat esize \<le> unat (b_size b)" and "unat base + unat esize < 2 ^ 32"
proof -
  let ?a = "unat (b_address b)" and ?s = "unat (b_size b)"
  have lim: "(ucast MEMORY_32BIT_LIMIT :: u64) = 0xFFFFFFFF" by (simp add: MEMORY_32BIT_LIMIT_def)
  have a: "?a < 0xFFFFFFFF" using assms(2) by (simp add: lim word_le_nat_alt)
  have sum: "unat (b_address b + b_size b) = ?a + ?s"
    using assms(1) by (simp add: block_fits_def unat_word_ariths)
  have dn: "unat (ucast x :: u32) = unat x" if "unat x < 2 ^ 32" for x :: u64
    using that by (simp add: unsigned_ucast_eq take_bit_nat_eq_self_iff)
  show base: "unat base = ?a" unfolding base_def by (rule dn) (use a in simp)
  have "unat esize = (if ?a + ?s > 0xFFFFFFFF then 0xFFFFFFFF - ?a else ?s)"
  proof (cases "?a + ?s > 0xFFFFFFFF")
    case True
    have le: "b_address b \<le> 0xFFFFFFFF" using a by (simp add: word_le_nat_alt)
    have "unat (0xFFFFFFFF - b_address b) = 0xFFFFFFFF - ?a" using le by (simp add: unat_sub)
    then show ?thesis using True dn [of "0xFFFFFFFF - b_address b"] by (simp add: esize_def lim word_less_nat_alt sum)
  next
    case False
    then show ?thesis using dn [of "b_size b"] by (simp add: esize_def lim word_less_nat_alt sum)
  qed
  then show "unat esize \<le> ?s" "unat base + unat esize < 2 ^ 32" unfolding base using a by auto
qed

text \<open>An upward alignment that does not go below its argument did not wrap around.\<close>

lemma no_wrap: "t < n + a \<Longrightarrow> a \<le> t mod n \<Longrightarrow> t < n" for t n a :: nat
  by (metis add.commute le_add_diff_inverse2 le_mod_geq linorder_not_less mod_less_eq_dividend nat_add_left_cancel_less order.strict_trans1)

lemma AlignAddress_up_no_wrap:
  assumes "addr \<le> Memory_AlignAddress addr align True"
  shows "aligned_to align (Memory_AlignAddress addr align True)"
proof (cases "align \<le> 1 \<or> addr mod align = 0")
  case True
  then show ?thesis by (auto simp: Memory_AlignAddress_def aligned_to_def word_unat_eq_iff unat_mod)
next
  case False
  let ?a = "unat addr" and ?g = "unat align" let ?t = "?g * (1 + ?a div ?g)"
  have g: "1 < ?g" using False by (simp add: word_le_nat_alt)
  have le: "?g * (?a div ?g) \<le> ?a" by simp
  have u: "unat (align * (1 + addr div align)) = ?t mod 2 ^ 32" by (rule unat_align_next [OF g])
  have ge: "?a \<le> ?t mod 2 ^ 32"
    using assms False by (simp add: Memory_AlignAddress_def word_le_nat_alt u)
  have "?t = ?g + ?g * (?a div ?g)" by (simp only: distrib_left mult_1_right)
  moreover have "?g < 2 ^ 32" using unat_u32_lt [of align] by simp
  ultimately have "?t < 2 ^ 32 + ?a" using le by linarith
  then have "?t < 2 ^ 32" using ge by (rule no_wrap)
  then show ?thesis using False u by (simp add: Memory_AlignAddress_def aligned_to_def)
qed

text \<open>The whole scan: a result other than the limit is in one of the blocks.\<close>

definition sound_ask :: "u32 \<Rightarrow> bool \<Rightarrow> u32 \<Rightarrow> u32 \<Rightarrow> u32 \<Rightarrow> bool" where
  "sound_ask addr up sz align aligned_addr \<longleftrightarrow>
     sz \<noteq> 0 \<and> aligned_to align aligned_addr \<and> unat aligned_addr + unat sz < 2 ^ 32 \<and>
     (if up then unat addr \<le> unat aligned_addr else unat aligned_addr + unat sz \<le> unat addr)"

lemma sound_ask_FindBlock:
  assumes "sz \<noteq> 0" "up \<Longrightarrow> unat addr + unat align + unat sz < 2 ^ 32" "\<not> up \<Longrightarrow> \<not> addr < sz"
  shows "sound_ask addr up sz align (Memory_AlignAddress (if up then addr else addr - sz) align up)"
proof (cases up)
  case True
  then show ?thesis
    using assms(1) assms(2) [OF True] AlignAddress_up [of addr align] by (simp add: sound_ask_def)
next
  case False
  then have le: "sz \<le> addr" using assms(3) by simp
  then have "unat (addr - sz) + unat sz = unat addr" by (simp add: unat_sub word_le_nat_alt)
  then show ?thesis
    using False assms(1) AlignAddress_down [where addr = "addr - sz" and align = align] unat_u32_lt [of addr] by (simp add: sound_ask_def)
qed

lemma unat_u32_plus: "unat x + unat y < 2 ^ 32 \<Longrightarrow> unat (x + y) = unat x + unat y" for x y :: u32
  using unat_word_ariths(1) [of x y] by simp

text \<open>One turn of the loop, with the part of the block below 4 GB already computed.\<close>

definition try_words :: "u32 \<Rightarrow> bool \<Rightarrow> u32 \<Rightarrow> u32 \<Rightarrow> u32 \<Rightarrow> u32 \<Rightarrow> u32 \<Rightarrow> u32 \<Rightarrow> u32 + u32" where
  "try_words addr up sz align aligned_addr base esize mem =
     (if esize < sz then Inr mem
      else
        (let shifted_base = (if up then base
                             else if base + esize - sz \<ge> aligned_addr then aligned_addr else base + esize - sz);
             aligned_base = Memory_AlignAddress shifted_base align up
         in if aligned_base < base \<or> aligned_base \<ge> base + esize then Inr mem
            else
              (let aligned_size = base + esize - aligned_base
               in if base \<le> aligned_addr \<and> base + esize > aligned_addr + sz then Inl aligned_addr
                  else if up \<and> aligned_size \<ge> sz \<and> aligned_base \<ge> addr \<and> aligned_base < mem then Inr aligned_base
                  else if \<not> up \<and> aligned_size \<ge> sz \<and> aligned_base < addr \<and> aligned_base > mem then Inr aligned_base
                  else Inr mem)))"

lemma try_block_words:
  assumes "\<not> b_address b \<ge> ucast MEMORY_32BIT_LIMIT"
  shows "try_block addr up sz align aligned_addr b mem =
     try_words addr up sz align aligned_addr (ucast (b_address b))
       (if b_address b + b_size b > ucast MEMORY_32BIT_LIMIT then ucast (ucast MEMORY_32BIT_LIMIT - b_address b) else ucast (b_size b)) mem"
  using assms by (simp add: try_block_def try_words_def Let_def)

text \<open>The values the turn can give, as a value of the region \<open>[base, base + esize)\<close>.\<close>

definition in_region :: "u32 \<Rightarrow> bool \<Rightarrow> u32 \<Rightarrow> u32 \<Rightarrow> u32 \<Rightarrow> u32 \<Rightarrow> u32 \<Rightarrow> bool" where
  "in_region addr up sz align base esize r \<longleftrightarrow>
     unat base \<le> unat r \<and> unat r + unat sz \<le> unat base + unat esize \<and> aligned_to align r \<and>
     (if up then unat addr \<le> unat r else unat r + unat sz \<le> unat addr)"

lemma try_words_Inl:
  assumes "sound_ask addr up sz align aligned_addr" "unat base + unat esize < 2 ^ 32"
    and "try_words addr up sz align aligned_addr base esize mem = Inl r"
  shows "in_region addr up sz align base esize r"
proof -
  have r: "r = aligned_addr" "base \<le> aligned_addr" "base + esize > aligned_addr + sz"
    using assms(3) by (auto simp: try_words_def Let_def split: if_splits)
  have u: "unat (base + esize) = unat base + unat esize" by (rule unat_u32_plus) (rule assms(2))
  have v: "unat (aligned_addr + sz) = unat aligned_addr + unat sz"
    by (rule unat_u32_plus) (use assms(1) in \<open>simp add: sound_ask_def\<close>)
  show ?thesis
    using r assms(1) u v by (auto simp: in_region_def sound_ask_def word_le_nat_alt word_less_nat_alt split: if_splits)
qed

lemma try_words_Inr:
  assumes ask: "sound_ask addr up sz align aligned_addr" and lt: "unat base + unat esize < 2 ^ 32"
    and res: "try_words addr up sz align aligned_addr base esize mem = Inr r" and new: "r \<noteq> mem"
  shows "in_region addr up sz align base esize r"
proof -
  let ?sh = "if up then base else if base + esize - sz \<ge> aligned_addr then aligned_addr else base + esize - sz"
  have r: "r = Memory_AlignAddress ?sh align up" "base \<le> r" "r < base + esize" "base + esize - r \<ge> sz" "\<not> esize < sz"
      "up \<longrightarrow> addr \<le> r"
    using res new by (auto simp: try_words_def Let_def split: if_splits)
  have u: "unat (base + esize) = unat base + unat esize" by (rule unat_u32_plus) (rule lt)
  have room: "unat r + unat sz \<le> unat base + unat esize"
    using r(3,4) by (simp add: word_le_nat_alt word_less_nat_alt unat_sub u)
  show ?thesis
  proof (cases up)
    case True
    then have "aligned_to align r" using r(1,2) AlignAddress_up_no_wrap [of base align] by simp
    then show ?thesis using True room r(2,6) by (simp add: in_region_def word_le_nat_alt)
  next
    case False
    have "?sh \<le> aligned_addr" using False by auto
    then have "unat r \<le> unat aligned_addr"
      using False r(1) AlignAddress_down(1) [of ?sh align] by (simp add: word_le_nat_alt)
    moreover have "aligned_to align r" using False r(1) AlignAddress_down(2) [where addr = ?sh and align = align] by simp
    ultimately show ?thesis using False room r(2) ask by (simp add: in_region_def sound_ask_def word_le_nat_alt)
  qed
qed

lemma in_region_found:
  assumes "block_fits b" "\<not> b_address b \<ge> ucast MEMORY_32BIT_LIMIT"
    and "in_region addr up sz align (ucast (b_address b))
       (if b_address b + b_size b > ucast MEMORY_32BIT_LIMIT then ucast (ucast MEMORY_32BIT_LIMIT - b_address b) else ucast (b_size b)) r"
  shows "found_in addr up sz align r b"
  using assms(3) block_words(1,2) [OF assms(1,2)] unfolding in_region_def found_in_def inside_def by auto

lemma try_block_sound:
  assumes "sound_ask addr up sz align aligned_addr" "block_fits b"
  shows "case try_block addr up sz align aligned_addr b mem of
           Inl r \<Rightarrow> found_in addr up sz align r b | Inr r \<Rightarrow> r = mem \<or> found_in addr up sz align r b"
proof (cases "b_address b \<ge> ucast MEMORY_32BIT_LIMIT")
  case True
  then show ?thesis by (simp add: try_block_def)
next
  case False
  note w = block_words(3) [OF assms(2) False] and f = in_region_found [OF assms(2) False]
  have "found_in addr up sz align r b" if "try_block addr up sz align aligned_addr b mem = Inl r" for r
    using that unfolding try_block_words [OF False] by (rule f [OF try_words_Inl [OF assms(1) w]])
  moreover have "found_in addr up sz align r b" if "try_block addr up sz align aligned_addr b mem = Inr r" "r \<noteq> mem" for r
    using that unfolding try_block_words [OF False] by (rule f [OF try_words_Inr [OF assms(1) w]])
  ultimately show ?thesis by (auto split: sum.split)
qed

lemma scan_blocks_sound:
  assumes "sound_ask addr up sz align aligned_addr" "\<forall>b \<in> set bs. block_fits b"
    and "scan_blocks addr up sz align aligned_addr bs mem = r" "r \<noteq> MEMORY_32BIT_LIMIT"
  shows "r = mem \<and> (up \<or> mem \<noteq> 0) \<or> (\<exists>b \<in> set bs. found_in addr up sz align r b)"
  using assms(2-)
proof (induction bs arbitrary: mem)
  case Nil
  then show ?case by (auto split: if_splits)
next
  case (Cons b bs)
  show ?case using try_block_sound [OF assms(1), of b mem] Cons by (fastforce split: sum.splits)
qed

section \<open>Properties\<close>

text \<open>
  C35. What \<open>Memory_FindBlockAddress\<close> returns can be used: when the address asked for leaves room for the
  size and the alignment below 4 GB and no block of the table runs past the 64-bit address space, a result other
  than the limit is the start of a range of the size asked for that lies in one block of the table, is aligned, and
  is entirely on the side of \<open>addr\<close> asked for. (A call for a block below with an empty table is the exception
  the two hypotheses on the table exclude: the code then returns 0, which is no block.)
\<close>

theorem Memory_FindBlockAddress_sound:
  assumes "mmap_size \<noteq> 0" "mmap \<noteq> MEMORY_NULL_PTR" "up \<longrightarrow> unat addr + unat align + unat sz < 2 ^ 32"
    and "\<forall>i < unat mmap_size. block_fits (read_block m mmap i)"
    and "Memory_FindBlockAddress m addr up sz align mmap mmap_size = r" "r \<noteq> MEMORY_32BIT_LIMIT"
  shows "\<exists>i < unat mmap_size. found_in addr up sz align r (read_block m mmap i)"
proof -
  let ?al = "Memory_AlignAddress (if up then addr else addr - sz) align up"
  let ?bs = "map (read_block m mmap) [0..<unat mmap_size]" and ?mem = "if up then MEMORY_32BIT_LIMIT else 0"
  have sz: "sz \<noteq> 0" "\<not> up \<longrightarrow> \<not> addr < sz" and r: "scan_blocks addr up sz align ?al ?bs ?mem = r"
    using assms by (auto simp: Memory_FindBlockAddress_def Let_def split: if_splits)
  have "sound_ask addr up sz align ?al" by (rule sound_ask_FindBlock) (use sz assms(3) in auto)
  moreover have "\<forall>b \<in> set ?bs. block_fits b" using assms(4) by auto
  ultimately have "r = ?mem \<and> (up \<or> ?mem \<noteq> 0) \<or> (\<exists>b \<in> set ?bs. found_in addr up sz align r b)"
    by (rule scan_blocks_sound) (use r assms(6) in auto)
  then show ?thesis using assms(6) by (auto split: if_splits)
qed

text \<open>A table of one block of 1 MB at 1 MB, and a search above 0 for 64 KB on a page boundary.\<close>

definition sample_mmap :: memory where
  "sample_mmap = write_block 0x8000 0 0x100000 0x100000 (\<lambda>_. 0)"

lemma sample_block: "read_block sample_mmap 0x8000 0 = \<lparr>b_address = 0x100000, b_size = 0x100000\<rparr>"
  by code_simp

theorem Memory_FindBlockAddress_sound_witness:
  "found_in 0x500 True 0x10000 0x1000 0x100000 (read_block sample_mmap 0x8000 0)"
proof -
  have "Memory_FindBlockAddress sample_mmap 0x500 True 0x10000 0x1000 0x8000 1 = 0x100000" by code_simp
  from Memory_FindBlockAddress_sound [OF _ _ _ _ this] show ?thesis
    by (simp add: sample_block block_fits_def MEMORY_NULL_PTR_def MEMORY_32BIT_LIMIT_def)
qed

end
