(* ===== verification/AVOS_Boot_ELF.thy ===== *)
theory AVOS_Boot_ELF
  imports AVOS_Clib
begin

text \<open>
  The boot loader's ELF functions, \<open>bootloader/multiboot/src/elf.c\<close> over the structures of \<open>elf.h\<close>:
  the checks on an image in memory, the sizes they promise, and the loops that copy the segments and sections.
  Every loop reads the headers again from memory in every turn, as the code does.
\<close>

section \<open>Structures\<close>

definition ET_EXEC :: u16 where "ET_EXEC = 2"
definition EI_MAG0 :: u32 where "EI_MAG0 = 0"
definition EI_MAG1 :: u32 where "EI_MAG1 = 1"
definition EI_MAG2 :: u32 where "EI_MAG2 = 2"
definition EI_MAG3 :: u32 where "EI_MAG3 = 3"
definition EI_CLASS :: u32 where "EI_CLASS = 4"
definition EI_DATA :: u32 where "EI_DATA = 5"
definition EI_VERSION :: u32 where "EI_VERSION = 6"
definition ELFMAG0 :: u8 where "ELFMAG0 = 0x7F"
definition ELFMAG1 :: u8 where "ELFMAG1 = 0x45"
definition ELFMAG2 :: u8 where "ELFMAG2 = 0x4C"
definition ELFMAG3 :: u8 where "ELFMAG3 = 0x46"
definition ELFCLASS32 :: u8 where "ELFCLASS32 = 1"
definition ELFDATA2LSB :: u8 where "ELFDATA2LSB = 1"
definition EM_386 :: u16 where "EM_386 = 3"
definition EV_CURRENT :: u32 where "EV_CURRENT = 1"
definition PT_LOAD :: u32 where "PT_LOAD = 1"
definition PT_DYNAMIC :: u32 where "PT_DYNAMIC = 2"
definition PT_INTERP :: u32 where "PT_INTERP = 3"
definition SHT_NOBITS :: u32 where "SHT_NOBITS = 8"
definition SHF_ALLOC :: u32 where "SHF_ALLOC = 2"

record Elf32_Ehdr =
  e_ident :: "u32 \<Rightarrow> u8"
  eh_type :: u16
  e_machine :: u16
  e_version :: u32
  e_entry :: u32
  e_phoff :: u32
  e_shoff :: u32
  e_flags :: u32
  e_ehsize :: u16
  e_phentsize :: u16
  e_phnum :: u16
  e_shentsize :: u16
  e_shnum :: u16
  e_shstrndx :: u16

definition read_Ehdr :: "memory \<Rightarrow> u32 \<Rightarrow> Elf32_Ehdr" where
  "read_Ehdr m a =
     \<lparr>e_ident = (\<lambda>i. m (a + i)), eh_type = load16 m (a + 16), e_machine = load16 m (a + 18), e_version = load32 m (a + 20),
      e_entry = load32 m (a + 24), e_phoff = load32 m (a + 28), e_shoff = load32 m (a + 32), e_flags = load32 m (a + 36),
      e_ehsize = load16 m (a + 40), e_phentsize = load16 m (a + 42), e_phnum = load16 m (a + 44),
      e_shentsize = load16 m (a + 46), e_shnum = load16 m (a + 48), e_shstrndx = load16 m (a + 50)\<rparr>"

definition SIZEOF_EHDR :: u16 where "SIZEOF_EHDR = 52"

record Elf32_Phdr =
  p_type :: u32
  p_offset :: u32
  p_vaddr :: u32
  p_paddr :: u32
  p_filesz :: u32
  p_memsz :: u32
  p_flags :: u32
  p_align :: u32

definition SIZEOF_PHDR :: u16 where "SIZEOF_PHDR = 32"

text \<open>\<open>phdr[i]\<close> and \<open>shdr[i]\<close> for the tables at \<open>t\<close>.\<close>

definition read_Phdr :: "memory \<Rightarrow> u32 \<Rightarrow> nat \<Rightarrow> Elf32_Phdr" where
  "read_Phdr m t i =
     (let a = t + 32 * of_nat i
      in \<lparr>p_type = load32 m a, p_offset = load32 m (a + 4), p_vaddr = load32 m (a + 8), p_paddr = load32 m (a + 12),
          p_filesz = load32 m (a + 16), p_memsz = load32 m (a + 20), p_flags = load32 m (a + 24), p_align = load32 m (a + 28)\<rparr>)"

record Elf32_Shdr =
  sh_name :: u32
  sh_type :: u32
  sh_flags :: u32
  sh_addr :: u32
  sh_offset :: u32
  sh_size :: u32
  sh_link :: u32
  sh_info :: u32
  sh_addralign :: u32
  sh_entsize :: u32

definition read_Shdr :: "memory \<Rightarrow> u32 \<Rightarrow> nat \<Rightarrow> Elf32_Shdr" where
  "read_Shdr m t i =
     (let a = t + 40 * of_nat i
      in \<lparr>sh_name = load32 m a, sh_type = load32 m (a + 4), sh_flags = load32 m (a + 8), sh_addr = load32 m (a + 12),
          sh_offset = load32 m (a + 16), sh_size = load32 m (a + 20), sh_link = load32 m (a + 24), sh_info = load32 m (a + 28),
          sh_addralign = load32 m (a + 32), sh_entsize = load32 m (a + 36)\<rparr>)"

section \<open>Checks and sizes\<close>

definition Elf32_IsValidELF :: "memory \<Rightarrow> u32 \<Rightarrow> bool" where
  "Elf32_IsValidELF m img =
     (let hdr = read_Ehdr m img
      in if e_ident hdr EI_MAG0 \<noteq> ELFMAG0 \<or> e_ident hdr EI_MAG1 \<noteq> ELFMAG1 \<or> e_ident hdr EI_MAG2 \<noteq> ELFMAG2
            \<or> e_ident hdr EI_MAG3 \<noteq> ELFMAG3 then False
         else if e_ident hdr EI_CLASS \<noteq> ELFCLASS32 then False
         else if e_ident hdr EI_DATA \<noteq> ELFDATA2LSB then False
         else if ucast (e_ident hdr EI_VERSION) \<noteq> EV_CURRENT \<or> e_version hdr \<noteq> EV_CURRENT then False
         else if e_machine hdr \<noteq> EM_386 then False
         else if e_ehsize hdr \<noteq> SIZEOF_EHDR then False
         else True)"

definition Elf32_IsValidExecutable :: "memory \<Rightarrow> u32 \<Rightarrow> bool" where
  "Elf32_IsValidExecutable m img =
     (let hdr = read_Ehdr m img
      in if \<not> Elf32_IsValidELF m img then False
         else if eh_type hdr \<noteq> ET_EXEC then False
         else if e_phentsize hdr \<noteq> SIZEOF_PHDR then False
         else if e_phnum hdr = 0 then False
         else True)"

definition phdrs :: "memory \<Rightarrow> u32 \<Rightarrow> Elf32_Phdr list" where
  "phdrs m img = map (read_Phdr m (img + e_phoff (read_Ehdr m img))) [0..<unat (e_phnum (read_Ehdr m img))]"

definition shdrs :: "memory \<Rightarrow> u32 \<Rightarrow> Elf32_Shdr list" where
  "shdrs m img = map (read_Shdr m (img + e_shoff (read_Ehdr m img))) [0..<unat (e_shnum (read_Ehdr m img))]"

definition Elf32_IsValidiStaticExecutable :: "memory \<Rightarrow> u32 \<Rightarrow> bool" where
  "Elf32_IsValidiStaticExecutable m img =
     (if \<not> Elf32_IsValidExecutable m img then False
      else list_all (\<lambda>ph. \<not> (p_type ph = PT_DYNAMIC \<or> p_type ph = PT_INTERP)) (phdrs m img))"

definition Elf32_StaticExecutableLoadSize :: "memory \<Rightarrow> u32 \<Rightarrow> u32" where
  "Elf32_StaticExecutableLoadSize m img =
     (if \<not> Elf32_IsValidiStaticExecutable m img then 0
      else fold (\<lambda>ph load_size. if p_type ph = PT_LOAD then load_size + p_memsz ph else load_size) (phdrs m img) 0)"

definition bss_like :: "Elf32_Shdr \<Rightarrow> bool" where
  "bss_like sh \<longleftrightarrow> sh_type sh = SHT_NOBITS \<and> sh_flags sh AND SHF_ALLOC \<noteq> 0 \<and> sh_size sh > 0"

definition Elf32_SizeBSSLikeSections :: "memory \<Rightarrow> u32 \<Rightarrow> u32" where
  "Elf32_SizeBSSLikeSections m img =
     (if \<not> Elf32_IsValidELF m img then 0
      else if e_shnum (read_Ehdr m img) > 0
      then fold (\<lambda>sh bss_size. if bss_like sh then bss_size + sh_size sh else bss_size) (shdrs m img) 0
      else fold (\<lambda>ph bss_size. if p_type ph \<noteq> PT_LOAD then bss_size else if p_filesz ph \<noteq> 0 then bss_size
                              else bss_size + p_memsz ph) (phdrs m img) 0)"

section \<open>Loading\<close>

text \<open>\<open>e_phnum\<close> and \<open>e_shnum\<close> have 16 bits, so that the loops end whatever the loading does to the headers.\<close>

function load_segments :: "u32 \<Rightarrow> u32 \<Rightarrow> nat \<Rightarrow> u32 \<Rightarrow> u32 \<Rightarrow> memory \<Rightarrow> u32 \<times> memory" where
  "load_segments img phdr i p_mem_addr load_size m =
     (if i < unat (e_phnum (read_Ehdr m img)) then
        (let ph = read_Phdr m phdr i
         in if p_type ph \<noteq> PT_LOAD then load_segments img phdr (Suc i) p_mem_addr load_size m
            else
              (let p_img_addr = img + p_offset ph; p_img_size = p_filesz ph; p_pad_size = p_memsz ph - p_filesz ph;
                   m1 = snd (memmove m p_mem_addr p_img_addr p_img_size);
                   m2 = snd (memset m1 (p_mem_addr + p_img_size) 0 p_pad_size)
               in load_segments img phdr (Suc i) (p_mem_addr + p_img_size + p_pad_size) (load_size + (p_img_size + p_pad_size)) m2))
      else (load_size, m))"
  by pat_completeness auto
termination
proof (relation "measure (\<lambda>(img, phdr, i, p, s, m). 65536 - i)", goal_cases)
  case (2 img phdr i p s m ph)
  then show ?case using unat_u16_lt [of "e_phnum (read_Ehdr m img)"] by simp
next
  case (3 img phdr i p s m)
  then show ?case using unat_u16_lt [of "e_phnum (read_Ehdr m img)"] by simp
qed simp

definition Elf32_LoadStaticExecutable :: "u32 \<Rightarrow> u32 \<Rightarrow> memory \<Rightarrow> u32 \<times> memory" where
  "Elf32_LoadStaticExecutable img start_addr m =
     (if \<not> Elf32_IsValidiStaticExecutable m img then (0, m)
      else load_segments img (img + e_phoff (read_Ehdr m img)) 0 start_addr 0 m)"

definition shdr_bytes :: "memory \<Rightarrow> u32 \<Rightarrow> u32" where
  "shdr_bytes m img = ucast (e_shnum (read_Ehdr m img)) * ucast (e_shentsize (read_Ehdr m img))"

definition store_shinfo :: "u32 \<Rightarrow> u32 \<Rightarrow> memory \<Rightarrow> memory" where
  "store_shinfo img start_addr m =
     (let m1 = store16 m start_addr (e_shnum (read_Ehdr m img));
          m2 = store16 m1 (start_addr + 2) (e_shentsize (read_Ehdr m1 img));
          m3 = store16 m2 (start_addr + 4) (e_shstrndx (read_Ehdr m2 img))
      in store16 m3 (start_addr + 6) 0)"

definition Elf32_LoadSectionHeaderTable :: "u32 \<Rightarrow> u32 \<Rightarrow> bool \<Rightarrow> memory \<Rightarrow> u32 \<times> memory" where
  "Elf32_LoadSectionHeaderTable img start_addr load_extra m =
     (let shdr = img + e_shoff (read_Ehdr m img); retval = (if load_extra then 8 else 0)
      in if Elf32_IsValidELF m img then
           (let m1 = (if load_extra then store_shinfo img start_addr m else m);
                m2 = snd (memmove m1 (retval + start_addr) shdr (shdr_bytes m1 img))
            in (retval + shdr_bytes m2 img, m2))
         else (retval, m))"

function load_bss :: "u32 \<Rightarrow> u32 \<Rightarrow> nat \<Rightarrow> u32 \<Rightarrow> u32 \<Rightarrow> memory \<Rightarrow> u32 \<times> memory" where
  "load_bss img shdr i mem bss_size m =
     (if i < unat (e_shnum (read_Ehdr m img)) then
        (if bss_like (read_Shdr m shdr i) then
           (let m1 = snd (memset m mem 0 (sh_size (read_Shdr m shdr i)));
                n = sh_size (read_Shdr m1 shdr i)
            in load_bss img shdr (Suc i) (mem + n) (bss_size + n) m1)
         else load_bss img shdr (Suc i) mem bss_size m)
      else (bss_size, m))"
  by pat_completeness auto
termination
proof (relation "measure (\<lambda>(img, shdr, i, p, s, m). 65536 - i)", goal_cases)
  case (2 img shdr i p s m)
  then show ?case using unat_u16_lt [of "e_shnum (read_Ehdr m img)"] by simp
next
  case (3 img shdr i p s m)
  then show ?case using unat_u16_lt [of "e_shnum (read_Ehdr m img)"] by simp
qed simp

definition Elf32_LoadBSSLikeSections :: "u32 \<Rightarrow> u32 \<Rightarrow> memory \<Rightarrow> u32 \<times> memory" where
  "Elf32_LoadBSSLikeSections img start_addr m =
     (if \<not> Elf32_IsValidELF m img then (0, m)
      else load_bss img (img + e_shoff (read_Ehdr m img)) 0 start_addr 0 m)"

declare load_segments.simps [simp del] load_bss.simps [simp del]

section \<open>What loading writes\<close>

text \<open>Memory with the bytes \<open>bs\<close> written from address \<open>s\<close> on.\<close>

definition overlay :: "u32 \<Rightarrow> u8 list \<Rightarrow> memory \<Rightarrow> memory" where
  "overlay s bs m = (\<lambda>a. if unat (a - s) < length bs then bs ! unat (a - s) else m a)"

text \<open>A segment in memory: the bytes of the file, then zeros up to the size in memory.\<close>

definition segment_bytes :: "memory \<Rightarrow> u32 \<Rightarrow> Elf32_Phdr \<Rightarrow> u8 list" where
  "segment_bytes m img ph =
     map (\<lambda>k. if k < unat (p_filesz ph) then m (img + p_offset ph + of_nat k) else 0) [0..<unat (p_memsz ph)]"

definition loaded_bytes :: "memory \<Rightarrow> u32 \<Rightarrow> u8 list" where
  "loaded_bytes m img = concat (map (segment_bytes m img) (filter (\<lambda>ph. p_type ph = PT_LOAD) (phdrs m img)))"

text \<open>The \<open>len\<close> bytes from \<open>a\<close> on are not among the \<open>n\<close> bytes from \<open>s\<close> on.\<close>

definition outside :: "u32 \<Rightarrow> nat \<Rightarrow> u32 \<Rightarrow> nat \<Rightarrow> bool" where
  "outside s n a len \<longleftrightarrow> (\<forall>k < len. n \<le> unat (a + of_nat k - s))"

lemma outside_at: "outside s n a len \<Longrightarrow> k < len \<Longrightarrow> n \<le> unat (a + of_nat k - s)"
  by (simp add: outside_def)

lemma overlay_Nil [simp]: "overlay s [] m = m"
  by (simp add: overlay_def)

lemma overlay_outside: "outside s n a len \<Longrightarrow> length bs \<le> n \<Longrightarrow> k < len \<Longrightarrow> overlay s bs m (a + of_nat k) = m (a + of_nat k)"
  by (auto simp: overlay_def dest: outside_at)

text \<open>The bytes of memory at distance \<open>L\<close> from \<open>s\<close>, without wrap-around.\<close>

lemma window:
  fixes a s n :: u32
  assumes "L + unat n < 2 ^ 32"
  shows "a - (s + of_nat L) < n \<longleftrightarrow> L \<le> unat (a - s) \<and> unat (a - s) < L + unat n"
    and "L \<le> unat (a - s) \<Longrightarrow> unat (a - (s + of_nat L)) = unat (a - s) - L"
proof -
  have L: "unat (of_nat L :: u32) = L" using assms by (simp add: unat_of_nat)
  have d: "a - (s + of_nat L) = (a - s) - of_nat L" by simp
  show ge: "unat (a - (s + of_nat L)) = unat (a - s) - L" if "L \<le> unat (a - s)"
    unfolding d using that L by (simp add: unat_sub_if')
  have lt: "unat (a - (s + of_nat L)) = 2 ^ 32 + unat (a - s) - L" if "\<not> L \<le> unat (a - s)"
    unfolding d using that L by (simp add: unat_sub_if')
  show "a - (s + of_nat L) < n \<longleftrightarrow> L \<le> unat (a - s) \<and> unat (a - s) < L + unat n"
    using ge lt assms by (cases "L \<le> unat (a - s)") (auto simp: word_less_nat_alt)
qed

lemma memmove_apart:
  assumes "outside des (unat n) src (unat n)"
  shows "snd (memmove m des src n) = (\<lambda>a. if a - des < n then m (src + (a - des)) else m a)"
proof (cases "n = 0")
  case False
  then have n: "0 < unat n" by (simp add: unat_gt_0)
  have "n \<le> src - des" using outside_at [OF assms n] by (simp add: word_le_nat_alt)
  moreover have "n \<le> des - src"
    using outside_at [OF assms, of "unat (des - src)"] n by (force simp: word_le_nat_alt)
  ultimately show ?thesis by (auto simp: memmove_def copy_up_at copy_down_at fun_eq_iff)
qed (auto simp: memmove_def copy_up.simps copy_down.simps)

lemma outside_shift:
  assumes "outside s n a len" "L + len \<le> n" "n < 2 ^ 32"
  shows "outside (s + of_nat L) len a len"
  unfolding outside_def
proof (intro allI impI)
  fix k assume "k < len"
  then have ge: "n \<le> unat (a + of_nat k - s)" using outside_at [OF assms(1)] by blast
  have "unat (a + of_nat k - (s + of_nat L)) = unat (a + of_nat k - s) - L"
    by (rule window(2) [where n = 0]) (use assms ge in auto)
  then show "len \<le> unat (a + of_nat k - (s + of_nat L))" using ge assms(2) by simp
qed

lemma segment_step:
  fixes fsz msz :: u32
  assumes "fsz \<le> msz" "length bs + unat msz \<le> n" "n < 2 ^ 32" "outside s n src (unat fsz)"
  defines "des \<equiv> s + of_nat (length bs)"
  shows "snd (memset (snd (memmove (overlay s bs m) des src fsz)) (des + fsz) 0 (msz - fsz)) =
     overlay s (bs @ map (\<lambda>k. if k < unat fsz then m (src + of_nat k) else 0) [0..<unat msz]) m"
proof
  fix a
  let ?L = "length bs" and ?x = "unat (a - s)"
  have le: "unat fsz \<le> unat msz" using assms(1) by (simp add: word_le_nat_alt)
  have des2: "des + fsz = s + of_nat (?L + unat fsz)" by (simp add: des_def)
  have dif: "unat (msz - fsz) = unat msz - unat fsz" using assms(1) by (simp add: unat_sub)
  have ap: "outside des (unat fsz) src (unat fsz)"
    unfolding des_def by (rule outside_shift [OF assms(4)]) (use le assms in simp_all)
  have w1: "a - des < fsz \<longleftrightarrow> ?L \<le> ?x \<and> ?x < ?L + unat fsz"
    unfolding des_def by (rule window(1)) (use le assms in simp)
  have w2: "a - (des + fsz) < msz - fsz \<longleftrightarrow> ?L + unat fsz \<le> ?x \<and> ?x < ?L + unat msz"
    unfolding des2 using window(1) [of "?L + unat fsz" "msz - fsz" a s] le assms dif by simp
  have src: "overlay s bs m (src + (a - des)) = m (src + of_nat (?x - ?L))" if "?L \<le> ?x" "?x < ?L + unat fsz"
  proof -
    have "unat (a - des) = ?x - ?L" unfolding des_def by (rule window(2) [where n = 0]) (use that le assms in auto)
    then have "a - des = of_nat (?x - ?L)" by (metis of_nat_unat ucast_id)
    then show ?thesis by (simp only:) (rule overlay_outside [OF assms(4)]; use that le assms(2) in linarith)
  qed
  show "snd (memset (snd (memmove (overlay s bs m) des src fsz)) (des + fsz) 0 (msz - fsz)) a =
     overlay s (bs @ map (\<lambda>k. if k < unat fsz then m (src + of_nat k) else 0) [0..<unat msz]) m a"
    using w1 w2 src le by (auto simp: memset_def set_up_at memmove_apart [OF ap] overlay_def nth_append)
qed

text \<open>Headers outside the region written are read as before.\<close>

lemma load_overlay:
  assumes "length bs \<le> n"
  shows "outside s n a (k + 4) \<Longrightarrow> load32 (overlay s bs m) (a + of_nat k) = load32 m (a + of_nat k)"
    and "outside s n a (k + 2) \<Longrightarrow> load16 (overlay s bs m) (a + of_nat k) = load16 m (a + of_nat k)"
proof -
  have o: "overlay s bs m (a + of_nat k + of_nat j) = m (a + of_nat k + of_nat j)" if "outside s n a (k + l)" "j < l" for j l
    using overlay_outside [OF that(1) assms, of "k + j" m] that(2) by (simp add: add.assoc)
  show "load32 (overlay s bs m) (a + of_nat k) = load32 m (a + of_nat k)" if "outside s n a (k + 4)"
    using o [OF that, of 0] o [OF that, of 1] o [OF that, of 2] o [OF that, of 3] by (simp add: load32_def)
  show "load16 (overlay s bs m) (a + of_nat k) = load16 m (a + of_nat k)" if "outside s n a (k + 2)"
    using o [OF that, of 0] o [OF that, of 1] by (simp add: load16_def)
qed

lemma outside_mono: "outside s n a len \<Longrightarrow> len' \<le> len \<Longrightarrow> outside s n a len'"
  by (simp add: outside_def)

lemma phnum_overlay:
  assumes "outside s n img 52" "length bs \<le> n"
  shows "e_phnum (read_Ehdr (overlay s bs m) img) = e_phnum (read_Ehdr m img)"
  using load_overlay(2) [OF assms(2), of s img 44 m] outside_mono [OF assms(1)] by (simp add: read_Ehdr_def)

lemma read_Phdr_overlay:
  assumes "outside s n (t + 32 * of_nat i) 32" "length bs \<le> n"
  shows "read_Phdr (overlay s bs m) t i = read_Phdr m t i"
proof -
  have l: "load32 (overlay s bs m) (t + 32 * of_nat i + of_nat k) = load32 m (t + 32 * of_nat i + of_nat k)" if "k + 4 \<le> 32" for k
    by (rule load_overlay(1) [OF assms(2) outside_mono [OF assms(1) that]])
  show ?thesis
    unfolding read_Phdr_def Let_def
    using l [of 0] l [of 4] l [of 8] l [of 12] l [of 16] l [of 20] l [of 24] l [of 28] by simp
qed

text \<open>
  What loading needs of the place it writes to: none of the \<open>n\<close> bytes from \<open>s\<close> on is part of the
  ELF header, of the program headers or of a segment in the image.
\<close>

definition apart :: "memory \<Rightarrow> u32 \<Rightarrow> u32 \<Rightarrow> nat \<Rightarrow> bool" where
  "apart m img s n \<longleftrightarrow>
     outside s n img 52 \<and>
     (\<forall>i < unat (e_phnum (read_Ehdr m img)). outside s n (img + e_phoff (read_Ehdr m img) + 32 * of_nat i) 32) \<and>
     (\<forall>ph \<in> set (phdrs m img). p_type ph = PT_LOAD \<longrightarrow> outside s n (img + p_offset ph) (unat (p_filesz ph)))"

definition segments_fit :: "memory \<Rightarrow> u32 \<Rightarrow> bool" where
  "segments_fit m img \<longleftrightarrow> list_all (\<lambda>ph. p_type ph = PT_LOAD \<longrightarrow> p_filesz ph \<le> p_memsz ph) (phdrs m img)"

definition segs_upto :: "memory \<Rightarrow> u32 \<Rightarrow> nat \<Rightarrow> u8 list" where
  "segs_upto m img i = concat (map (segment_bytes m img) (filter (\<lambda>ph. p_type ph = PT_LOAD) (take i (phdrs m img))))"

lemma segs_upto_Suc:
  "i < length (phdrs m img) \<Longrightarrow> segs_upto m img (Suc i) =
     segs_upto m img i @ (if p_type (phdrs m img ! i) = PT_LOAD then segment_bytes m img (phdrs m img ! i) else [])"
  by (simp add: segs_upto_def take_Suc_conv_app_nth)

lemma segs_upto_length: "length (segs_upto m img i) \<le> length (loaded_bytes m img)"
proof -
  have "loaded_bytes m img = segs_upto m img i @ concat (map (segment_bytes m img) (filter (\<lambda>ph. p_type ph = PT_LOAD) (drop i (phdrs m img))))"
    unfolding loaded_bytes_def segs_upto_def by (metis append_take_drop_id concat_append filter_append map_append)
  then show ?thesis by simp
qed

lemma load_segments_overlay:
  assumes ap: "apart m img s n" and fit: "segments_fit m img" and n: "length (loaded_bytes m img) = n" "n < 2 ^ 32"
    and "i \<le> length (phdrs m img)"
  shows "load_segments img (img + e_phoff (read_Ehdr m img)) i (s + of_nat (length (segs_upto m img i)))
      (of_nat (length (segs_upto m img i))) (overlay s (segs_upto m img i) m) = (of_nat n, overlay s (loaded_bytes m img) m)"
  using assms(5)
proof (induction i rule: inc_induct)
  case base
  have "segs_upto m img (length (phdrs m img)) = loaded_bytes m img" by (simp add: segs_upto_def loaded_bytes_def)
  then show ?case
    using phnum_overlay [of s n img "loaded_bytes m img" m] ap n by (subst load_segments.simps) (simp add: apart_def phdrs_def)
next
  case (step i)
  let ?ph = "phdrs m img ! i" and ?B = "segs_upto m img i" and ?t = "img + e_phoff (read_Ehdr m img)"
  have len: "length ?B \<le> n" "length (segs_upto m img (Suc i)) \<le> n" using segs_upto_length n(1) by auto
  have i: "i < unat (e_phnum (read_Ehdr m img))" using step.hyps by (simp add: phdrs_def)
  have ph: "read_Phdr (overlay s ?B m) ?t i = ?ph"
    using read_Phdr_overlay [of s n ?t i ?B m] ap i len by (simp add: apart_def phdrs_def)
  have in_set: "?ph \<in> set (phdrs m img)" using step.hyps by simp
  have num: "e_phnum (read_Ehdr (overlay s ?B m) img) = e_phnum (read_Ehdr m img)"
    using phnum_overlay [of s n img ?B m] ap len by (simp add: apart_def)
  show ?case
  proof (cases "p_type ?ph = PT_LOAD")
    case True
    have B: "segs_upto m img (Suc i) = ?B @ segment_bytes m img ?ph" using True step.hyps by (simp add: segs_upto_Suc)
    then have lB: "length (segs_upto m img (Suc i)) = length ?B + unat (p_memsz ?ph)" by (simp add: segment_bytes_def)
    have mv: "snd (memset (snd (memmove (overlay s ?B m) (s + of_nat (length ?B)) (img + p_offset ?ph) (p_filesz ?ph)))
        (s + of_nat (length ?B) + p_filesz ?ph) 0 (p_memsz ?ph - p_filesz ?ph)) = overlay s (segs_upto m img (Suc i)) m"
      unfolding B segment_bytes_def
      by (rule segment_step) (use True in_set ap fit len lB n(2) in \<open>auto simp: apart_def segments_fit_def list_all_iff\<close>)
    show ?thesis
      using step.IH True by (subst load_segments.simps) (simp add: num i ph mv [unfolded add.assoc] lB add.assoc Let_def)
  next
    case False
    then have "segs_upto m img (Suc i) = ?B" using step.hyps by (simp add: segs_upto_Suc)
    then show ?thesis using step.IH False by (subst load_segments.simps) (simp add: num i ph)
  qed
qed

lemma load_size_sum:
  "fold (\<lambda>ph c. if p_type ph = PT_LOAD then c + p_memsz ph else c) phs acc =
     acc + of_nat (length (concat (map (segment_bytes m img) (filter (\<lambda>ph. p_type ph = PT_LOAD) phs))))"
  by (induction phs arbitrary: acc) (simp_all add: segment_bytes_def add.assoc)

section \<open>Properties\<close>

text \<open>
  C36. Loading a static executable writes what its program headers describe: for a valid image whose segments do
  not have more bytes in the file than in memory, when the total does not exceed the address space and the place
  is apart from the headers and segments of the image, memory afterwards is memory before with the bytes of the
  \<open>PT_LOAD\<close> segments, each padded with zeros, written one after the other from \<open>start_addr\<close> on, and the size
  returned is their number, which is also what \<open>Elf32_StaticExecutableLoadSize\<close> promised.
\<close>

theorem Elf32_LoadStaticExecutable_correct:
  assumes "Elf32_IsValidiStaticExecutable m img" "segments_fit m img"
    and "length (loaded_bytes m img) < 2 ^ 32" "apart m img start_addr (length (loaded_bytes m img))"
  shows "Elf32_LoadStaticExecutable img start_addr m = (Elf32_StaticExecutableLoadSize m img, overlay start_addr (loaded_bytes m img) m)
    \<and> unat (Elf32_StaticExecutableLoadSize m img) = length (loaded_bytes m img)"
proof -
  have sz: "Elf32_StaticExecutableLoadSize m img = of_nat (length (loaded_bytes m img))"
    using assms(1) load_size_sum [of "phdrs m img" 0 m img] by (simp add: Elf32_StaticExecutableLoadSize_def loaded_bytes_def)
  show ?thesis
    using load_segments_overlay [OF assms(4,2) refl assms(3), of 0] assms(1,3) sz
    by (simp add: Elf32_LoadStaticExecutable_def segs_upto_def unat_of_nat)
qed

text \<open>An image at \<open>0x1000\<close> with one segment of two bytes, four in memory.\<close>

definition sample_elf :: memory where
  "sample_elf = overlay 0x1000
     ([0x7F, 0x45, 0x4C, 0x46, 1, 1, 1, 0, 0, 0, 0, 0, 0, 0, 0, 0,
       2, 0, 3, 0, 1, 0, 0, 0, 0, 0, 0, 0, 52, 0, 0, 0, 0, 0, 0, 0, 0, 0, 0, 0, 52, 0, 32, 0, 1, 0, 40, 0, 0, 0, 0, 0] @
      [1, 0, 0, 0, 84, 0, 0, 0, 0, 0, 0, 0, 0, 0, 0, 0, 2, 0, 0, 0, 4, 0, 0, 0, 0, 0, 0, 0, 0, 0, 0, 0] @ [0xAB, 0xCD]) (\<lambda>_. 0xFF)"

lemma sample_elf_phdrs:
  "phdrs sample_elf 0x1000 = [\<lparr>p_type = 1, p_offset = 84, p_vaddr = 0, p_paddr = 0, p_filesz = 2, p_memsz = 4, p_flags = 0, p_align = 0\<rparr>]"
  by code_simp

lemma sample_elf_bytes: "loaded_bytes sample_elf 0x1000 = [0xAB, 0xCD, 0, 0]"
  by code_simp

lemma outside_below:
  assumes "unat a + len \<le> unat s" "unat s + n \<le> 2 ^ 32"
  shows "outside s n a len"
  unfolding outside_def
proof (intro allI impI)
  fix k assume k: "k < len"
  have lt: "unat a + k < 2 ^ 32" using k assms unat_u32_lt [of s] by simp
  then have "unat (of_nat k :: u32) = k" by (simp add: unat_of_nat)
  then have "unat (a + of_nat k) = unat a + k" using lt unat_add_lt [of a "of_nat k"] by simp
  then show "n \<le> unat (a + of_nat k - s)" using k assms by (simp add: unat_sub_if')
qed

theorem Elf32_LoadStaticExecutable_correct_witness:
  "Elf32_LoadStaticExecutable 0x1000 0x2000 sample_elf = (4, overlay 0x2000 [0xAB, 0xCD, 0, 0] sample_elf)"
proof -
  have v: "Elf32_IsValidiStaticExecutable sample_elf 0x1000" by code_simp
  have f: "segments_fit sample_elf 0x1000" by code_simp
  have sz: "Elf32_StaticExecutableLoadSize sample_elf 0x1000 = 4" by code_simp
  have "outside 0x2000 4 0x1000 52" "outside 0x2000 4 0x1034 32" "outside 0x2000 4 0x1054 2"
    by (rule outside_below; simp)+
  moreover have "e_phnum (read_Ehdr sample_elf 0x1000) = 1" "e_phoff (read_Ehdr sample_elf 0x1000) = 52" by code_simp+
  ultimately have "apart sample_elf 0x1000 0x2000 4" by (simp add: apart_def sample_elf_phdrs)
  moreover have "length (loaded_bytes sample_elf 0x1000) = 4" by (simp add: sample_elf_bytes)
  ultimately show ?thesis
    using Elf32_LoadStaticExecutable_correct [OF v f, of "0x2000"] by (simp add: sz) (simp add: sample_elf_bytes)
qed

end
