(* ===== verification/AVOS_Multiboot.thy ===== *)
theory AVOS_Multiboot
  imports AVOS_Boot_Console AVOS_Boot_Memory AVOS_Boot_ELF
begin

text \<open>
  The Multiboot information record (MBI) that the boot loader builds for the kernel,
  \<open>bootloader/multiboot/src/multiboot.c\<close> over the structures of \<open>multiboot.h\<close> and \<open>bootdefs.h\<close>: an MBI is
  a start structure followed by tags, each with its type and size, up to a terminating tag of type 0 and size 8.
  The functions of this theory make an empty MBI, find and terminate tags, and save one piece of information each.

  A value \<open>None\<close> is a call that never returns. The structure \<open>kernel_info\<close> is a record that is passed along; it
  is the loader's own variable, apart from what the functions write.
\<close>

section \<open>Constants and structures\<close>

definition MULTIBOOT_TAG_TYPE_CMDLINE :: u32 where "MULTIBOOT_TAG_TYPE_CMDLINE = 1"
definition MULTIBOOT_TAG_TYPE_BOOT_LOADER_NAME :: u32 where "MULTIBOOT_TAG_TYPE_BOOT_LOADER_NAME = 2"
definition MULTIBOOT_TAG_TYPE_MODULE :: u32 where "MULTIBOOT_TAG_TYPE_MODULE = 3"
definition MULTIBOOT_TAG_TYPE_BASIC_MEMINFO :: u32 where "MULTIBOOT_TAG_TYPE_BASIC_MEMINFO = 4"
definition MULTIBOOT_TAG_TYPE_BOOTDEV :: u32 where "MULTIBOOT_TAG_TYPE_BOOTDEV = 5"
definition MULTIBOOT_TAG_TYPE_MMAP :: u32 where "MULTIBOOT_TAG_TYPE_MMAP = 6"
definition MULTIBOOT_TAG_TYPE_VBE :: u32 where "MULTIBOOT_TAG_TYPE_VBE = 7"
definition MULTIBOOT_TAG_TYPE_FRAMEBUFFER :: u32 where "MULTIBOOT_TAG_TYPE_FRAMEBUFFER = 8"
definition MULTIBOOT_TAG_TYPE_ELF_SECTIONS :: u32 where "MULTIBOOT_TAG_TYPE_ELF_SECTIONS = 9"
definition MULTIBOOT_TAG_TYPE_APM :: u32 where "MULTIBOOT_TAG_TYPE_APM = 10"
definition MULTIBOOT_TAG_TYPE_EFI32 :: u32 where "MULTIBOOT_TAG_TYPE_EFI32 = 11"
definition MULTIBOOT_TAG_TYPE_EFI64 :: u32 where "MULTIBOOT_TAG_TYPE_EFI64 = 12"
definition MULTIBOOT_TAG_TYPE_SMBIOS :: u32 where "MULTIBOOT_TAG_TYPE_SMBIOS = 13"
definition Boot_MULTIBOOT_TAG_TYPE_ACPI_OLD :: u32 where "Boot_MULTIBOOT_TAG_TYPE_ACPI_OLD = 14"
definition Boot_MULTIBOOT_TAG_TYPE_ACPI_NEW :: u32 where "Boot_MULTIBOOT_TAG_TYPE_ACPI_NEW = 15"
definition MULTIBOOT_TAG_TYPE_NETWORK :: u32 where "MULTIBOOT_TAG_TYPE_NETWORK = 16"
definition MULTIBOOT_TAG_TYPE_EFI_MMAP :: u32 where "MULTIBOOT_TAG_TYPE_EFI_MMAP = 17"
definition MULTIBOOT_TAG_TYPE_EFI_BS :: u32 where "MULTIBOOT_TAG_TYPE_EFI_BS = 18"
definition MULTIBOOT_TAG_TYPE_EFI32_IH :: u32 where "MULTIBOOT_TAG_TYPE_EFI32_IH = 19"
definition MULTIBOOT_TAG_TYPE_EFI64_IH :: u32 where "MULTIBOOT_TAG_TYPE_EFI64_IH = 20"
definition MULTIBOOT_TAG_TYPE_LOAD_BASE_ADDR :: u32 where "MULTIBOOT_TAG_TYPE_LOAD_BASE_ADDR = 21"
definition MULTIBOOT_TAG_TYPE_RAM_INFO :: u32 where "MULTIBOOT_TAG_TYPE_RAM_INFO = 98"
definition Boot_MULTIBOOT_TAG_TYPE_RAM_INFO_PAGE_ALIGNED :: u32 where "Boot_MULTIBOOT_TAG_TYPE_RAM_INFO_PAGE_ALIGNED = 99"
definition MULTIBOOT_HEADER_TAG_INFORMATION_REQUEST :: u16 where "MULTIBOOT_HEADER_TAG_INFORMATION_REQUEST = 1"
definition MULTIBOOT_HEADER_TAG_ADDRESS :: u16 where "MULTIBOOT_HEADER_TAG_ADDRESS = 2"
definition MULTIBOOT_HEADER_TAG_ENTRY_ADDRESS :: u16 where "MULTIBOOT_HEADER_TAG_ENTRY_ADDRESS = 3"
definition MULTIBOOT_HEADER_TAG_CONSOLE_FLAGS :: u16 where "MULTIBOOT_HEADER_TAG_CONSOLE_FLAGS = 4"
definition MULTIBOOT_HEADER_TAG_FRAMEBUFFER :: u16 where "MULTIBOOT_HEADER_TAG_FRAMEBUFFER = 5"
definition MULTIBOOT_HEADER_TAG_MODULE_ALIGN :: u16 where "MULTIBOOT_HEADER_TAG_MODULE_ALIGN = 6"
definition MULTIBOOT_HEADER_TAG_EFI_BS :: u16 where "MULTIBOOT_HEADER_TAG_EFI_BS = 7"
definition MULTIBOOT_HEADER_TAG_ENTRY_ADDRESS_EFI32 :: u16 where "MULTIBOOT_HEADER_TAG_ENTRY_ADDRESS_EFI32 = 8"
definition MULTIBOOT_HEADER_TAG_ENTRY_ADDRESS_EFI64 :: u16 where "MULTIBOOT_HEADER_TAG_ENTRY_ADDRESS_EFI64 = 9"
definition MULTIBOOT_HEADER_TAG_RELOCATABLE :: u16 where "MULTIBOOT_HEADER_TAG_RELOCATABLE = 10"
definition MULTIBOOT_ARCHITECTURE_I386 :: u32 where "MULTIBOOT_ARCHITECTURE_I386 = 0"
definition MULTIBOOT_CONSOLE_FLAGS_CONSOLE_REQUIRED :: u32 where "MULTIBOOT_CONSOLE_FLAGS_CONSOLE_REQUIRED = 1"
definition MULTIBOOT_CONSOLE_FLAGS_EGA_TEXT_SUPPORTED :: u32 where "MULTIBOOT_CONSOLE_FLAGS_EGA_TEXT_SUPPORTED = 2"

record BootInfo_KernelInfo =
  boot_drive_ID :: u32
  boot_partition :: u32
  pnpbios_ptr :: u32
  blocklist_ptr :: u32
  k_start :: u32
  k_size :: u32
  k_bss_size :: u32
  multiboot_header :: u32
  k_entry :: u32
  file_addr :: u32
  file_size :: u32

text \<open>The structures at the start of an MBI and of a tag, and the fields the code sets through a pointer.\<close>

record Multiboot_Info_Start =
  total_size :: u32
  mi_reserved :: u32

definition read_Info_Start :: "memory \<Rightarrow> u32 \<Rightarrow> Multiboot_Info_Start" where
  "read_Info_Start m p = \<lparr>total_size = load32 m p, mi_reserved = load32 m (p + 4)\<rparr>"

record Multiboot_Info_Tag =
  tag_type :: u32
  tag_size :: u32

definition read_Info_Tag :: "memory \<Rightarrow> u32 \<Rightarrow> Multiboot_Info_Tag" where
  "read_Info_Tag m p = \<lparr>tag_type = load32 m p, tag_size = load32 m (p + 4)\<rparr>"

definition set_tag_type :: "u32 \<Rightarrow> u32 \<Rightarrow> memory \<Rightarrow> memory" where
  "set_tag_type p v m = store32 m p v"

definition set_tag_size :: "u32 \<Rightarrow> u32 \<Rightarrow> memory \<Rightarrow> memory" where
  "set_tag_size p v m = store32 m (p + 4) v"

text \<open>Where the compiler puts the local buffers, and what it leaves in the variable \<open>preferred_mode\<close>.\<close>

record boot_frame = disk_frame +
  at_blocklist :: u32
  at_mode_info :: u32
  uninitialised_mode :: u16

section \<open>The record\<close>

definition Multiboot_CheckForValidMBI :: "memory \<Rightarrow> u32 \<Rightarrow> bool" where
  "Multiboot_CheckForValidMBI m mbi_addr =
     (let mbi_start = read_Info_Start m mbi_addr
      in if mbi_addr mod 8 \<noteq> 0 \<or> mi_reserved mbi_start \<noteq> 0 \<or> total_size mbi_start < 16 \<or> total_size mbi_start mod 8 \<noteq> 0 then False
         else
           (let term = read_Info_Tag m (total_size mbi_start + mbi_addr - 8)
            in if tag_type term \<noteq> 0 \<or> tag_size term \<noteq> 8 then False else True))"

definition Multiboot_CreateEmptyMBI :: "u32 \<Rightarrow> memory \<Rightarrow> bool \<times> memory" where
  "Multiboot_CreateEmptyMBI mbi_addr m =
     (if mbi_addr mod 8 \<noteq> 0 then (False, m)
      else (True, set_tag_size (mbi_addr + 8) 8 (set_tag_type (mbi_addr + 8) 0 (store32 (store32 m mbi_addr 16) (mbi_addr + 4) 0))))"

text \<open>The loop over the tags: the tag of the type looked for, or nothing.\<close>

partial_function (option) find_tag :: "memory \<Rightarrow> u32 \<Rightarrow> u32 \<Rightarrow> u32 \<Rightarrow> u32 option option" where
  "find_tag m limit t p =
     (if tag_type (read_Info_Tag m p) \<noteq> 0 \<and> p < limit then
        (if tag_type (read_Info_Tag m p) = t then Some (Some p)
         else find_tag m limit t (tag_size (read_Info_Tag m p) + p))
      else Some None)"

definition Multiboot_FindMBITagAddress :: "memory \<Rightarrow> u32 \<Rightarrow> u32 \<Rightarrow> u32 option" where
  "Multiboot_FindMBITagAddress m mbi_addr t =
     (if \<not> Multiboot_CheckForValidMBI m mbi_addr then Some MEMORY_NULL_PTR
      else
        (let total = total_size (read_Info_Start m mbi_addr)
         in map_option (\<lambda>found.
              let ret_tag = (case found of None \<Rightarrow> mbi_addr + 8 | Some p \<Rightarrow> p); term = total + mbi_addr - 8
              in if tag_type (read_Info_Tag m ret_tag) = t then ret_tag
                 else if tag_type (read_Info_Tag m term) \<noteq> 0 \<or> tag_size (read_Info_Tag m term) \<noteq> 8 then MEMORY_NULL_PTR else term)
            (find_tag m (mbi_addr + total) t (mbi_addr + 8))))"

definition Multiboot_TerminateTag :: "u32 \<Rightarrow> u32 \<Rightarrow> memory \<Rightarrow> bool \<times> memory" where
  "Multiboot_TerminateTag mbi_addr tag_addr m =
     (let mbi_start = read_Info_Start m mbi_addr
      in if mbi_addr mod 8 \<noteq> 0 \<or> mi_reserved mbi_start \<noteq> 0 \<or> total_size mbi_start mod 8 \<noteq> 0 then (False, m)
         else
           (let tag = read_Info_Tag m tag_addr; term = tag_size tag + tag_addr
            in if tag_type tag = 0 \<and> tag_size tag = 8 then (True, m)
               else
                 (let m1 = set_tag_size term 8 (set_tag_type term 0 m)
                  in if tag_size tag = 0 then (True, m1)
                     else (True, store32 m1 mbi_addr (load32 m1 mbi_addr + tag_size (read_Info_Tag m1 tag_addr))))))"

section \<open>The header of a kernel\<close>

record Multiboot_Header_Magic_Fields =
  h_magic :: u32
  h_architecture :: u32
  h_length :: u32
  h_checksum :: u32

definition read_Header_Magic_Fields :: "memory \<Rightarrow> u32 \<Rightarrow> Multiboot_Header_Magic_Fields" where
  "read_Header_Magic_Fields m p =
     \<lparr>h_magic = load32 m p, h_architecture = load32 m (p + 4), h_length = load32 m (p + 8), h_checksum = load32 m (p + 12)\<rparr>"

record Multiboot_Header_Tag =
  ht_type :: u16
  ht_flags :: u16
  ht_size :: u32

definition read_Header_Tag :: "memory \<Rightarrow> u32 \<Rightarrow> Multiboot_Header_Tag" where
  "read_Header_Tag m p = \<lparr>ht_type = load16 m p, ht_flags = load16 m (p + 2), ht_size = load32 m (p + 4)\<rparr>"

definition find_magic :: "memory \<Rightarrow> u32 \<Rightarrow> u32 \<Rightarrow> u32 option" where
  "find_magic m start_addr sz =
     find (\<lambda>p. load32 m p = 0xE85250D6)
       (map (\<lambda>i. start_addr + 4 * of_nat i) (filter (\<lambda>i. i mod 2 = 0) [0..<min (unat (sz div 4)) 0x2000]))"

definition Multiboot_GetHeader :: "memory \<Rightarrow> u32 \<Rightarrow> u32 \<Rightarrow> u32" where
  "Multiboot_GetHeader m start_addr sz =
     (case find_magic m start_addr sz of
        None \<Rightarrow> 0
      | Some p \<Rightarrow>
          (let h = read_Header_Magic_Fields m p
           in if h_length h < 16 then 0
              else if h_checksum h + h_magic h + h_architecture h + h_length h \<noteq> 0 then 0
              else p))"

text \<open>
  The loops over the tags of a header, as \<open>body\<close> of one turn: it gives the new state and whether to go on. The
  length of the header and the size of the tag are read again in each turn, from the memory of the state.
  The result says whether the end of the header was reached.
\<close>

partial_function (option) walk_header ::
  "('s \<Rightarrow> memory) \<Rightarrow> u32 \<Rightarrow> (u32 \<Rightarrow> 's \<Rightarrow> (bool \<times> 's) option) \<Rightarrow> u32 \<Rightarrow> 's \<Rightarrow> (bool \<times> 's) option" where
  "walk_header mem hp body p s =
     (if p < hp + h_length (read_Header_Magic_Fields (mem s) hp) then
        Option.bind (body p s) (\<lambda>(go, s1).
          if go then walk_header mem hp body (p + ht_size (read_Header_Tag (mem s1) p)) s1 else Some (False, s1))
      else Some (True, s))"

definition first_header_tag :: "u32 \<Rightarrow> u32" where
  "first_header_tag hp = hp + 16"

text \<open>The loop over the requests of an information request tag.\<close>

definition nrequests :: "memory \<Rightarrow> u32 \<Rightarrow> u32" where
  "nrequests m p = (ht_size (read_Header_Tag m p) - 8) div 4"

definition request_at :: "memory \<Rightarrow> u32 \<Rightarrow> nat \<Rightarrow> u32" where
  "request_at m p i = load32 m (p + 8 + 4 * of_nat i)"

fun each_request :: "(nat \<Rightarrow> 's \<Rightarrow> (bool \<times> 's) option) \<Rightarrow> nat list \<Rightarrow> 's \<Rightarrow> (bool \<times> 's) option" where
  "each_request body [] s = Some (True, s)"
| "each_request body (i # is) s = Option.bind (body i s) (\<lambda>(go, s1). if go then each_request body is s1 else Some (False, s1))"

section \<open>Saving information\<close>

text \<open>
  How every function that saves something begins: it looks for the tag and returns false when the
  record is not valid or already has the tag; otherwise the place of the terminating tag is used.
\<close>

definition new_tag :: "u32 \<Rightarrow> u32 \<Rightarrow> memory \<Rightarrow> (u32 \<Rightarrow> (bool \<times> memory) option) \<Rightarrow> (bool \<times> memory) option" where
  "new_tag mbi_addr t m use =
     Option.bind (Multiboot_FindMBITagAddress m mbi_addr t)
       (\<lambda>p. if p = MEMORY_NULL_PTR \<or> tag_type (read_Info_Tag m p) \<noteq> 0 then Some (False, m) else use p)"

definition terminated :: "u32 \<Rightarrow> u32 \<Rightarrow> bool \<Rightarrow> memory \<Rightarrow> bool \<times> memory" where
  "terminated mbi_addr p r m = (r, snd (Multiboot_TerminateTag mbi_addr p m))"

definition Multiboot_SaveBootLoaderInfo :: "u32 \<Rightarrow> memory \<Rightarrow> (bool \<times> memory) option" where
  "Multiboot_SaveBootLoaderInfo mbi_addr m =
     new_tag mbi_addr MULTIBOOT_TAG_TYPE_BOOT_LOADER_NAME m (\<lambda>p.
       Some (Multiboot_TerminateTag mbi_addr p
         ((set_tag_size p 16 (set_tag_type p MULTIBOOT_TAG_TYPE_BOOT_LOADER_NAME m))
            (p + 8 := of_char CHR ''A'', p + 9 := of_char CHR ''V'', p + 10 := of_char CHR ''B'', p + 11 := of_char CHR ''L'', p + 12 := 0))))"

text \<open>The two loops over the command: the size counts its characters, then the padding up to a multiple of 8.\<close>

partial_function (option) count_command :: "u32 \<Rightarrow> u32 \<Rightarrow> memory \<Rightarrow> (u32 \<times> memory) option" where
  "count_command p i m =
     (if m (p + 8 + i) \<noteq> 0 then count_command p (i + 1) (set_tag_size p (tag_size (read_Info_Tag m p) + 1) m) else Some (i, m))"

partial_function (option) pad_command :: "u32 \<Rightarrow> u32 \<Rightarrow> memory \<Rightarrow> memory option" where
  "pad_command p i m =
     (if tag_size (read_Info_Tag m p) mod 8 \<noteq> 0
      then pad_command p (i + 1) ((set_tag_size p (tag_size (read_Info_Tag m p) + 1) m)(p + 8 + i := 0))
      else Some m)"

definition Multiboot_SaveBootCommand :: "bios \<Rightarrow> 'd ports \<Rightarrow> u32 \<Rightarrow> memory \<times> 'd \<Rightarrow> (bool \<times> memory \<times> 'd) option" where
  "Multiboot_SaveBootCommand bios ports mbi_addr = (\<lambda>(m, d). do {
     p \<leftarrow> Multiboot_FindMBITagAddress m mbi_addr MULTIBOOT_TAG_TYPE_CMDLINE;
     if p = MEMORY_NULL_PTR \<or> tag_type (read_Info_Tag m p) \<noteq> 0 then Some (False, m, d)
     else do {
       (m1, d1) \<leftarrow> Boot_Console_ReadCommand bios ports (p + 8) (set_tag_size p 8 (set_tag_type p MULTIBOOT_TAG_TYPE_CMDLINE m)) d;
       (i, m2) \<leftarrow> count_command p 0 m1;
       m3 \<leftarrow> pad_command p (i + 1) (set_tag_size p (tag_size (read_Info_Tag m2 p) + 1) m2);
       (let (r, m4) = Multiboot_TerminateTag mbi_addr p m3 in Some (r, m4, d1))
     }})"

text \<open>The fields that every tag with a memory map has: type, entry size 24 or 16, and version 0.\<close>

definition map_tag_fields :: "u32 \<Rightarrow> u32 \<Rightarrow> u32 \<Rightarrow> u32 \<Rightarrow> memory \<Rightarrow> memory" where
  "map_tag_fields p t sz entry_size m = store32 (store32 (set_tag_type p t (set_tag_size p sz m)) (p + 8) entry_size) (p + 12) 0"

definition save_ram_info :: "u32 \<Rightarrow> u32 \<Rightarrow> bool \<Rightarrow> u32 \<Rightarrow> u32 \<Rightarrow> memory \<Rightarrow> (bool \<times> memory) option" where
  "save_ram_info mbi_addr t page_align mmap mmap_size m =
     new_tag mbi_addr t m (\<lambda>p. do {
       (e, m1) \<leftarrow> Memory_StoreInfo (16 + p) page_align mmap mmap_size m;
       Some (terminated mbi_addr p True (map_tag_fields p t (e - p) 16 m1))
     })"

definition Multiboot_SaveMemoryMaps :: "bios \<Rightarrow> u32 \<Rightarrow> memory \<Rightarrow> (bool \<times> memory) option" where
  "Multiboot_SaveMemoryMaps bios mbi_addr m =
     new_tag mbi_addr MULTIBOOT_TAG_TYPE_MMAP m (\<lambda>p. do {
       (e, m1) \<leftarrow> Memory_StoreE820Info bios (16 + p) m;
       let m2 = snd (Multiboot_TerminateTag mbi_addr p (map_tag_fields p MULTIBOOT_TAG_TYPE_MMAP (e - p) 24 m1));
           mmap = 16 + p; mmap_size = (tag_size (read_Info_Tag m2 p) - 16) div load32 m2 (p + 8)
       in if tag_size (read_Info_Tag m2 p) = 16 then Some (False, m2)
          else do {
            (r, m3) \<leftarrow> save_ram_info mbi_addr MULTIBOOT_TAG_TYPE_RAM_INFO False mmap mmap_size m2;
            if \<not> r then Some (False, m3)
            else save_ram_info mbi_addr Boot_MULTIBOOT_TAG_TYPE_RAM_INFO_PAGE_ALIGNED True mmap mmap_size m3
          }
     })"

definition Multiboot_SaveELFSectionHeaders :: "u32 \<Rightarrow> BootInfo_KernelInfo \<Rightarrow> memory \<Rightarrow> (bool \<times> memory) option" where
  "Multiboot_SaveELFSectionHeaders mbi_addr ki m =
     new_tag mbi_addr MULTIBOOT_TAG_TYPE_ELF_SECTIONS m (\<lambda>p.
       let m1 = store16 (store16 (store16 (set_tag_type p MULTIBOOT_TAG_TYPE_ELF_SECTIONS m) (p + 8) 0) (p + 10) 0) (p + 12) 0;
           (n, m2) = Elf32_LoadSectionHeaderTable (file_addr ki) (8 + p) True m1
       in Some (terminated mbi_addr p True (set_tag_size p (n + 8) m2)))"

definition Multiboot_SaveBasicMemoryInfo :: "bios \<Rightarrow> u32 \<Rightarrow> memory \<Rightarrow> (bool \<times> memory) option" where
  "Multiboot_SaveBasicMemoryInfo bios mbi_addr m =
     new_tag mbi_addr MULTIBOOT_TAG_TYPE_BASIC_MEMINFO m (\<lambda>p.
       let m1 = store32 (store32 (set_tag_size p 16 (set_tag_type p MULTIBOOT_TAG_TYPE_BASIC_MEMINFO m)) (p + 8) 0) (p + 12) 0;
           (_, m2) = Memory_StoreBasicInfo bios (8 + p) m1
       in Some (terminated mbi_addr p True m2))"

text \<open>The loop over at most five entries of the partition table in memory, 16 bytes each, for the marked one.\<close>

fun find_partition :: "memory \<Rightarrow> nat \<Rightarrow> u32 \<Rightarrow> u32" where
  "find_partition m 0 part = part"
| "find_partition m (Suc n) part = (if load16 m part = 0xAA55 then part else find_partition m n (part + 16))"

definition Multiboot_SaveBootDeviceInfo :: "u32 \<Rightarrow> BootInfo_KernelInfo \<Rightarrow> memory \<Rightarrow> (bool \<times> memory) option" where
  "Multiboot_SaveBootDeviceInfo mbi_addr ki m =
     new_tag mbi_addr MULTIBOOT_TAG_TYPE_BOOTDEV m (\<lambda>p.
       let part = find_partition m 5 (boot_partition ki)
       in if load16 m part \<noteq> 0xAA55 then Some (False, m)
          else Some (terminated mbi_addr p True
            (store32 (store32 (store32 (set_tag_size p 24 (set_tag_type p MULTIBOOT_TAG_TYPE_BOOTDEV m)) (p + 8) (boot_drive_ID ki))
               (p + 12) (4 - (part - boot_partition ki) div 16)) (p + 16) 0xFFFFFFFF)))"

definition Multiboot_SaveLoadBaseAddress :: "u32 \<Rightarrow> BootInfo_KernelInfo \<Rightarrow> memory \<Rightarrow> (bool \<times> memory) option" where
  "Multiboot_SaveLoadBaseAddress mbi_addr ki m =
     new_tag mbi_addr MULTIBOOT_TAG_TYPE_LOAD_BASE_ADDR m (\<lambda>p.
       Some (terminated mbi_addr p True
         (store32 (store32 (set_tag_size p 16 (set_tag_type p MULTIBOOT_TAG_TYPE_LOAD_BASE_ADDR m)) (p + 8) (k_start ki)) (p + 12) 0)))"

definition Multiboot_SaveAPMInfo :: "bios \<Rightarrow> u32 \<Rightarrow> memory \<Rightarrow> (bool \<times> memory) option" where
  "Multiboot_SaveAPMInfo bios mbi_addr m =
     new_tag mbi_addr MULTIBOOT_TAG_TYPE_APM m (\<lambda>p.
       let (e, m1) = System_StoreAPMInfo bios (p + 8) (set_tag_size p 32 (set_tag_type p MULTIBOOT_TAG_TYPE_APM m))
       in Some (if e = p + 8 then terminated mbi_addr p False (set_tag_size p 0 m1)
                else terminated mbi_addr p True (store16 (store16 m1 (p + 28) 0) (p + 30) 0)))"

definition Multiboot_SaveSMBIOSInfo :: "u32 \<Rightarrow> memory \<Rightarrow> (bool \<times> memory) option" where
  "Multiboot_SaveSMBIOSInfo mbi_addr m =
     new_tag mbi_addr MULTIBOOT_TAG_TYPE_SMBIOS m (\<lambda>p.
       let (e, m1) = System_StoreSMBIOSInfo (8 + p) (set_tag_type p MULTIBOOT_TAG_TYPE_SMBIOS m);
           m2 = set_tag_size p (e - p) m1
       in Some (if tag_size (read_Info_Tag m2 p) \<le> 8 then terminated mbi_addr p False (set_tag_size p 0 m2)
                else terminated mbi_addr p True m2))"

definition Multiboot_SaveACPIInfo :: "u32 \<Rightarrow> bool \<Rightarrow> memory \<Rightarrow> (bool \<times> memory) option" where
  "Multiboot_SaveACPIInfo mbi_addr old m =
     (let t = (if old then Boot_MULTIBOOT_TAG_TYPE_ACPI_OLD else Boot_MULTIBOOT_TAG_TYPE_ACPI_NEW)
      in new_tag mbi_addr t m (\<lambda>p.
           case System_StoreACPIInfo (8 + p) old (set_tag_size p (if old then 32 else 48) (set_tag_type p t m)) of
             Inl _ \<Rightarrow> None
           | Inr (e, m1) \<Rightarrow>
               Some (if e = 8 + p then terminated mbi_addr p False (set_tag_size p 0 m1) else terminated mbi_addr p True m1)))"

section \<open>Graphics\<close>

record graphics_request =
  graphics_mbi_mandatory :: bool
  EGA_text_supported :: bool
  vbe_mbi_requested :: bool
  vbe_mbi_mandatory :: bool
  framebuffer_mbi_requested :: bool
  framebuffer_mbi_mandatory :: bool
  width_requested :: u32
  height_requested :: u32
  depth_requested :: u32

definition no_request :: graphics_request where
  "no_request = \<lparr>graphics_mbi_mandatory = False, EGA_text_supported = False, vbe_mbi_requested = False, vbe_mbi_mandatory = False,
     framebuffer_mbi_requested = False, framebuffer_mbi_mandatory = False, width_requested = 0, height_requested = 0, depth_requested = 0\<rparr>"

definition graphics_info_request :: "memory \<Rightarrow> u32 \<Rightarrow> bool \<Rightarrow> nat \<Rightarrow> graphics_request \<Rightarrow> graphics_request" where
  "graphics_info_request m p mandatory i g =
     (let g1 = (if request_at m p i = MULTIBOOT_TAG_TYPE_VBE then g\<lparr>vbe_mbi_requested := True, vbe_mbi_mandatory := mandatory\<rparr> else g)
      in if request_at m p i = MULTIBOOT_TAG_TYPE_FRAMEBUFFER
         then g1\<lparr>framebuffer_mbi_requested := True, framebuffer_mbi_mandatory := mandatory\<rparr> else g1)"

definition graphics_tag :: "memory \<Rightarrow> u32 \<Rightarrow> graphics_request \<Rightarrow> graphics_request" where
  "graphics_tag m p g =
     (let h = read_Header_Tag m p; mandatory = (ht_flags h AND 1 = 0)
      in if ht_type h = MULTIBOOT_HEADER_TAG_INFORMATION_REQUEST
         then fold (graphics_info_request m p mandatory) [0..<unat (nrequests m p)] g
         else if ht_type h = MULTIBOOT_HEADER_TAG_CONSOLE_FLAGS
         then (let console_flags = load32 m (p + 8);
                   g1 = (if console_flags AND MULTIBOOT_CONSOLE_FLAGS_CONSOLE_REQUIRED \<noteq> 0 then g\<lparr>graphics_mbi_mandatory := True\<rparr> else g)
               in if console_flags AND MULTIBOOT_CONSOLE_FLAGS_EGA_TEXT_SUPPORTED \<noteq> 0 then g1\<lparr>EGA_text_supported := True\<rparr> else g1)
         else if ht_type h = MULTIBOOT_HEADER_TAG_FRAMEBUFFER
         then g\<lparr>width_requested := load32 m (p + 8), height_requested := load32 m (p + 12), depth_requested := load32 m (p + 16)\<rparr>
         else g)"

definition graphics_requests :: "memory \<Rightarrow> u32 \<Rightarrow> graphics_request option" where
  "graphics_requests m hp =
     map_option snd (walk_header (\<lambda>_. m) hp (\<lambda>p g. Some (True, graphics_tag m p g)) (first_header_tag hp) no_request)"

definition zero_bytes :: "u32 \<Rightarrow> nat \<Rightarrow> memory \<Rightarrow> memory" where
  "zero_bytes a n m = fold (\<lambda>i m. m(a + of_nat i := 0)) [0..<n] m"

definition no_graphics :: "u32 \<Rightarrow> u32 \<Rightarrow> graphics_request \<Rightarrow> memory \<Rightarrow> bool \<times> memory" where
  "no_graphics mbi_addr p g m =
     terminated mbi_addr p (\<not> (graphics_mbi_mandatory g \<or> vbe_mbi_mandatory g \<or> framebuffer_mbi_mandatory g)) (set_tag_size p 0 m)"

definition choose_mode :: "bios \<Rightarrow> boot_frame \<Rightarrow> graphics_request \<Rightarrow> u32 \<Rightarrow> memory \<Rightarrow> (u16 \<times> memory) option" where
  "choose_mode bios fr g video_modes m = do {
     (mode1, m1) \<leftarrow> (if EGA_text_supported g \<and> depth_requested g = 0 then VBE_GetTextMode bios (at_mode_info fr) video_modes 80 25 m
                     else Some (uninitialised_mode fr, m));
     (mode2, m2) \<leftarrow> (if mode1 = 0xFFFF
                     then VBE_GetMode bios (at_mode_info fr) video_modes (width_requested g) (height_requested g) (depth_requested g) m1
                     else Some (mode1, m1));
     Some (if mode2 = 0xFFFF then VBE_GetCurrentMode bios m2 else (mode2, m2))
   }"

definition framebuffer_fields :: "u32 \<Rightarrow> u32 \<Rightarrow> memory \<Rightarrow> memory" where
  "framebuffer_fields q info m0 =
     (let m1 = set_tag_type q MULTIBOOT_TAG_TYPE_FRAMEBUFFER m0;
          m2 = store64 m1 (q + 8) (ucast (vm_framebuffer (read_VBE_Mode_Info m1 info)));
          m3 = store32 m2 (q + 16) (ucast (vm_pitch (read_VBE_Mode_Info m2 info)));
          m4 = store32 m3 (q + 20) (ucast (vm_width (read_VBE_Mode_Info m3 info)));
          m5 = store32 m4 (q + 24) (ucast (vm_height (read_VBE_Mode_Info m4 info)));
          m6 = m5(q + 28 := vm_bpp (read_VBE_Mode_Info m5 info));
          m7 = m6(q + 29 := (if vm_attributes (read_VBE_Mode_Info m6 info) AND 0x10 = 0 then 2 else 1));
          m8 = (if m7 (q + 29) = 2 then m7(q + 28 := 0x10) else m7);
          m9 = store16 m8 (q + 30) 0;
          m10 = m9(q + 32 := vm_red_position (read_VBE_Mode_Info m9 info));
          m11 = m10(q + 33 := vm_red_mask (read_VBE_Mode_Info m10 info));
          m12 = m11(q + 34 := vm_green_position (read_VBE_Mode_Info m11 info));
          m13 = m12(q + 35 := vm_green_mask (read_VBE_Mode_Info m12 info));
          m14 = m13(q + 36 := vm_blue_position (read_VBE_Mode_Info m13 info));
          m15 = m14(q + 37 := vm_green_position (read_VBE_Mode_Info m14 info))
      in set_tag_size q 40 m15)"

definition save_framebuffer :: "bios \<Rightarrow> u32 \<Rightarrow> u32 \<Rightarrow> u16 \<Rightarrow> memory \<Rightarrow> (bool \<times> memory) option" where
  "save_framebuffer bios mbi_addr p mode m =
     new_tag mbi_addr MULTIBOOT_TAG_TYPE_FRAMEBUFFER m (\<lambda>q.
       Some (VBE_SetMode bios mode (snd (Multiboot_TerminateTag mbi_addr q (framebuffer_fields q (p + 528) m)))))"

definition save_vbe :: "bios \<Rightarrow> boot_frame \<Rightarrow> u32 \<Rightarrow> graphics_request \<Rightarrow> u32 \<Rightarrow> memory \<Rightarrow> (bool \<times> memory) option" where
  "save_vbe bios fr mbi_addr g p m =
     (let m1 = zero_bytes (p + 528) 0x100 (zero_bytes (p + 16) 0x200 (set_tag_size p 784 (set_tag_type p MULTIBOOT_TAG_TYPE_VBE m)));
          (e, m2) = VBE_StoreInfo bios (16 + p) m1
      in if e - (16 + p) = 0 then Some (no_graphics mbi_addr p g m2)
         else
           (let m3 = store16 (store16 (store16 (store16 m2 (p + 8) 0xFFFF) (p + 10) 0) (p + 12) 0) (p + 14) 0;
                (_, m4) = VBE_StorePModeInfo bios (p + 10) m3;
                vmodes = load32 m4 (16 + p + 14); video_modes = push_bit 4 (drop_bit 16 vmodes) + (vmodes AND 0xFFFF)
            in do {
              (mode, m5) \<leftarrow> choose_mode bios fr g video_modes m4;
              (let (ok, m6) = (if mode = 0xFFFF then (False, m5) else VBE_GetModeInfo bios mode (p + 528) m5)
               in if \<not> ok then Some (no_graphics mbi_addr p g m6)
                  else
                    (let m7 = snd (Multiboot_TerminateTag mbi_addr p (store16 m6 (p + 8) mode))
                     in if \<not> graphics_mbi_mandatory g \<and> \<not> framebuffer_mbi_requested g then Some (True, m7)
                        else save_framebuffer bios mbi_addr p mode m7))
            }))"

definition Multiboot_SaveGraphicsInfo :: "bios \<Rightarrow> boot_frame \<Rightarrow> u32 \<Rightarrow> BootInfo_KernelInfo \<Rightarrow> memory \<Rightarrow> (bool \<times> memory) option" where
  "Multiboot_SaveGraphicsInfo bios fr mbi_addr ki m =
     (let hp = multiboot_header ki
      in if hp = 0 then Some (False, m)
         else do {
           g \<leftarrow> graphics_requests m hp;
           if \<not> graphics_mbi_mandatory g \<and> \<not> vbe_mbi_requested g \<and> \<not> framebuffer_mbi_requested g then Some (True, m)
           else new_tag mbi_addr MULTIBOOT_TAG_TYPE_VBE m (\<lambda>p. save_vbe bios fr mbi_addr g p m)
         })"

end
