(* ===== verification/AVOS_Multiboot_Load.thy ===== *)
theory AVOS_Multiboot_Load
  imports AVOS_Multiboot
begin

text \<open>
  The second half of \<open>bootloader/multiboot/src/multiboot.c\<close>: reading the kernel file from the block lists
  on disk, loading the kernel and its modules, saving the information the kernel's header asks for, and
  \<open>Multiboot_Boot\<close>, which runs all of it.
\<close>

section \<open>Block lists\<close>

definition BLOCKLIST_MAXBLOCKS128 :: nat where "BLOCKLIST_MAXBLOCKS128 = 9"
definition BLOCKLIST_MAXBLOCKS512 :: nat where "BLOCKLIST_MAXBLOCKS512 = 41"
definition BLOCKLIST_MAXBLOCKS272 :: nat where "BLOCKLIST_MAXBLOCKS272 = 21"

record BootInfo_BlockLBA =
  lba :: u64
  num_sectors :: u32

text \<open>The three kinds of block list have the same layout up to the number of blocks: header fields, then the blocks.\<close>

record BootInfo_BlockList =
  bl_jump :: u32
  bl_address :: u64
  bl_sector_size :: u16
  bl_reserved :: "u8 list"

definition read_BlockList :: "memory \<Rightarrow> u32 \<Rightarrow> BootInfo_BlockList" where
  "read_BlockList m p =
     \<lparr>bl_jump = load32 m p, bl_address = load64 m (p + 4), bl_sector_size = load16 m (p + 12),
      bl_reserved = map m [p + 14, p + 15, p + 16, p + 17, p + 18, p + 19]\<rparr>"

definition block_at :: "memory \<Rightarrow> u32 \<Rightarrow> nat \<Rightarrow> BootInfo_BlockLBA" where
  "block_at m p k = \<lparr>lba = load64 m (p + 20 + 12 * of_nat k), num_sectors = load32 m (p + 20 + 12 * of_nat k + 8)\<rparr>"

definition block_bytes :: "memory \<Rightarrow> u32 \<Rightarrow> nat \<Rightarrow> u32" where
  "block_bytes m p k = num_sectors (block_at m p k) * ucast (bl_sector_size (read_BlockList m p))"

text \<open>The sum of the sizes of the blocks, at most \<open>n\<close> of them, from block \<open>k\<close> on.\<close>

fun sum_blocks :: "memory \<Rightarrow> u32 \<Rightarrow> nat \<Rightarrow> nat \<Rightarrow> u32 \<Rightarrow> u32" where
  "sum_blocks m p 0 k acc = acc"
| "sum_blocks m p (Suc n) k acc =
     (if num_sectors (block_at m p k) > 0 then sum_blocks m p n (Suc k) (acc + block_bytes m p k) else acc)"

definition kernel_marker :: "memory \<Rightarrow> u32 \<Rightarrow> bool" where
  "kernel_marker m p \<longleftrightarrow> bl_reserved (read_BlockList m p) = map of_char ''KERNEL''"

text \<open>
  The loops over the master block list: block \<open>i\<close>, sector \<open>j\<close> of the block, and entry \<open>s\<close> of the
  sector, which is read to the buffer first. \<open>body\<close> handles one entry; it gives whether to go on and the new state.
  A sector size has 16 bits, so that there are fewer than 128 entries.
\<close>

fun each_entry :: "(u32 \<Rightarrow> 's \<Rightarrow> (bool \<times> 's) option) \<Rightarrow> ('s \<Rightarrow> nat) \<Rightarrow> u32 \<Rightarrow> nat \<Rightarrow> nat \<Rightarrow> 's \<Rightarrow> (bool \<times> 's) option" where
  "each_entry body count buffer 0 s st = Some (True, st)"
| "each_entry body count buffer (Suc n) s st =
     (if s < count st then
        Option.bind (body (buffer + 512 * of_nat s) st) (\<lambda>(go, st1). if go then each_entry body count buffer n (Suc s) st1 else Some (False, st1))
      else Some (True, st))"

record 's block_env =
  be_mem :: "'s \<Rightarrow> memory"
  be_set :: "memory \<Rightarrow> 's \<Rightarrow> 's"
  be_body :: "nat \<Rightarrow> u32 \<Rightarrow> 's \<Rightarrow> (bool \<times> 's) option"

definition read_sector_entries ::
  "bios \<Rightarrow> boot_frame \<Rightarrow> 's block_env \<Rightarrow> u8 \<Rightarrow> u32 \<Rightarrow> nat \<Rightarrow> nat \<Rightarrow> 's \<Rightarrow> (bool \<times> 's) option" where
  "read_sector_entries bios fr env drive mst i j st =
     (let m = be_mem env st;
          (bytes_read, m1) = DiskIO_ReadFromDisk bios (disk_frame.truncate fr) drive (at_blocklist fr) (lba (block_at m mst i) + of_nat j) 1 m;
          sector_size = bl_sector_size (read_BlockList m1 mst); st1 = be_set env m1 st
      in if bytes_read = 0 \<or> bytes_read \<noteq> ucast sector_size \<or> bytes_read > 0x1000 then Some (False, st1)
         else each_entry (be_body env i) (\<lambda>s. unat (bl_sector_size (read_BlockList (be_mem env s) mst) div 0x200)) (at_blocklist fr) 128 0 st1)"

function each_sector ::
  "bios \<Rightarrow> boot_frame \<Rightarrow> 's block_env \<Rightarrow> u8 \<Rightarrow> u32 \<Rightarrow> nat \<Rightarrow> nat \<Rightarrow> 's \<Rightarrow> (bool \<times> 's) option" where
  "each_sector bios fr env drive mst i j st =
     (if j < unat (num_sectors (block_at (be_mem env st) mst i)) then
        (case read_sector_entries bios fr env drive mst i j st of
           None \<Rightarrow> None
         | Some (go, st1) \<Rightarrow> if go then each_sector bios fr env drive mst i (Suc j) st1 else Some (False, st1))
      else Some (True, st))"
  by pat_completeness auto
termination
proof (relation "measure (\<lambda>(bios, fr, env, drive, mst, i, j, st). 2 ^ 32 - j)", goal_cases)
  case (2 bios fr env drive mst i j st)
  then show ?case using unat_u32_lt [of "num_sectors (block_at (be_mem env st) mst i)"] by simp
qed simp

declare each_sector.simps [simp del]

fun each_block ::
  "bios \<Rightarrow> boot_frame \<Rightarrow> 's block_env \<Rightarrow> u8 \<Rightarrow> u32 \<Rightarrow> nat \<Rightarrow> nat \<Rightarrow> 's \<Rightarrow> (bool \<times> 's) option" where
  "each_block bios fr env drive mst 0 i st = Some (True, st)"
| "each_block bios fr env drive mst (Suc n) i st =
     (if num_sectors (block_at (be_mem env st) mst i) > 0 then
        Option.bind (each_sector bios fr env drive mst i 0 st)
          (\<lambda>(go, st1). if go then each_block bios fr env drive mst n (Suc i) st1 else Some (False, st1))
      else Some (True, st))"

section \<open>The kernel file\<close>

text \<open>The table of memory blocks in the MBI: its address and the number of its entries.\<close>

definition ram_info :: "u32 \<Rightarrow> memory \<Rightarrow> (u32 \<times> u32) option option" where
  "ram_info mbi_addr m =
     map_option (\<lambda>p. if p = MEMORY_NULL_PTR \<or> tag_type (read_Info_Tag m p) = 0 then None
                     else Some (0x10 + p, (tag_size (read_Info_Tag m p) - 0x10) div 16))
       (Multiboot_FindMBITagAddress m mbi_addr MULTIBOOT_TAG_TYPE_RAM_INFO)"

partial_function (option) read_kernel_blocks ::
  "bios \<Rightarrow> boot_frame \<Rightarrow> BootInfo_KernelInfo \<Rightarrow> u32 \<Rightarrow> nat \<Rightarrow> memory \<Rightarrow> (bool \<times> memory) option" where
  "read_kernel_blocks bios fr ki p k m =
     (if num_sectors (block_at m p k) > 0 then
        (let (n, m1) = DiskIO_ReadFromDisk bios (disk_frame.truncate fr) (ucast (boot_drive_ID ki)) (file_addr ki)
                         (lba (block_at m p k)) (num_sectors (block_at m p k)) m
         in if n \<noteq> block_bytes m1 p k then Some (False, m1) else read_kernel_blocks bios fr ki p (Suc k) m1)
      else Some (True, m))"

type_synonym file_state = "bool \<times> BootInfo_KernelInfo \<times> memory"

definition kernel_entry_body :: "bios \<Rightarrow> boot_frame \<Rightarrow> u32 \<Rightarrow> u32 \<Rightarrow> nat \<Rightarrow> u32 \<Rightarrow> file_state \<Rightarrow> (bool \<times> file_state) option" where
  "kernel_entry_body bios fr mmap mmap_size i p = (\<lambda>(loaded, ki, m).
     if bl_jump (read_BlockList m p) \<noteq> 0x9001FDE9 then Some (True, loaded, ki, m)
     else if \<not> kernel_marker m p then Some (True, loaded, ki, m)
     else
       (let fsize = sum_blocks m p BLOCKLIST_MAXBLOCKS512 0 0;
            ki1 = ki\<lparr>file_size := fsize, file_addr := Memory_FindBlockAddress m MEMORY_HIGH_START True fsize 1 mmap mmap_size\<rparr>
        in if file_addr ki1 = MEMORY_32BIT_LIMIT then Some (False, loaded, ki1, m)
           else do {
             (r, m1) \<leftarrow> read_kernel_blocks bios fr ki1 p 0 m;
             Some (r, loaded \<or> r, ki1, m1)
           }))"

definition file_env :: "bios \<Rightarrow> boot_frame \<Rightarrow> u32 \<Rightarrow> u32 \<Rightarrow> file_state block_env" where
  "file_env bios fr mmap mmap_size =
     \<lparr>be_mem = (\<lambda>(_, _, m). m), be_set = (\<lambda>m (l, k, _). (l, k, m)), be_body = kernel_entry_body bios fr mmap mmap_size\<rparr>"

text \<open>
  The last part of \<open>Multiboot_LoadKernelFile\<close>: the section headers are saved when the header asks for them;
  the function returns false when that succeeds and the request is mandatory.
\<close>

definition section_request :: "u32 \<Rightarrow> BootInfo_KernelInfo \<Rightarrow> u32 \<Rightarrow> nat \<Rightarrow> memory \<Rightarrow> (bool \<times> memory) option" where
  "section_request mbi_addr ki p i m =
     (if request_at m p i = MULTIBOOT_TAG_TYPE_ELF_SECTIONS \<and> ht_flags (read_Header_Tag m p) AND 1 = 0
      then map_option (\<lambda>(r, m1). (\<not> r, m1)) (Multiboot_SaveELFSectionHeaders mbi_addr ki m)
      else Some (True, m))"

definition save_requested_sections :: "u32 \<Rightarrow> BootInfo_KernelInfo \<Rightarrow> memory \<Rightarrow> (bool \<times> memory) option" where
  "save_requested_sections mbi_addr ki m =
     (let hp = Multiboot_GetHeader m (file_addr ki) (file_size ki)
      in if hp = 0 then Some (False, m)
         else if h_architecture (read_Header_Magic_Fields m hp) \<noteq> MULTIBOOT_ARCHITECTURE_I386 then Some (False, m)
         else walk_header (\<lambda>m. m) hp
           (\<lambda>p m. if ht_type (read_Header_Tag m p) = MULTIBOOT_HEADER_TAG_INFORMATION_REQUEST
                  then each_request (section_request mbi_addr ki p) [0..<unat (nrequests m p)] m else Some (True, m))
           (first_header_tag hp) m)"

definition Multiboot_LoadKernelFile ::
  "bios \<Rightarrow> boot_frame \<Rightarrow> u32 \<Rightarrow> BootInfo_KernelInfo \<Rightarrow> memory \<Rightarrow> (bool \<times> BootInfo_KernelInfo \<times> memory) option" where
  "Multiboot_LoadKernelFile bios fr mbi_addr ki m = do {
     ram \<leftarrow> ram_info mbi_addr m;
     (case ram of
        None \<Rightarrow> Some (False, ki, m)
      | Some (mmap, mmap_size) \<Rightarrow> do {
          (go, loaded, ki1, m1) \<leftarrow> each_block bios fr (file_env bios fr mmap mmap_size) (ucast (boot_drive_ID ki)) (blocklist_ptr ki)
                                    BLOCKLIST_MAXBLOCKS128 0 (False, ki, m);
          if \<not> go \<or> \<not> loaded then Some (False, ki1, m1)
          else map_option (\<lambda>(r, m2). (r, ki1, m2)) (save_requested_sections mbi_addr ki1 m1)
        })
   }"

section \<open>The kernel\<close>

text \<open>The local variables of \<open>Multiboot_LoadKernel\<close> that the header tags set; \<open>lp_failed\<close> is an early return.\<close>

record load_params =
  lp_ki :: BootInfo_KernelInfo
  reloc :: bool
  start_min :: u32
  end_max :: u32
  load_pref :: u32
  start_align :: u32
  load_info :: bool
  load_start :: u32
  kernel_entry :: u32
  lp_failed :: bool

definition reloc_tag :: "memory \<Rightarrow> u32 \<Rightarrow> load_params \<Rightarrow> load_params" where
  "reloc_tag m p s =
     s\<lparr>reloc := True, start_min := load32 m (p + 8), end_max := load32 m (p + 12), load_pref := load32 m (p + 20),
       start_align := load32 m (p + 16)\<rparr>"

record Multiboot_Header_Tag_Address =
  ta_header_addr :: u32
  ta_load_addr :: u32
  ta_load_end_addr :: u32
  ta_bss_end_addr :: u32

definition read_Header_Tag_Address :: "memory \<Rightarrow> u32 \<Rightarrow> Multiboot_Header_Tag_Address" where
  "read_Header_Tag_Address m p =
     \<lparr>ta_header_addr = load32 m (p + 8), ta_load_addr = load32 m (p + 12), ta_load_end_addr = load32 m (p + 16),
      ta_bss_end_addr = load32 m (p + 20)\<rparr>"

definition address_tag :: "memory \<Rightarrow> u32 \<Rightarrow> u32 \<Rightarrow> load_params \<Rightarrow> load_params" where
  "address_tag m hp p s =
     (let t = read_Header_Tag_Address m p; ki = lp_ki s
      in if ta_load_addr t > ta_header_addr t then s\<lparr>lp_failed := True\<rparr>
         else
           (let (ls, kst) = (if ta_load_addr t = - 1 then (file_addr ki, ta_header_addr t - (hp - file_addr ki))
                             else (hp - (ta_header_addr t - ta_load_addr t), ta_load_addr t));
                s1 = s\<lparr>load_start := ls, lp_ki := ki\<lparr>k_start := kst\<rparr>\<rparr>
            in if ta_load_end_addr t \<noteq> 0 \<and> ta_load_end_addr t < kst then s1\<lparr>lp_failed := True\<rparr>
               else
                 (let sz = (if ta_load_end_addr t = 0 then file_size ki else ta_load_end_addr t - kst);
                      s2 = s1\<lparr>lp_ki := ki\<lparr>k_start := kst, k_size := sz\<rparr>\<rparr>
                  in if ta_bss_end_addr t \<noteq> 0 \<and> ta_bss_end_addr t < kst + sz then s2\<lparr>lp_failed := True\<rparr>
                     else
                       (let bss = (if ta_bss_end_addr t = 0 then 0 else ta_bss_end_addr t - (kst + sz))
                        in s2\<lparr>lp_ki := ki\<lparr>k_start := kst, k_size := sz + bss, k_bss_size := bss\<rparr>, load_info := True\<rparr>))))"

definition load_tag :: "memory \<Rightarrow> u32 \<Rightarrow> u32 \<Rightarrow> load_params \<Rightarrow> bool \<times> load_params" where
  "load_tag m hp p s =
     (let t = ht_type (read_Header_Tag m p)
      in if t = MULTIBOOT_HEADER_TAG_RELOCATABLE then (True, reloc_tag m p s)
         else if t = MULTIBOOT_HEADER_TAG_ADDRESS then (\<not> lp_failed (address_tag m hp p s), address_tag m hp p s)
         else if t = MULTIBOOT_HEADER_TAG_ENTRY_ADDRESS then (False, s\<lparr>kernel_entry := load32 m (p + 8)\<rparr>)
         else (True, s))"

definition initial_params :: "memory \<Rightarrow> BootInfo_KernelInfo \<Rightarrow> load_params" where
  "initial_params m ki =
     (let isELF = Elf32_IsValidiStaticExecutable m (file_addr ki)
      in \<lparr>lp_ki = ki\<lparr>k_size := (if isELF then Elf32_StaticExecutableLoadSize m (file_addr ki) else file_size ki),
                     k_bss_size := (if isELF then Elf32_SizeBSSLikeSections m (file_addr ki) else 0)\<rparr>,
          reloc = False, start_min = k_start ki, end_max = k_start ki + file_size ki, load_pref = 0, start_align = 0x1000,
          load_info = False, load_start = file_addr ki, kernel_entry = MEMORY_NULL_PTR, lp_failed = False\<rparr>)"

text \<open>The start address of a relocatable kernel, or nothing when the function returns false.\<close>

definition relocated_start :: "memory \<Rightarrow> u32 \<Rightarrow> u32 \<Rightarrow> load_params \<Rightarrow> u32 option" where
  "relocated_start m mmap mmap_size s =
     (let ki = lp_ki s
      in if load_info s \<or> \<not> reloc s then Some (k_start ki)
         else if load_pref s = 0 \<or> load_pref s = 1 then
           (let kstart = Memory_FindBlockAddress m (start_min s) True (file_size ki) (start_align s) mmap mmap_size
            in if kstart = MEMORY_32BIT_LIMIT \<or> kstart + k_size ki > end_max s then None else Some kstart)
         else if load_pref s = 2 then
           (let kstart = Memory_FindBlockAddress m (end_max s) False (file_size ki) (start_align s) mmap mmap_size
            in if kstart = MEMORY_32BIT_LIMIT \<or> kstart < start_min s then None else Some kstart)
         else Some (k_start ki))"

definition copy_kernel :: "load_params \<Rightarrow> BootInfo_KernelInfo \<Rightarrow> memory \<Rightarrow> memory" where
  "copy_kernel s ki m =
     (if load_info s then
        snd (memset (snd (memmove m (k_start ki) (load_start s) (k_size ki - k_bss_size ki)))
          (k_start ki + k_size ki - k_bss_size ki) 0 (k_bss_size ki))
      else if Elf32_IsValidiStaticExecutable m (file_addr ki) then snd (Elf32_LoadStaticExecutable (file_addr ki) (k_start ki) m)
      else snd (memmove m (k_start ki) (load_start s) (k_size ki)))"

definition clean_up :: "BootInfo_KernelInfo \<Rightarrow> memory \<Rightarrow> memory" where
  "clean_up ki m =
     (let fa = file_addr ki; fs = file_size ki; end_addr = k_start ki + k_size ki; cleanup_start = (if end_addr > fa then end_addr else fa);
          m1 = (if cleanup_start < fa + fs then snd (memset m cleanup_start 0 (fa + fs - cleanup_start)) else m)
      in if fa < k_start ki then snd (memset m1 fa 0 (if k_start ki - fa > fs then fs else k_start ki - fa)) else m1)"

definition place_kernel :: "u32 \<Rightarrow> u32 \<Rightarrow> load_params \<Rightarrow> memory \<Rightarrow> bool \<times> BootInfo_KernelInfo \<times> memory" where
  "place_kernel mmap mmap_size s m =
     (let ki = lp_ki s
      in if k_size ki = 0 then (False, ki, m)
         else if reloc s \<and> end_max s - start_min s < k_size ki then (False, ki, m)
         else
           (case relocated_start m mmap mmap_size s of
              None \<Rightarrow> (False, ki, m)
            | Some kstart \<Rightarrow>
                (let ki1 = ki\<lparr>k_start := kstart\<rparr>
                 in if Memory_FindBlockAddress m kstart True (file_size ki1) 1 mmap mmap_size \<noteq> kstart then (False, ki1, m)
                    else
                      (let m1 = clean_up ki1 (copy_kernel s ki1 m)
                       in (True, ki1\<lparr>k_entry := (if kernel_entry s = MEMORY_NULL_PTR then kstart else kernel_entry s),
                                     multiboot_header := Multiboot_GetHeader m1 kstart (k_size ki1)\<rparr>, m1)))))"

definition Multiboot_LoadKernel :: "u32 \<Rightarrow> BootInfo_KernelInfo \<Rightarrow> memory \<Rightarrow> (bool \<times> BootInfo_KernelInfo \<times> memory) option" where
  "Multiboot_LoadKernel mbi_addr ki m = do {
     ram \<leftarrow> ram_info mbi_addr m;
     (case ram of
        None \<Rightarrow> Some (False, ki, m)
      | Some (mmap, mmap_size) \<Rightarrow> do {
          let hp = Multiboot_GetHeader m (file_addr ki) (file_size ki);
          (_, s) \<leftarrow> walk_header (\<lambda>_. m) hp (\<lambda>p s. Some (load_tag m hp p s)) (first_header_tag hp) (initial_params m ki);
          Some (if lp_failed s then (False, lp_ki s, m) else place_kernel mmap mmap_size s m)
        })
   }"

section \<open>Modules\<close>

fun read_module_blocks :: "bios \<Rightarrow> boot_frame \<Rightarrow> BootInfo_KernelInfo \<Rightarrow> u32 \<Rightarrow> u32 \<Rightarrow> nat \<Rightarrow> nat \<Rightarrow> memory \<Rightarrow> bool \<times> memory" where
  "read_module_blocks bios fr ki mod_addr p 0 k m = (True, m)"
| "read_module_blocks bios fr ki mod_addr p (Suc n) k m =
     (if num_sectors (block_at m p k) > 0 then
        (let (r, m1) = DiskIO_ReadFromDisk bios (disk_frame.truncate fr) (ucast (boot_drive_ID ki)) mod_addr
                         (lba (block_at m p k)) (num_sectors (block_at m p k)) m
         in if r \<noteq> block_bytes m1 p k then (False, m1) else read_module_blocks bios fr ki mod_addr p n (Suc k) m1)
      else (True, m))"

text \<open>The loop that copies the string of a module: its condition is on \<open>i\<close>, its step on \<open>k\<close>.\<close>

partial_function (option) copy_string :: "nat \<Rightarrow> u32 \<Rightarrow> u32 \<Rightarrow> u32 \<Rightarrow> memory \<Rightarrow> memory option" where
  "copy_string i dst src k m = (if i < 240 then copy_string i dst src (k + 1) (m(dst + k := m (src + k))) else Some m)"

type_synonym module_state = "u32 \<times> memory"

definition module_size :: "memory \<Rightarrow> u32 \<Rightarrow> u32" where
  "module_size m p = sum_blocks m p BLOCKLIST_MAXBLOCKS272 0 0"

definition save_module :: "u32 \<Rightarrow> nat \<Rightarrow> u32 \<Rightarrow> u32 \<Rightarrow> u32 \<Rightarrow> memory \<Rightarrow> (bool \<times> memory) option" where
  "save_module mbi_addr i p mod_addr mod_size m =
     new_tag mbi_addr MULTIBOOT_TAG_TYPE_MODULE m (\<lambda>q. do {
       m1 \<leftarrow> copy_string i (q + 16) (p + 272) 0
              (store32 (store32 (set_tag_size q 256 (set_tag_type q MULTIBOOT_TAG_TYPE_MODULE m)) (q + 8) mod_addr)
                 (q + 12) (mod_addr + mod_size - 1));
       Some (Multiboot_TerminateTag mbi_addr q m1)
     })"

definition module_body ::
  "bios \<Rightarrow> boot_frame \<Rightarrow> u32 \<Rightarrow> BootInfo_KernelInfo \<Rightarrow> bool \<Rightarrow> u32 \<Rightarrow> u32 \<Rightarrow> nat \<Rightarrow> u32 \<Rightarrow> module_state \<Rightarrow> (bool \<times> module_state) option" where
  "module_body bios fr mbi_addr ki page_align mmap mmap_size i p = (\<lambda>(mod_addr, m).
     if bl_jump (read_BlockList m p) \<noteq> 0x9001FDE9 then Some (True, mod_addr, m)
     else if kernel_marker m p then Some (True, mod_addr, m)
     else if module_size m p = 0 then Some (True, mod_addr, m)
     else
       (let mod_size = module_size m p;
            addr = Memory_FindBlockAddress m (k_start ki) True (file_size ki) (if page_align then 0x1000 else 1) mmap mmap_size
        in if addr = MEMORY_32BIT_LIMIT then Some (False, addr, m)
           else
             (let (r, m1) = read_module_blocks bios fr ki addr p BLOCKLIST_MAXBLOCKS272 0 m
              in if \<not> r then Some (False, addr, m1)
                 else map_option (\<lambda>(r, m2). (r, if r then addr + mod_size else addr, m2)) (save_module mbi_addr i p addr mod_size m1))))"

definition module_env ::
  "bios \<Rightarrow> boot_frame \<Rightarrow> u32 \<Rightarrow> BootInfo_KernelInfo \<Rightarrow> bool \<Rightarrow> u32 \<Rightarrow> u32 \<Rightarrow> module_state block_env" where
  "module_env bios fr mbi_addr ki page_align mmap mmap_size =
     \<lparr>be_mem = snd, be_set = (\<lambda>m (a, _). (a, m)), be_body = module_body bios fr mbi_addr ki page_align mmap mmap_size\<rparr>"

definition module_alignment :: "memory \<Rightarrow> u32 \<Rightarrow> bool option" where
  "module_alignment m hp =
     map_option snd (walk_header (\<lambda>_. m) hp
       (\<lambda>p a. Some (True, a \<or> ht_type (read_Header_Tag m p) = MULTIBOOT_HEADER_TAG_MODULE_ALIGN)) (first_header_tag hp) False)"

definition Multiboot_LoadModules :: "bios \<Rightarrow> boot_frame \<Rightarrow> u32 \<Rightarrow> BootInfo_KernelInfo \<Rightarrow> memory \<Rightarrow> (bool \<times> memory) option" where
  "Multiboot_LoadModules bios fr mbi_addr ki m = do {
     page_align \<leftarrow> module_alignment m (multiboot_header ki);
     ram \<leftarrow> ram_info mbi_addr m;
     (case ram of
        None \<Rightarrow> Some (False, m)
      | Some (mmap, mmap_size) \<Rightarrow>
          map_option (\<lambda>(go, _, m1). (go, m1))
            (each_block bios fr (module_env bios fr mbi_addr ki page_align mmap mmap_size) (ucast (boot_drive_ID ki)) (blocklist_ptr ki)
               BLOCKLIST_MAXBLOCKS128 0 (k_start ki + k_size ki, m)))
   }"

section \<open>The information the kernel asks for\<close>

definition on_memory :: "(memory \<Rightarrow> (bool \<times> memory) option) \<Rightarrow> memory \<times> 'd \<Rightarrow> (bool \<times> memory \<times> 'd) option" where
  "on_memory f = (\<lambda>(m, d). map_option (\<lambda>(r, m1). (r, m1, d)) (f m))"

definition save_actions ::
  "bios \<Rightarrow> 'd ports \<Rightarrow> u32 \<Rightarrow> BootInfo_KernelInfo \<Rightarrow> (u32 \<times> (memory \<times> 'd \<Rightarrow> (bool \<times> memory \<times> 'd) option)) list" where
  "save_actions bios ports mbi_addr ki =
     [(MULTIBOOT_TAG_TYPE_CMDLINE, Multiboot_SaveBootCommand bios ports mbi_addr),
      (MULTIBOOT_TAG_TYPE_BOOT_LOADER_NAME, on_memory (Multiboot_SaveBootLoaderInfo mbi_addr)),
      (MULTIBOOT_TAG_TYPE_BASIC_MEMINFO, on_memory (Multiboot_SaveBasicMemoryInfo bios mbi_addr)),
      (MULTIBOOT_TAG_TYPE_BOOTDEV, on_memory (Multiboot_SaveBootDeviceInfo mbi_addr ki)),
      (MULTIBOOT_TAG_TYPE_APM, on_memory (Multiboot_SaveAPMInfo bios mbi_addr)),
      (MULTIBOOT_TAG_TYPE_SMBIOS, on_memory (Multiboot_SaveSMBIOSInfo mbi_addr)),
      (Boot_MULTIBOOT_TAG_TYPE_ACPI_OLD, on_memory (Multiboot_SaveACPIInfo mbi_addr True)),
      (Boot_MULTIBOOT_TAG_TYPE_ACPI_NEW, on_memory (Multiboot_SaveACPIInfo mbi_addr False)),
      (MULTIBOOT_TAG_TYPE_LOAD_BASE_ADDR, on_memory (Multiboot_SaveLoadBaseAddress mbi_addr ki))]"

fun run_actions ::
  "u32 \<Rightarrow> nat \<Rightarrow> (u32 \<times> (memory \<times> 'd \<Rightarrow> (bool \<times> memory \<times> 'd) option)) list \<Rightarrow> memory \<times> 'd \<Rightarrow> (memory \<times> 'd) option" where
  "run_actions p i [] s = Some s"
| "run_actions p i ((t, act) # acts) s =
     (if request_at (fst s) p i = t then Option.bind (act s) (\<lambda>(_, s1). run_actions p i acts s1) else run_actions p i acts s)"

definition unsupported_requests :: "u32 list" where
  "unsupported_requests = [MULTIBOOT_TAG_TYPE_EFI32, MULTIBOOT_TAG_TYPE_EFI64, MULTIBOOT_TAG_TYPE_EFI_MMAP, MULTIBOOT_TAG_TYPE_EFI_BS,
     MULTIBOOT_TAG_TYPE_EFI32_IH, MULTIBOOT_TAG_TYPE_EFI64_IH, MULTIBOOT_TAG_TYPE_NETWORK]"

definition info_request ::
  "bios \<Rightarrow> 'd ports \<Rightarrow> u32 \<Rightarrow> BootInfo_KernelInfo \<Rightarrow> u32 \<Rightarrow> bool \<Rightarrow> nat \<Rightarrow> memory \<times> 'd \<Rightarrow> (bool \<times> memory \<times> 'd) option" where
  "info_request bios ports mbi_addr ki p quit i s =
     map_option (\<lambda>s1. (\<not> (request_at (fst s1) p i \<in> set unsupported_requests \<and> quit), s1))
       (run_actions p i (save_actions bios ports mbi_addr ki) s)"

definition info_tag ::
  "bios \<Rightarrow> 'd ports \<Rightarrow> u32 \<Rightarrow> BootInfo_KernelInfo \<Rightarrow> u32 \<Rightarrow> memory \<times> 'd \<Rightarrow> (bool \<times> memory \<times> 'd) option" where
  "info_tag bios ports mbi_addr ki p s =
     (let h = read_Header_Tag (fst s) p; quit = (ht_flags h AND 1 = 0)
      in if ht_type h \<in> {MULTIBOOT_HEADER_TAG_EFI_BS, MULTIBOOT_HEADER_TAG_ENTRY_ADDRESS_EFI32, MULTIBOOT_HEADER_TAG_ENTRY_ADDRESS_EFI64} \<and> quit
         then Some (False, s)
         else if ht_type h = MULTIBOOT_HEADER_TAG_INFORMATION_REQUEST
         then each_request (info_request bios ports mbi_addr ki p quit) [0..<unat (nrequests (fst s) p)] s
         else Some (True, s))"

definition Multiboot_SaveInfo ::
  "bios \<Rightarrow> 'd ports \<Rightarrow> boot_frame \<Rightarrow> u32 \<Rightarrow> BootInfo_KernelInfo \<Rightarrow> memory \<times> 'd \<Rightarrow> (bool \<times> memory \<times> 'd) option" where
  "Multiboot_SaveInfo bios ports fr mbi_addr ki s = do {
     (go, s1) \<leftarrow> walk_header fst (multiboot_header ki) (info_tag bios ports mbi_addr ki) (first_header_tag (multiboot_header ki)) s;
     if \<not> go then Some (False, s1) else on_memory (Multiboot_SaveGraphicsInfo bios fr mbi_addr ki) s1
   }"

section \<open>Booting\<close>

definition boot_failed :: "string \<Rightarrow> BootInfo_KernelInfo \<Rightarrow> memory \<Rightarrow> 'd \<Rightarrow> (bool \<times> BootInfo_KernelInfo \<times> memory \<times> 'd) option" where
  "boot_failed msg ki m d = (let (r, m1) = Boot_Console_PrintAndReturn msg False m in Some (r, ki, m1, d))"

definition Multiboot_Boot ::
  "bios \<Rightarrow> 'd ports \<Rightarrow> boot_frame \<Rightarrow> u32 \<Rightarrow> BootInfo_KernelInfo \<Rightarrow> memory \<times> 'd \<Rightarrow> (bool \<times> BootInfo_KernelInfo \<times> memory \<times> 'd) option" where
  "Multiboot_Boot bios ports fr mbi_addr ki = (\<lambda>(m, d). do {
     let (m1, d1) = Boot_Console_PrintBanner ports m d;
     let (r1, m2) = Multiboot_CreateEmptyMBI mbi_addr m1;
     if \<not> r1 then boot_failed ''Unable to create multiboot information record'' ki m2 d1
     else do {
       (r2, m3) \<leftarrow> Multiboot_SaveMemoryMaps bios mbi_addr m2;
       if \<not> r2 then boot_failed ''Unable to load memory maps'' ki m3 d1
       else do {
         (r3, ki3, m4) \<leftarrow> Multiboot_LoadKernelFile bios fr mbi_addr ki m3;
         if \<not> r3 then boot_failed ''Unable to load OS kernel file'' ki3 m4 d1
         else do {
           (r4, ki4, m5) \<leftarrow> Multiboot_LoadKernel mbi_addr ki3 m4;
           if \<not> r4 then boot_failed ''Unable to load OS kernel'' ki4 m5 d1
           else do {
             (r5, m6) \<leftarrow> Multiboot_LoadModules bios fr mbi_addr ki4 m5;
             if \<not> r5 then boot_failed ''Unable to load OS kernel modules'' ki4 m6 d1
             else do {
               (r6, m7, d7) \<leftarrow> Multiboot_SaveInfo bios ports fr mbi_addr ki4 (m6, d1);
               if \<not> r6 then boot_failed ''Unable to load OS boot information'' ki4 m7 d7
               else Some (True, ki4, m7, d7)
             }}}}}})"

end
