(* ===== verification/AVOS_Multiboot_Correct.thy ===== *)
theory AVOS_Multiboot_Correct
  imports AVOS_Multiboot_Load
begin

text \<open>
  What a Multiboot information record is: a chain of tags from the start structure to the terminating tag. Finding a tag
  in a record ends and finds the first tag of the type; terminating a new tag keeps the record well formed; and the loop
  that copies the string of a module never ends.
\<close>

section \<open>Well-formed records\<close>

text \<open>The tags \<open>ts\<close>, by type and size, one after the other from \<open>p\<close> to \<open>e\<close>.\<close>

fun tag_chain :: "memory \<Rightarrow> u32 \<Rightarrow> (u32 \<times> u32) list \<Rightarrow> u32 \<Rightarrow> bool" where
  "tag_chain m p [] e = (p = e)"
| "tag_chain m p ((t, n) # ts) e =
     (read_Info_Tag m p = \<lparr>tag_type = t, tag_size = n\<rparr> \<and> t \<noteq> 0 \<and> 8 \<le> unat n \<and> unat n mod 8 = 0 \<and> unat p + unat n \<le> unat e
      \<and> tag_chain m (p + n) ts e)"

definition term_addr :: "memory \<Rightarrow> u32 \<Rightarrow> u32" where
  "term_addr m mbi = load32 m mbi + mbi - 8"

definition mbi_wf :: "memory \<Rightarrow> u32 \<Rightarrow> (u32 \<times> u32) list \<Rightarrow> bool" where
  "mbi_wf m mbi ts \<longleftrightarrow>
     unat mbi mod 8 = 0 \<and> load32 m (mbi + 4) = 0 \<and> 16 \<le> unat (load32 m mbi) \<and> unat (load32 m mbi) mod 8 = 0 \<and>
     unat mbi + unat (load32 m mbi) < 2 ^ 32 \<and> tag_chain m (mbi + 8) ts (term_addr m mbi) \<and>
     read_Info_Tag m (term_addr m mbi) = \<lparr>tag_type = 0, tag_size = 8\<rparr>"

text \<open>The first tag of type \<open>t\<close> in a chain.\<close>

fun lookup_tag :: "u32 \<Rightarrow> u32 \<Rightarrow> (u32 \<times> u32) list \<Rightarrow> u32 option" where
  "lookup_tag t p [] = None"
| "lookup_tag t p ((t', n) # ts) = (if t' = t then Some p else lookup_tag t (p + n) ts)"

lemma chain_le: "tag_chain m p ts e \<Longrightarrow> unat p \<le> unat e"
  by (cases "(m, p, ts, e)" rule: tag_chain.cases) auto

lemma unat_term_addr:
  assumes "mbi_wf m mbi ts"
  shows "unat (term_addr m mbi) + 8 = unat mbi + unat (load32 m mbi)"
proof -
  have s: "unat (load32 m mbi + mbi) = unat mbi + unat (load32 m mbi)"
    using assms by (subst unat_u32_plus) (auto simp: mbi_wf_def)
  then have "8 \<le> load32 m mbi + mbi" using assms by (simp add: word_le_nat_alt mbi_wf_def)
  then show ?thesis using s by (simp add: term_addr_def unat_sub word_le_nat_alt)
qed

lemma unat_mod8: "unat a mod 8 = 0 \<longleftrightarrow> a mod 8 = 0" for a :: u32
  by (simp add: word_unat_eq_iff unat_mod)

lemma wf_valid: "mbi_wf m mbi ts \<Longrightarrow> Multiboot_CheckForValidMBI m mbi"
  by (auto simp: Multiboot_CheckForValidMBI_def mbi_wf_def Let_def read_Info_Start_def unat_mod8 word_less_nat_alt term_addr_def)

section \<open>Finding a tag\<close>

lemma find_tag_chain:
  assumes "tag_chain m p ts e" "tag_type (read_Info_Tag m e) = 0" "unat e < unat limit"
  shows "find_tag m limit t p = Some (lookup_tag t p ts)"
  using assms(1)
proof (induction t p ts rule: lookup_tag.induct)
  case (1 t p)
  then show ?case using assms(2) by (subst find_tag.simps) simp
next
  case (2 t p t' n ts)
  have "p < limit" using chain_le [OF "2.prems"] assms(3) by (simp add: word_less_nat_alt)
  then show ?case using 2 by (subst find_tag.simps) (simp add: add.commute)
qed

lemma lookup_type: "tag_chain m p ts e \<Longrightarrow> lookup_tag t p ts = Some q \<Longrightarrow> tag_type (read_Info_Tag m q) = t"
  by (induction t p ts rule: lookup_tag.induct) (auto split: if_splits)

lemma lookup_None_first:
  assumes "tag_chain m p ts e" "lookup_tag t p ts = None" "tag_type (read_Info_Tag m e) = 0" "t \<noteq> 0"
  shows "tag_type (read_Info_Tag m p) \<noteq> t"
  using assms by (cases "(t, p, ts)" rule: lookup_tag.cases) (auto split: if_splits)

lemma find_in_wf:
  assumes wf: "mbi_wf m mbi ts" and t: "t \<noteq> 0"
  shows "Multiboot_FindMBITagAddress m mbi t = Some (case lookup_tag t (mbi + 8) ts of None \<Rightarrow> term_addr m mbi | Some p \<Rightarrow> p)"
proof -
  let ?e = "term_addr m mbi"
  have c: "tag_chain m (mbi + 8) ts ?e" and z: "read_Info_Tag m ?e = \<lparr>tag_type = 0, tag_size = 8\<rparr>"
    using wf by (auto simp: mbi_wf_def)
  have "unat (mbi + load32 m mbi) = unat mbi + unat (load32 m mbi)"
    using wf by (subst unat_u32_plus) (auto simp: mbi_wf_def)
  then have "unat ?e < unat (mbi + load32 m mbi)" using unat_term_addr [OF wf] by simp
  then have f: "find_tag m (mbi + load32 m mbi) t (mbi + 8) = Some (lookup_tag t (mbi + 8) ts)"
    using find_tag_chain [OF c] z by simp
  show ?thesis
    using wf_valid [OF wf] f z lookup_type [OF c] lookup_None_first [OF c _ _ t]
    by (auto simp: Multiboot_FindMBITagAddress_def Let_def read_Info_Start_def term_addr_def [symmetric] split: option.split)
qed

section \<open>Adding a tag\<close>

text \<open>Memory that agrees with another between two addresses has the same tags there.\<close>

definition same_between :: "memory \<Rightarrow> memory \<Rightarrow> nat \<Rightarrow> nat \<Rightarrow> bool" where
  "same_between m m' lo hi \<longleftrightarrow> (\<forall>a. lo \<le> unat a \<and> unat a < hi \<longrightarrow> m' a = m a)"

lemma load32_same:
  assumes "same_between m m' lo hi" "lo \<le> unat a" "unat a + 4 \<le> hi" "hi \<le> 2 ^ 32"
  shows "load32 m' a = load32 m a"
proof -
  have "unat (a + 1) = unat a + 1" "unat (a + 2) = unat a + 2" "unat (a + 3) = unat a + 3"
    using assms unat_u32_plus [of a 1] unat_u32_plus [of a 2] unat_u32_plus [of a 3] by simp_all
  then show ?thesis using assms by (intro load32_cong) (auto simp: same_between_def)
qed

lemma read_tag_same:
  assumes "same_between m m' lo hi" "lo \<le> unat p" "unat p + 8 \<le> hi" "hi < 2 ^ 32"
  shows "read_Info_Tag m' p = read_Info_Tag m p"
proof -
  have "unat (p + 4) = unat p + 4" using assms unat_u32_plus [of p 4] by simp
  then show ?thesis using assms load32_same [OF assms(1), of p] load32_same [OF assms(1), of "p + 4"] by (simp add: read_Info_Tag_def)
qed

lemma chain_same:
  assumes "tag_chain m p ts e" "same_between m m' lo (unat e)" "lo \<le> unat p"
  shows "tag_chain m' p ts e"
  using assms
proof (induction m p ts e rule: tag_chain.induct)
  case (2 m p t n ts e)
  have lt: "unat e < 2 ^ 32" using unat_u32_lt [of e] by simp
  have "unat (p + n) = unat p + unat n" using "2.prems" lt by (subst unat_u32_plus) auto
  moreover have "read_Info_Tag m' p = read_Info_Tag m p"
    using "2.prems" by (intro read_tag_same [OF "2.prems"(2,3) _ lt]) auto
  ultimately show ?case using 2 by auto
qed simp

lemma chain_snoc:
  assumes "tag_chain m p ts e" "read_Info_Tag m e = \<lparr>tag_type = t, tag_size = n\<rparr>" "t \<noteq> 0" "8 \<le> unat n" "unat n mod 8 = 0"
    "unat e + unat n < 2 ^ 32"
  shows "tag_chain m p (ts @ [(t, n)]) (e + n)"
  using assms
proof (induction m p ts e rule: tag_chain.induct)
  case (1 m p e)
  then show ?case using unat_u32_plus [of e n] by simp
next
  case (2 m p t' n' ts e)
  then show ?case using unat_u32_plus [of e n] by simp
qed

lemma same_store32:
  assumes "unat a + 4 \<le> 2 ^ 32" "hi \<le> unat a \<or> unat a + 4 \<le> lo"
  shows "same_between m (store32 m a v) lo hi"
  unfolding same_between_def
proof (intro allI impI store32_other)
  fix x :: u32 assume x: "lo \<le> unat x \<and> unat x < hi"
  have "unat (a + 1) = unat a + 1" "unat (a + 2) = unat a + 2" "unat (a + 3) = unat a + 3"
    using assms unat_u32_plus [of a 1] unat_u32_plus [of a 2] unat_u32_plus [of a 3] by simp_all
  then show "x \<noteq> a" "x \<noteq> a + 1" "x \<noteq> a + 2" "x \<noteq> a + 3" using x assms by auto
qed

lemma same_trans: "same_between m m' lo hi \<Longrightarrow> same_between m' m'' lo hi \<Longrightarrow> same_between m m'' lo hi"
  by (simp add: same_between_def)

lemma same_mono: "same_between m m' lo hi \<Longrightarrow> lo \<le> lo' \<Longrightarrow> hi' \<le> hi \<Longrightarrow> same_between m m' lo' hi'"
  by (simp add: same_between_def)

lemma read_written_tag:
  assumes "unat a + 8 \<le> 2 ^ 32"
  shows "read_Info_Tag (set_tag_size a n (set_tag_type a t m)) a = \<lparr>tag_type = t, tag_size = n\<rparr>"
proof -
  have u: "unat (a + 4) = unat a + 4" using assms unat_u32_plus [of a 4] by simp
  have "same_between (store32 m a t) (store32 (store32 m a t) (a + 4) n) 0 (unat a + 4)"
    by (rule same_store32) (use u assms in simp_all)
  then have "load32 (store32 (store32 m a t) (a + 4) n) a = t"
    using load32_same [of "store32 m a t" _ 0 "unat a + 4" a] assms by simp
  then show ?thesis by (simp add: read_Info_Tag_def set_tag_size_def set_tag_type_def)
qed

text \<open>Terminating a tag that was filled in where the terminating tag of a record was.\<close>

lemma TerminateTag_appends:
  assumes wf: "mbi_wf m mbi ts" and e: "e = term_addr m mbi" and same: "same_between m m1 (unat mbi) (unat e)"
    and tag: "read_Info_Tag m1 e = \<lparr>tag_type = t, tag_size = n\<rparr>" and n: "t \<noteq> 0" "8 \<le> unat n" "unat n mod 8 = 0" "unat e + unat n + 8 < 2 ^ 32"
  shows "fst (Multiboot_TerminateTag mbi e m1)"
    and "mbi_wf (snd (Multiboot_TerminateTag mbi e m1)) mbi (ts @ [(t, n)])"
    and "same_between m1 (snd (Multiboot_TerminateTag mbi e m1)) (unat mbi + 8) (unat e + unat n)"
    and "term_addr (snd (Multiboot_TerminateTag mbi e m1)) mbi = e + n"
proof -
  let ?T = "load32 m mbi" and ?M = "unat mbi" and ?E = "unat e" and ?m2 = "set_tag_size (n + e) 8 (set_tag_type (n + e) 0 m1)"
  have E: "?E + 8 = ?M + unat ?T" using unat_term_addr [OF wf] e by simp
  have T: "16 \<le> unat ?T" "unat ?T mod 8 = 0" "?M mod 8 = 0" "load32 m (mbi + 4) = 0" using wf by (auto simp: mbi_wf_def)
  have u4: "unat (mbi + 4) = ?M + 4" using E T n unat_u32_plus [of mbi 4] by simp
  have un: "unat (n + e) = ?E + unat n" "unat (n + e + 4) = ?E + unat n + 4"
    using n(4) unat_u32_plus [of n e] unat_u32_plus [of "n + e" 4] by simp_all
  have m1: "load32 m1 mbi = ?T" "load32 m1 (mbi + 4) = 0"
    using load32_same [OF same, of mbi] load32_same [OF same, of "mbi + 4"] E T u4 n(4) by simp_all
  have s2: "same_between m1 ?m2 0 (?E + unat n)"
    unfolding set_tag_size_def set_tag_type_def
    by (rule same_trans; rule same_store32) (use un n(4) in simp_all)
  have m2: "load32 ?m2 mbi = ?T" "load32 ?m2 (mbi + 4) = 0"
    using load32_same [OF s2, of mbi] load32_same [OF s2, of "mbi + 4"] m1 E T u4 n(4) by simp_all
  have t2: "tag_size (read_Info_Tag ?m2 e) = n"
    using read_tag_same [OF s2, of e] tag n by simp
  let ?m3 = "store32 ?m2 mbi (?T + n)"
  have run: "Multiboot_TerminateTag mbi e m1 = (True, ?m3)"
    using T n tag m1 m2 t2 by (auto simp: Multiboot_TerminateTag_def Let_def read_Info_Start_def unat_mod8 unat_gt_0)
  show "fst (Multiboot_TerminateTag mbi e m1)" using run by simp
  have s3: "same_between ?m2 ?m3 (?M + 4) (2 ^ 32)" by (rule same_store32) (use E T n in auto)
  show s: "same_between m1 (snd (Multiboot_TerminateTag mbi e m1)) (?M + 8) (?E + unat n)"
    unfolding run snd_conv by (rule same_trans [OF same_mono [OF s2] same_mono [OF s3]]) (use n(4) in simp_all)
  have u8: "unat (mbi + 8) = ?M + 8" using E T n unat_u32_plus [of mbi 8] by simp
  have uT: "unat (?T + n) = unat ?T + unat n" using E T n by (subst unat_u32_plus) auto
  show ta: "term_addr (snd (Multiboot_TerminateTag mbi e m1)) mbi = e + n"
    unfolding run snd_conv by (simp add: term_addr_def e)
  have chain: "tag_chain ?m3 (mbi + 8) ts e"
  proof (rule chain_same)
    show "tag_chain m (mbi + 8) ts e" using wf e by (simp add: mbi_wf_def)
    show "same_between m ?m3 (?M + 8) ?E"
      using same_trans [OF same_mono [OF same] same_mono [OF s]] run by simp
  qed (simp add: u8)
  have tag3: "read_Info_Tag ?m3 e = \<lparr>tag_type = t, tag_size = n\<rparr>"
    using read_tag_same [OF s [unfolded run snd_conv], of e] tag E T n by simp
  have end3: "read_Info_Tag ?m3 (e + n) = \<lparr>tag_type = 0, tag_size = 8\<rparr>"
  proof -
    have "read_Info_Tag ?m3 (n + e) = read_Info_Tag ?m2 (n + e)"
      by (rule read_tag_same [OF same_mono [OF s3 order.refl, of "?E + unat n + 8"]]) (use un E T n in auto)
    then show ?thesis using read_written_tag [of "n + e"] un n(4) by (simp add: add.commute)
  qed
  have "tag_chain ?m3 (mbi + 8) (ts @ [(t, n)]) (e + n)" using chain_snoc [OF chain tag3] n by simp
  moreover have "load32 ?m3 (mbi + 4) = 0" using load32_same [OF s3, of "mbi + 4"] m2 u4 T E n by simp
  ultimately show "mbi_wf (snd (Multiboot_TerminateTag mbi e m1)) mbi (ts @ [(t, n)])"
    using T n uT E ta end3 unfolding run snd_conv mbi_wf_def by (auto simp: mod_add_eq [symmetric])
qed

section \<open>An empty record\<close>

lemma CreateEmptyMBI_wf:
  assumes "unat mbi mod 8 = 0" "unat mbi + 16 < 2 ^ 32"
  shows "fst (Multiboot_CreateEmptyMBI mbi m)" and "mbi_wf (snd (Multiboot_CreateEmptyMBI mbi m)) mbi []"
proof -
  let ?m1 = "store32 (store32 m mbi 16) (mbi + 4) 0" and ?t = "mbi + 8"
  let ?m2 = "set_tag_size ?t 8 (set_tag_type ?t 0 ?m1)"
  have run: "Multiboot_CreateEmptyMBI mbi m = (True, ?m2)" using assms by (simp add: Multiboot_CreateEmptyMBI_def unat_mod8)
  then show "fst (Multiboot_CreateEmptyMBI mbi m)" by simp
  have u: "unat (mbi + 4) = unat mbi + 4" "unat ?t = unat mbi + 8" "unat (?t + 4) = unat mbi + 12"
    using assms unat_u32_plus [of mbi 4] unat_u32_plus [of mbi 8] unat_u32_plus [of mbi 12] by (simp_all add: add.assoc)
  have "same_between (store32 m mbi 16) ?m1 0 (unat mbi + 4)" by (rule same_store32) (use u assms in simp_all)
  then have l1: "load32 ?m1 mbi = 16" using load32_same [of "store32 m mbi 16" ?m1 0 "unat mbi + 4" mbi] assms by simp
  have s: "same_between ?m1 ?m2 0 (unat mbi + 8)"
    unfolding set_tag_size_def set_tag_type_def by (rule same_trans; rule same_store32) (use u assms in simp_all)
  have l2: "load32 ?m2 mbi = 16" "load32 ?m2 (mbi + 4) = 0"
    using load32_same [OF s, of mbi] load32_same [OF s, of "mbi + 4"] l1 u assms by simp_all
  moreover have "read_Info_Tag ?m2 ?t = \<lparr>tag_type = 0, tag_size = 8\<rparr>" by (rule read_written_tag) (use u assms in simp)
  moreover have "unat (load32 ?m2 mbi) = 16" "term_addr ?m2 mbi = ?t" using l2(1) by (simp_all add: term_addr_def)
  ultimately show "mbi_wf (snd (Multiboot_CreateEmptyMBI mbi m)) mbi []"
    using assms unfolding run snd_conv mbi_wf_def by (simp del: unsigned_numeral)
qed

section \<open>Saving the load address\<close>

lemma lookup_tag_append:
  "lookup_tag t p (ts @ us) = (case lookup_tag t p ts of Some q \<Rightarrow> Some q | None \<Rightarrow> lookup_tag t (p + sum_list (map snd ts)) us)"
  by (induction t p ts rule: lookup_tag.induct) (auto simp: add.assoc split: option.split)

lemma chain_end: "tag_chain m p ts e \<Longrightarrow> p + sum_list (map snd ts) = e"
  by (induction m p ts e rule: tag_chain.induct) (auto simp: add.assoc)

lemma SaveLoadBaseAddress_lemma:
  assumes wf: "mbi_wf m mbi ts" and new: "lookup_tag MULTIBOOT_TAG_TYPE_LOAD_BASE_ADDR (mbi + 8) ts = None"
    and room: "unat (term_addr m mbi) + 24 < 2 ^ 32"
  shows "\<exists>m'. Multiboot_SaveLoadBaseAddress mbi ki m = Some (True, m') \<and> mbi_wf m' mbi (ts @ [(MULTIBOOT_TAG_TYPE_LOAD_BASE_ADDR, 16)]) \<and>
     load32 m' (term_addr m mbi + 8) = k_start ki \<and> same_between m m' (unat mbi + 8) (unat (term_addr m mbi))"
proof -
  let ?e = "term_addr m mbi" and ?t = MULTIBOOT_TAG_TYPE_LOAD_BASE_ADDR
  let ?a = "set_tag_size ?e 16 (set_tag_type ?e ?t m)" let ?b = "store32 ?a (?e + 8) (k_start ki)" let ?c = "store32 ?b (?e + 12) 0"
  have t: "?t \<noteq> 0" by (simp add: MULTIBOOT_TAG_TYPE_LOAD_BASE_ADDR_def)
  have u: "unat (?e + 4) = unat ?e + 4" "unat (?e + 8) = unat ?e + 8" "unat (?e + 12) = unat ?e + 12"
    using room unat_u32_plus [of ?e 4] unat_u32_plus [of ?e 8] unat_u32_plus [of ?e 12] by simp_all
  have sa: "same_between m ?a 0 (unat ?e)"
    unfolding set_tag_size_def set_tag_type_def by (rule same_trans; rule same_store32) (use u room in simp_all)
  have sb: "same_between ?a ?b 0 (unat ?e + 8)" and sc: "same_between ?b ?c 0 (unat ?e + 12)"
    by (rule same_store32; use u room in simp)+
  have same: "same_between m ?c 0 (unat ?e)"
    using same_trans [OF sa same_trans [OF same_mono [OF sb] same_mono [OF sc]]] by simp
  have "read_Info_Tag ?c ?e = read_Info_Tag ?a ?e"
    using read_tag_same [OF sc, of ?e] read_tag_same [OF sb, of ?e] u room by simp
  then have tag: "read_Info_Tag ?c ?e = \<lparr>tag_type = ?t, tag_size = 16\<rparr>" using read_written_tag [of ?e] room by simp
  have n16: "unat (16 :: u32) = 16" "8 \<le> unat (16 :: u32)" "unat (16 :: u32) mod 8 = 0" "unat ?e + unat (16 :: u32) + 8 < 2 ^ 32"
    using room by simp_all
  note app = TerminateTag_appends [OF wf refl same_mono [OF same le0 order.refl] tag t n16(2-4), unfolded n16(1)]
  have base: "load32 ?c (?e + 8) = k_start ki" using load32_same [OF sc, of "?e + 8"] u room by simp
  have "?e \<noteq> MEMORY_NULL_PTR" using room by (auto simp: MEMORY_NULL_PTR_def)
  then have run: "Multiboot_SaveLoadBaseAddress mbi ki m = Some (True, snd (Multiboot_TerminateTag mbi ?e ?c))"
    using find_in_wf [OF wf t] new wf
    by (simp add: Multiboot_SaveLoadBaseAddress_def new_tag_def terminated_def mbi_wf_def)
  have "load32 (snd (Multiboot_TerminateTag mbi ?e ?c)) (?e + 8) = k_start ki"
    using load32_same [OF app(3), of "?e + 8"] base u room chain_le [of m "mbi + 8" ts ?e] wf unat_term_addr [OF wf]
    by (simp add: mbi_wf_def)
  moreover have "same_between m (snd (Multiboot_TerminateTag mbi ?e ?c)) (unat mbi + 8) (unat ?e)"
    using same_trans [OF same_mono [OF same] same_mono [OF app(3)]] room by simp
  ultimately show ?thesis using run app(2) room by auto
qed

section \<open>Modules\<close>

lemma copy_string_hangs:
  assumes "i < 240"
  shows "copy_string i dst src k m = None"
proof (cases "copy_string i dst src k m")
  case (Some y)
  then have "\<not> i < 240"
    by (rule copy_string.raw_induct [where P = "\<lambda>i dst src k m y. \<not> i < 240", rotated]) (auto split: if_splits)
  with assms show ?thesis by simp
qed

lemma save_module_not_done: "i < 240 \<Longrightarrow> save_module mbi_addr i p a n m \<noteq> Some (True, m')"
  by (auto simp: save_module_def new_tag_def copy_string_hangs bind_eq_Some_conv split: if_splits)

section \<open>Properties\<close>

text \<open>
  C37. Finding a tag ends and is right: in a well-formed record with the tags \<open>ts\<close>, looking for a type other than 0
  gives the address of the first tag of that type, or of the terminating tag when there is none.
\<close>

theorem Multiboot_FindMBITagAddress_correct:
  assumes "mbi_wf m mbi ts" "t \<noteq> 0"
  shows "Multiboot_FindMBITagAddress m mbi t = Some (case lookup_tag t (mbi + 8) ts of None \<Rightarrow> term_addr m mbi | Some p \<Rightarrow> p)"
  using assms by (rule find_in_wf)

definition empty_record :: memory where
  "empty_record = snd (Multiboot_CreateEmptyMBI 0x10000 (\<lambda>_. 0))"

lemma empty_record_wf: "mbi_wf empty_record 0x10000 []"
  unfolding empty_record_def by (rule CreateEmptyMBI_wf(2)) simp_all

lemma empty_record_term: "term_addr empty_record 0x10000 = 0x10008"
  using empty_record_wf by (simp add: mbi_wf_def)

theorem Multiboot_FindMBITagAddress_correct_witness:
  "Multiboot_FindMBITagAddress empty_record 0x10000 6 = Some 0x10008"
  using Multiboot_FindMBITagAddress_correct [OF empty_record_wf, of 6] by (simp add: empty_record_term)

text \<open>
  C38. Saving the load address is a round trip: on a well-formed record without that tag and with room for it, the
  function returns true, the record is well formed with the tag added at the end, the tag is found where the terminating
  tag was and holds the start address of the kernel, the bytes of the other tags are unchanged and each of them is
  still found where it was.
\<close>

theorem Multiboot_SaveLoadBaseAddress_roundtrip:
  assumes "mbi_wf m mbi ts" "lookup_tag MULTIBOOT_TAG_TYPE_LOAD_BASE_ADDR (mbi + 8) ts = None"
    and "unat (term_addr m mbi) + 24 < 2 ^ 32"
  shows "\<exists>m'. Multiboot_SaveLoadBaseAddress mbi ki m = Some (True, m') \<and>
     mbi_wf m' mbi (ts @ [(MULTIBOOT_TAG_TYPE_LOAD_BASE_ADDR, 16)]) \<and>
     Multiboot_FindMBITagAddress m' mbi MULTIBOOT_TAG_TYPE_LOAD_BASE_ADDR = Some (term_addr m mbi) \<and>
     load32 m' (term_addr m mbi + 8) = k_start ki \<and> same_between m m' (unat mbi + 8) (unat (term_addr m mbi)) \<and>
     (\<forall>t q. t \<noteq> 0 \<longrightarrow> lookup_tag t (mbi + 8) ts = Some q \<longrightarrow> Multiboot_FindMBITagAddress m' mbi t = Some q)"
proof -
  let ?t = MULTIBOOT_TAG_TYPE_LOAD_BASE_ADDR
  obtain m' where m': "Multiboot_SaveLoadBaseAddress mbi ki m = Some (True, m')" "mbi_wf m' mbi (ts @ [(?t, 16)])"
      "load32 m' (term_addr m mbi + 8) = k_start ki" "same_between m m' (unat mbi + 8) (unat (term_addr m mbi))"
    using SaveLoadBaseAddress_lemma [OF assms] by blast
  have t: "?t \<noteq> 0" by (simp add: MULTIBOOT_TAG_TYPE_LOAD_BASE_ADDR_def)
  have "mbi + 8 + sum_list (map snd ts) = term_addr m mbi" using assms(1) chain_end [of m] by (simp add: mbi_wf_def)
  then have "Multiboot_FindMBITagAddress m' mbi ?t = Some (term_addr m mbi)"
    using find_in_wf [OF m'(2) t] assms(2) by (simp add: lookup_tag_append)
  moreover have "Multiboot_FindMBITagAddress m' mbi t = Some q" if "t \<noteq> 0" "lookup_tag t (mbi + 8) ts = Some q" for t q
    using find_in_wf [OF m'(2) that(1)] that(2) by (simp add: lookup_tag_append)
  ultimately show ?thesis using m' by blast
qed

definition sample_kernel_info :: BootInfo_KernelInfo where
  "sample_kernel_info = \<lparr>boot_drive_ID = 0x80, boot_partition = 0, pnpbios_ptr = 0, blocklist_ptr = 0x9000, k_start = 0x200000, k_size = 0x1000,
     k_bss_size = 0, multiboot_header = 0, k_entry = 0x200000, file_addr = 0x100000, file_size = 0x1000\<rparr>"

theorem Multiboot_SaveLoadBaseAddress_roundtrip_witness:
  "\<exists>m'. Multiboot_SaveLoadBaseAddress 0x10000 sample_kernel_info empty_record = Some (True, m') \<and>
     Multiboot_FindMBITagAddress m' 0x10000 MULTIBOOT_TAG_TYPE_LOAD_BASE_ADDR = Some 0x10008 \<and> load32 m' 0x10010 = 0x200000"
proof -
  have "unat (term_addr empty_record 0x10000) + 24 < 2 ^ 32" by (simp add: empty_record_term)
  from Multiboot_SaveLoadBaseAddress_roundtrip [OF empty_record_wf _ this, of sample_kernel_info]
  show ?thesis by (auto simp: empty_record_term sample_kernel_info_def)
qed

text \<open>
  C40. A module is never loaded: when an entry of the block list describes a module of non-zero size, handling it
  fails or does not end, but never goes on to the next entry, because the condition of the loop that copies its string is
  on the index of the block list instead of the index of the string.
\<close>

theorem Multiboot_LoadModules_never_completes:
  assumes "i < BLOCKLIST_MAXBLOCKS128" "bl_jump (read_BlockList m p) = 0x9001FDE9" "\<not> kernel_marker m p" "module_size m p \<noteq> 0"
  shows "\<not> (\<exists>st. module_body bios fr mbi_addr ki page_align mmap mmap_size i p (mod_addr, m) = Some (True, st))"
proof -
  have "i < 240" using assms(1) by (simp add: BLOCKLIST_MAXBLOCKS128_def)
  then show ?thesis using assms(2-4) by (auto simp: module_body_def Let_def save_module_not_done split: prod.splits if_splits)
qed

definition sample_module :: memory where
  "sample_module = store32 (store16 (store32 (\<lambda>_. 0) 0x8000 0x9001FDE9) 0x800C 0x200) 0x801C 1"

theorem Multiboot_LoadModules_never_completes_witness:
  "\<not> (\<exists>st. module_body (\<lambda>_ r m. (r, m)) \<lparr>at_geom = 0x500, at_dap = 0x600, DiskIO_LowMemoryBuffer = 0x700, at_blocklist = 0x8000,
       at_mode_info = 0x9000, uninitialised_mode = 0\<rparr> 0x10000 sample_kernel_info False 0x20000 1 0 0x8000 (0, sample_module) = Some (True, st))"
proof (rule Multiboot_LoadModules_never_completes)
  show "0 < BLOCKLIST_MAXBLOCKS128" by (simp add: BLOCKLIST_MAXBLOCKS128_def)
  show "bl_jump (read_BlockList sample_module 0x8000) = 0x9001FDE9" by code_simp
  show "\<not> kernel_marker sample_module 0x8000" by code_simp
  show "module_size sample_module 0x8000 \<noteq> 0" by code_simp
qed

end
