(* ===== verification/AVOS_Physmem_Init.thy ===== *)
theory AVOS_Physmem_Init
  imports AVOS_Physmem_Correct
begin

text \<open>
  How the allocator gets its invariant: \<open>Page_MapMemoryChunk\<close> cuts a chunk of memory into blocks and
  adds them to the lists, and \<open>Page_BuddyMaps_Initialize\<close> does so for every entry of the memory map. Chunks
  are counted in page frames here: \<open>n\<close> frames from frame \<open>a\<close> on.
\<close>

section \<open>Adding one block\<close>

lemma bits_ok_set: "bits_ok M F \<Longrightarrow> bits_ok (map_set M k (q div 2)) (F(k := q # F k))"
  unfolding bits_ok_def map_bit_set using div_2_eq_iff [of q] by auto

text \<open>
  What mapping does: from \<open>s\<close>, which represents the lists \<open>F\<close>, to \<open>s'\<close>, which represents \<open>F'\<close>, the frames
  \<open>A\<close> have become free, in blocks inside \<open>A\<close>; nothing but free pages was written to.
\<close>

definition grown :: "'a physmem_scheme \<Rightarrow> free_lists \<Rightarrow> nat set \<Rightarrow> 'a physmem_scheme \<Rightarrow> free_lists \<Rightarrow> bool" where
  "grown s F A s' F' \<longleftrightarrow>
     page_inv s' F' \<and> free_frames F' = free_frames F \<union> A \<and>
     (\<forall>k q. q \<in> set (F' k) \<longrightarrow> q \<in> set (F k) \<or> blk k q \<subseteq> A) \<and>
     same_outside (free_frames F \<union> A) (mem s) (mem s') \<and>
     Page_operation_lock s' = Page_operation_lock s \<and> cpu s' = cpu s"

lemma grown_refl: "page_inv s F \<Longrightarrow> grown s F {} s F"
  by (simp add: grown_def)

lemma grown_trans: "grown s F A s1 F1 \<Longrightarrow> grown s1 F1 B s2 F2 \<Longrightarrow> grown s F (A \<union> B) s2 F2"
  unfolding grown_def by (auto simp: Un_assoc elim: same_outside_trans) blast

lemma blk_addr_pair:
  assumes "k \<le> PAGE_MAX_ORDER" "q < NUM_FRAMES div 2 ^ k"
  shows "unat (blk_addr k q) div 2 ^ (13 + k) = q div 2"
proof -
  have "unat (blk_addr k q) div 2 ^ (12 + k) = q" using unat_blk_addr [OF assms] by simp
  then show ?thesis using div_Suc_power [of "unat (blk_addr k q)" "12 + k"] by simp
qed

lemma add_block:
  assumes inv: "page_inv s F" and k: "k \<le> PAGE_MAX_ORDER" "q < NUM_FRAMES div 2 ^ k" and fresh: "blk k q \<inter> free_frames F = {}"
    and nobuddy: "k < PAGE_MAX_ORDER \<Longrightarrow> buddy q \<notin> set (F k)"
  shows "\<exists>s'. PAGE_MAP_SETBIT (page_list_push s k (blk_ptr k q)) (blk_addr k q) k = Inr s' \<and>
     grown s F (blk k q) s' (F(k := q # F k))"
proof -
  let ?p = "page_list_push s k (blk_ptr k q)"
  have same: "Page_maps ?p = Page_maps s" "Page_operation_lock ?p = Page_operation_lock s" "cpu ?p = cpu s"
    by (simp_all add: page_list_push_def Let_def)
  have bi: "buddy_inv F" and li: "lists_ok (mem s) (Page_lists s) F" and bo: "bits_ok (Page_maps s) F"
    using inv by (auto simp: page_inv_def)
  note push = push_ok [OF bi li k fresh]
  have "PAGE_MAP_SETBIT ?p (blk_addr k q) k = Inr (?p\<lparr>Page_maps := map_set (Page_maps s) k (q div 2)\<rparr>)"
    using SETBIT_eq [OF k(1) unat_blk_addr_less [OF k], of ?p] blk_addr_pair [OF k] same by simp
  moreover have "grown s F (blk k q) (?p\<lparr>Page_maps := map_set (Page_maps s) k (q div 2)\<rparr>) (F(k := q # F k))"
    using push buddy_inv_add [OF bi k fresh nobuddy] bits_ok_set [OF bo] free_frames_add [OF k(1), of "q # F k" q F] same
    by (auto simp: grown_def page_inv_def)
  ultimately show ?thesis by blast
qed

section \<open>The blocks in the middle of a chunk\<close>

lemma PAGE_SIZE_of_nat: "PAGE_SIZE_AT_ORDER k = of_nat (2 ^ (12 + k))"
  by (simp add: PAGE_SIZE_AT_ORDER_def kernel_consts push_bit_eq_mult power_add)

lemma blk_addr_step: "blk_addr k c + of_nat i * PAGE_SIZE_AT_ORDER k = blk_addr k (c + i)"
proof -
  have "blk_addr k c + of_nat i * PAGE_SIZE_AT_ORDER k = of_nat (c * 2 ^ k * 4096 + i * 2 ^ (12 + k))"
    by (simp only: blk_addr_def frame_addr_def PAGE_SIZE_of_nat of_nat_mult of_nat_add)
  also have "c * 2 ^ k * 4096 + i * 2 ^ (12 + k) = (c + i) * 2 ^ k * 4096" by (simp add: power_add algebra_simps)
  finally show ?thesis by (simp only: blk_addr_def frame_addr_def)
qed

lemma of_nat_u32_less: "i < 2 ^ 32 \<Longrightarrow> N < 2 ^ 32 \<Longrightarrow> (of_nat i :: u32) < of_nat N \<longleftrightarrow> i < N"
  by (simp add: word_less_nat_alt unat_of_nat)

lemma blk_notin: "q \<noteq> q' \<Longrightarrow> blk k q \<inter> A = {} \<Longrightarrow> blk k q \<inter> (A \<union> blk k q') = {}"
  using blk_disjoint by blast

lemma map_central_ok:
  assumes "page_inv s F" "k \<le> PAGE_MAX_ORDER" "c + i \<le> NUM_FRAMES div 2 ^ k" "i \<le> N" "N < 2 ^ 32"
    and "\<And>q. c \<le> q \<Longrightarrow> q < c + i \<Longrightarrow> blk k q \<inter> free_frames F = {}"
    and "\<And>q. k < PAGE_MAX_ORDER \<Longrightarrow> c \<le> q \<Longrightarrow> q < c + i \<Longrightarrow> i = 1 \<and> buddy q \<notin> set (F k)"
  shows "\<exists>s'. map_central s (blk_addr k c) (of_nat N) k (of_nat (N - i)) = Inr s' \<and>
     grown s F (\<Union>q \<in> {c..<c + i}. blk k q) s' (F(k := [c..<c + i] @ F k))"
  using assms
proof (induction i arbitrary: s F)
  case 0
  then show ?case by (subst map_central.simps) (simp add: grown_refl)
next
  case (Suc i)
  let ?q = "c + i" and ?n = "of_nat N :: u32" and ?j = "of_nat (N - Suc i) :: u32"
  have lt: "?j < ?n" using Suc.prems(4,5) by (subst of_nat_u32_less) auto
  have "?n - 1 - ?j = of_nat (N - 1 - (N - Suc i))" using Suc.prems(4) by (simp add: of_nat_diff)
  then have idx: "?n - 1 - ?j = of_nat i" using Suc.prems(4) by simp
  have nxt: "?j + 1 = of_nat (N - i)" using Suc.prems(4) by (simp add: of_nat_diff)
  have nobuddy: "k < PAGE_MAX_ORDER \<Longrightarrow> buddy ?q \<notin> set (F k)" using Suc.prems(7) [of ?q] by auto
  obtain s1 where s1: "PAGE_MAP_SETBIT (page_list_push s k (blk_ptr k ?q)) (blk_addr k ?q) k = Inr s1"
      "grown s F (blk k ?q) s1 (F(k := ?q # F k))"
    using add_block [OF Suc.prems(1,2) _ _ nobuddy] Suc.prems(3,6) by auto
  let ?F1 = "F(k := ?q # F k)"
  have free: "free_frames ?F1 = free_frames F \<union> blk k ?q" and inv1: "page_inv s1 ?F1" using s1(2) by (auto simp: grown_def)
  have "\<exists>s'. map_central s1 (blk_addr k c) ?n k (of_nat (N - i)) = Inr s' \<and>
      grown s1 ?F1 (\<Union>q \<in> {c..<c + i}. blk k q) s' (?F1(k := [c..<c + i] @ ?F1 k))"
  proof (rule Suc.IH [OF inv1 Suc.prems(2) _ _ Suc.prems(5)])
    show "blk k q \<inter> free_frames ?F1 = {}" if "c \<le> q" "q < c + i" for q
      unfolding free using that Suc.prems(6) [of q] by (intro blk_notin) auto
    show "i = 1 \<and> buddy q \<notin> set (?F1 k)" if "k < PAGE_MAX_ORDER" "c \<le> q" "q < c + i" for q
      using Suc.prems(7) [of q] that by simp
  qed (use Suc.prems in simp_all)
  then obtain s' where s': "map_central s1 (blk_addr k c) ?n k (of_nat (N - i)) = Inr s'"
      "grown s1 ?F1 (\<Union>q \<in> {c..<c + i}. blk k q) s' (?F1(k := [c..<c + i] @ ?F1 k))" by blast
  have "(\<Union>q \<in> {c..<c + Suc i}. blk k q) = blk k ?q \<union> (\<Union>q \<in> {c..<c + i}. blk k q)"
    by (simp add: atLeastLessThanSuc)
  moreover have "?F1(k := [c..<c + i] @ ?F1 k) = F(k := [c..<c + Suc i] @ F k)" by simp
  ultimately have "grown s F (\<Union>q \<in> {c..<c + Suc i}. blk k q) s' (F(k := [c..<c + Suc i] @ F k))"
    using grown_trans [OF s1(2) s'(2)] by simp
  moreover have "map_central s (blk_addr k c) ?n k ?j = Inr s'"
    using lt s1(1) s'(1) by (subst map_central.simps) (simp add: idx nxt blk_addr_step Let_def)
  ultimately show ?case by blast
qed

section \<open>Cutting a chunk\<close>

text \<open>The order of the largest blocks of a chunk of \<open>n\<close> frames.\<close>

lemma chunk_max_order_frames:
  assumes "0 < n" "n < 2 ^ 20"
  defines "K \<equiv> chunk_max_order (of_nat (n * 4096))"
  shows "K \<le> PAGE_MAX_ORDER" and "2 ^ K \<le> n" and "K < PAGE_MAX_ORDER \<Longrightarrow> n < 2 ^ Suc K"
proof -
  have le: "PAGE_SIZE_AT_ORDER i \<le> of_nat (n * 4096) \<longleftrightarrow> 2 ^ i \<le> n" if "i \<le> PAGE_MAX_ORDER" for i
  proof -
    have "(2 :: nat) ^ i \<le> 2 ^ 10" using that by (intro power_increasing) (simp_all add: PAGE_MAX_ORDER_def)
    then have "unat (PAGE_SIZE_AT_ORDER i) = 2 ^ i * 4096" by (simp add: PAGE_SIZE_of_nat power_add unat_of_nat del: of_nat_mult)
    moreover have "unat (of_nat (n * 4096) :: u32) = n * 4096" using assms(2) by (simp add: unat_of_nat del: of_nat_mult)
    ultimately show ?thesis by (simp add: word_le_nat_alt del: of_nat_mult)
  qed
  have "K \<le> j \<and> 2 ^ K \<le> n \<and> (K < j \<longrightarrow> n < 2 ^ Suc K)"
    if "j \<le> PAGE_MAX_ORDER" "K = fold (\<lambda>i K. if PAGE_SIZE_AT_ORDER i \<le> of_nat (n * 4096) then i else K) [0..<j + 1] 0" for j K
    using that
  proof (induction j arbitrary: K)
    case 0
    then show ?case using assms(1) by (auto simp: le)
  next
    case (Suc j)
    let ?f = "\<lambda>i K. if PAGE_SIZE_AT_ORDER i \<le> of_nat (n * 4096) then i else K"
    let ?K = "fold ?f [0..<j + 1] 0"
    have IH: "?K \<le> j \<and> 2 ^ ?K \<le> n \<and> (?K < j \<longrightarrow> n < 2 ^ Suc ?K)" by (rule Suc.IH) (use Suc.prems in auto)
    have "K = ?f (Suc j) ?K" using Suc.prems(2) by simp
    then have "K = (if 2 ^ Suc j \<le> n then Suc j else ?K)" using le [OF Suc.prems(1)] by simp
    then show ?case using IH by (auto simp: not_le le_less)
  qed
  from this [OF order.refl, of K] show "K \<le> PAGE_MAX_ORDER" "2 ^ K \<le> n" "K < PAGE_MAX_ORDER \<Longrightarrow> n < 2 ^ Suc K"
    by (auto simp: K_def chunk_max_order_def)
qed

text \<open>Arithmetic on words that are small natural numbers.\<close>

lemma u32_mod: "X < 2 ^ 32 \<Longrightarrow> Y < 2 ^ 32 \<Longrightarrow> (of_nat X :: u32) mod of_nat Y = of_nat (X mod Y)"
  by (rule word_unat_eq_iff [THEN iffD2])
    (simp only: unat_mod unat_u32_of_nat order.strict_trans1 [OF mod_less_eq_dividend])

lemma u32_div: "X < 2 ^ 32 \<Longrightarrow> Y < 2 ^ 32 \<Longrightarrow> (of_nat X :: u32) div of_nat Y = of_nat (X div Y)"
  by (rule word_unat_eq_iff [THEN iffD2])
    (simp only: unat_div unat_u32_of_nat order.strict_trans1 [OF div_le_dividend])

lemma ucast_down_of_nat: "X < 2 ^ 64 \<Longrightarrow> (ucast (of_nat X :: u64) :: u32) = of_nat X"
  by (rule word_unat_eq_iff [THEN iffD2]) (simp add: unsigned_ucast_eq unat_of_nat take_bit_eq_mod)

lemma ucast_up_of_nat: "X < 2 ^ 32 \<Longrightarrow> (ucast (of_nat X :: u32) :: u64) = of_nat X"
  by (rule word_unat_eq_iff [THEN iffD2]) (simp add: unsigned_ucast_eq unat_of_nat take_bit_eq_mod)

lemma and_not_size: "(x :: u32) AND NOT (PAGE_SIZE_AT_ORDER k - 1) = push_bit (12 + k) (drop_bit (12 + k) x)"
proof -
  have "PAGE_SIZE_AT_ORDER k - 1 = mask (12 + k)" by (simp add: PAGE_SIZE_AT_ORDER_def kernel_consts mask_eq_exp_minus_1 push_bit_eq_mult)
  then show ?thesis by (intro bit_word_eqI) (auto simp: bit_simps)
qed

lemma round_down:
  assumes "X < 2 ^ 32"
  shows "(of_nat X :: u32) AND NOT (PAGE_SIZE_AT_ORDER k - 1) = of_nat (X div 2 ^ (12 + k) * 2 ^ (12 + k))"
proof -
  have "unat (drop_bit (12 + k) (of_nat X :: u32)) = drop_bit (12 + k) X"
    by (simp only: unat_drop_bit_eq unat_u32_of_nat [OF assms])
  then have "drop_bit (12 + k) (of_nat X :: u32) = of_nat (X div 2 ^ (12 + k))"
    by (intro word_unat_eq_iff [THEN iffD2])
      (simp only: drop_bit_eq_div [of _ X] unat_u32_of_nat [OF order.strict_trans1 [OF div_le_dividend assms]])
  then show ?thesis unfolding and_not_size by (simp only: push_bit_eq_mult of_nat_mult of_nat_power of_nat_numeral)
qed

text \<open>The frames below the first boundary of a size \<open>S\<close>, and the two boundaries of the middle part.\<close>

definition low_part :: "nat \<Rightarrow> nat \<Rightarrow> nat" where
  "low_part a S = (if a mod S = 0 then 0 else S - a mod S)"

definition low_cut :: "nat \<Rightarrow> nat \<Rightarrow> nat" where
  "low_cut a S = (a + low_part a S) div S"

lemma low_cut:
  assumes "0 < S"
  shows "low_cut a S * S = a + low_part a S" and "low_part a S < S"
proof -
  have d: "a div S * S + a mod S = a" "a mod S < S" using assms by simp_all
  have "a + low_part a S = (if a mod S = 0 then a div S else a div S + 1) * S"
    using d unfolding low_part_def by (cases "a mod S = 0") (simp_all only: if_True if_False simp_thms add_mult_distrib; linarith)+
  then show "low_cut a S * S = a + low_part a S" using assms by (simp add: low_cut_def)
  show "low_part a S < S" using assms by (simp add: low_part_def)
qed

lemma low_cut_top:
  assumes "0 < S" "S \<le> n"
  shows "low_cut a S \<le> (a + n) div S"
proof -
  have "low_cut a S * S \<le> a + n" using low_cut [OF assms(1), of a] assms(2) by linarith
  then show ?thesis using assms(1) by (simp add: less_eq_div_iff_mult_less_eq)
qed

lemma frames_u32: "(x :: nat) < 2 ^ 20 \<Longrightarrow> x * 4096 < 2 ^ 32"
  by simp

lemma chunk_guards:
  assumes "256 \<le> a" "0 < n" "a < NUM_FRAMES" "a + n < 2 ^ 20"
  shows "(of_nat (n * 4096) :: u64) \<noteq> 0" and "\<not> (of_nat (a * 4096) :: u64) < ucast (KERNEL_MMAP_LOWMEM_END - KERNEL_HIGHER_HALF_OFFSET)"
    and "\<not> (of_nat (a * 4096) :: u64) \<ge> ucast (KERNEL_MMAP_VIRTUAL_END - KERNEL_HIGHER_HALF_OFFSET)"
    and "\<not> (of_nat (a * 4096) :: u64) + of_nat (n * 4096) > 0x100000000"
proof -
  have u: "unat (of_nat (n * 4096) :: u64) = n * 4096" "unat (of_nat (a * 4096) :: u64) = a * 4096"
      "unat (of_nat ((a + n) * 4096) :: u64) = (a + n) * 4096"
    using assms(4) by (intro unat_u64_of_nat; simp)+
  have s: "(of_nat (a * 4096) :: u64) + of_nat (n * 4096) = of_nat ((a + n) * 4096)" by (simp only: of_nat_add [symmetric] add_mult_distrib)
  show "(of_nat (n * 4096) :: u64) \<noteq> 0" using u(1) assms(2) by (metis unat_0 mult_is_0 neq0_conv zero_neq_numeral)
  show "\<not> (of_nat (a * 4096) :: u64) < ucast (KERNEL_MMAP_LOWMEM_END - KERNEL_HIGHER_HALF_OFFSET)"
    "\<not> (of_nat (a * 4096) :: u64) \<ge> ucast (KERNEL_MMAP_VIRTUAL_END - KERNEL_HIGHER_HALF_OFFSET)"
    unfolding word_less_nat_alt word_le_nat_alt u(2) using assms by (simp_all add: kernel_consts NUM_FRAMES_def)
  show "\<not> (of_nat (a * 4096) :: u64) + of_nat (n * 4096) > 0x100000000"
    unfolding s word_less_nat_alt u(3) using assms(4) by simp
qed

text \<open>One level of the recursion in frames.\<close>

text \<open>The part below the first block boundary, and the number of blocks between two boundaries, as the code computes them.\<close>

lemma low_skim:
  assumes "2 ^ K * 4096 < (2 :: nat) ^ 32" "a * 4096 < 2 ^ 32"
  defines "P \<equiv> PAGE_SIZE_AT_ORDER K"
  shows "(if (of_nat (a * 4096) :: u32) mod P = 0 then 0 else P - (of_nat (a * 4096) :: u32) mod P) = of_nat (low_part a (2 ^ K) * 4096)"
proof -
  let ?S = "(2 :: nat) ^ K"
  have P: "P = of_nat (?S * 4096)" by (simp add: P_def PAGE_SIZE_of_nat power_add mult.commute)
  have m: "(of_nat (a * 4096) :: u32) mod P = of_nat (a mod ?S * 4096)"
    unfolding P using u32_mod [OF assms(2,1)] by (simp only: mult_mod_left)
  have "a mod ?S * 4096 < 2 ^ 32" by (rule order.strict_trans [OF _ assms(1)]) simp
  then have z: "(of_nat (a mod ?S * 4096) :: u32) = 0 \<longleftrightarrow> a mod ?S = 0"
    using unat_u32_of_nat [of "a mod ?S * 4096"] by (metis mult_is_0 of_nat_0 unat_0 zero_neq_numeral)
  show ?thesis
  proof (cases "a mod ?S = 0")
    case False
    have "a mod ?S * 4096 \<le> ?S * 4096" by (intro mult_le_mono1 less_imp_le) simp
    then show ?thesis
      unfolding m z low_part_def unfolding P using False by (simp only: if_False of_nat_diff diff_mult_distrib)
  qed (simp add: m z low_part_def del: of_nat_mult)
qed

lemma central_count:
  assumes "2 ^ K * 4096 < (2 :: nat) ^ 32" "t * 2 ^ K * 4096 < 2 ^ 32" "c \<le> t"
  shows "((of_nat (t * 2 ^ K * 4096) :: u32) - blk_addr K c) div PAGE_SIZE_AT_ORDER K = of_nat (t - c)"
proof -
  let ?S = "(2 :: nat) ^ K"
  have P: "PAGE_SIZE_AT_ORDER K = of_nat (?S * 4096)" by (simp add: PAGE_SIZE_of_nat power_add mult.commute)
  have "(of_nat (t * ?S * 4096) :: u32) - blk_addr K c = of_nat ((t - c) * (?S * 4096))"
    unfolding blk_addr_def frame_addr_def using assms(3)
    by (subst of_nat_diff [symmetric]) (simp_all only: diff_mult_distrib mult_le_mono1 mult.assoc)
  moreover have "(t - c) * (?S * 4096) < 2 ^ 32"
    by (rule order.strict_trans1 [OF _ assms(2)]) (simp add: diff_mult_distrib le_diff_conv mult.assoc [symmetric])
  ultimately show ?thesis
    unfolding P using u32_div [OF _ assms(1), of "(t - c) * (?S * 4096)"] by (simp only: nonzero_mult_div_cancel_right) simp
qed

lemma MapMemoryChunk_step:
  assumes "256 \<le> a" "0 < n" "a < NUM_FRAMES" "a + n < 2 ^ 20"
  defines "K \<equiv> chunk_max_order (of_nat (n * 4096))"
  defines "c \<equiv> low_cut a (2 ^ K)" and "t \<equiv> (a + n) div 2 ^ K"
  shows "Page_MapMemoryChunk (Suc fuel) s (of_nat (a * 4096)) (of_nat (n * 4096)) =
     res_bind (Page_MapMemoryChunk fuel s (of_nat (t * 2 ^ K * 4096)) (of_nat ((a + n - t * 2 ^ K) * 4096))) (\<lambda>s1.
     res_bind (map_central s1 (blk_addr K c) (of_nat (t - c)) K 0) (\<lambda>s2.
     Page_MapMemoryChunk fuel s2 (of_nat (a * 4096)) (of_nat (low_part a (2 ^ K) * 4096))))"
proof -
  let ?S = "(2 :: nat) ^ K" and ?P = "PAGE_SIZE_AT_ORDER K"
  have K: "K \<le> PAGE_MAX_ORDER" "?S \<le> n" using chunk_max_order_frames [OF assms(2)] assms(4) by (auto simp: K_def)
  have ct: "c \<le> t" unfolding c_def t_def by (rule low_cut_top) (use K in simp_all)
  have c: "c * ?S = a + low_part a ?S" "low_part a ?S < ?S" unfolding c_def by (rule low_cut; simp)+
  have t: "t * ?S \<le> a + n" by (simp add: t_def)
  have P: "?P = of_nat (?S * 4096)" by (simp add: PAGE_SIZE_of_nat power_add mult.commute)
  have lt: "?S * 4096 < 2 ^ 32" "a * 4096 < 2 ^ 32" "n * 4096 < 2 ^ 32" "(a + n) * 4096 < 2 ^ 32"
    using K assms(4) by (intro frames_u32; simp)+
  have b: "(ucast (of_nat (a * 4096) :: u64) :: u32) = of_nat (a * 4096)" "(ucast (of_nat (n * 4096) :: u64) :: u32) = of_nat (n * 4096)"
    using lt by (intro ucast_down_of_nat; simp)+
  note low = low_skim [OF lt(1,2)]
  have sum: "(of_nat (a * 4096) :: u32) + of_nat (n * 4096) = of_nat ((a + n) * 4096)" by (simp only: of_nat_add [symmetric] add_mult_distrib)
  have top: "(of_nat ((a + n) * 4096) :: u32) AND NOT (?P - 1) = of_nat (t * ?S * 4096)"
  proof -
    have "(2 :: nat) ^ (12 + K) = ?S * 4096" by (simp add: power_add)
    moreover have "(a + n) * 4096 div (?S * 4096) = t" unfolding t_def by (rule div_mult_mult2) simp
    ultimately show ?thesis using round_down [OF lt(4), of K] by (simp only: mult.assoc)
  qed
  have tsz: "(of_nat ((a + n) * 4096) :: u32) - of_nat (t * ?S * 4096) = of_nat ((a + n - t * ?S) * 4096)"
    using t by (subst of_nat_diff [symmetric]) (simp_all only: diff_mult_distrib mult_le_mono1)
  have central: "(of_nat (a * 4096) :: u32) + of_nat (low_part a ?S * 4096) = blk_addr K c"
    unfolding blk_addr_def frame_addr_def c(1) by (simp only: of_nat_add [symmetric] add_mult_distrib)
  have "t * ?S * 4096 < 2 ^ 32" by (rule order.strict_trans1 [OF _ lt(4)]) (use t in simp)
  note cnt = central_count [OF lt(1) this ct]
  have up: "(ucast (of_nat (x * 4096) :: u32) :: u64) = of_nat (x * 4096)" if "x \<le> a + n" for x
    by (rule ucast_up_of_nat, rule frames_u32) (use that assms(4) in simp)
  have ups: "(ucast (of_nat (t * ?S * 4096) :: u32) :: u64) = of_nat (t * ?S * 4096)"
      "(ucast (of_nat ((a + n - t * ?S) * 4096) :: u32) :: u64) = of_nat ((a + n - t * ?S) * 4096)"
      "(ucast (of_nat (a * 4096) :: u32) :: u64) = of_nat (a * 4096)"
      "(ucast (of_nat (low_part a ?S * 4096) :: u32) :: u64) = of_nat (low_part a ?S * 4096)"
    using t c(2) K(2) by (intro up; linarith)+
  note g = chunk_guards [OF assms(1-4)]
  show ?thesis
    unfolding Page_MapMemoryChunk.simps Let_def
    by (simp only: g if_False b K_def [symmetric] low sum top tsz central cnt ups)
qed

section \<open>Mapping a chunk\<close>

text \<open>No block inside the frames \<open>A\<close> has a buddy that is free already.\<close>

definition no_conflict :: "free_lists \<Rightarrow> nat set \<Rightarrow> bool" where
  "no_conflict F A \<longleftrightarrow> (\<forall>k q. k < PAGE_MAX_ORDER \<longrightarrow> blk k q \<subseteq> A \<longrightarrow> buddy q \<notin> set (F k))"

lemma no_conflict_mono: "no_conflict F A \<Longrightarrow> B \<subseteq> A \<Longrightarrow> no_conflict F B"
  unfolding no_conflict_def by blast

lemma blk_subset_card: "blk k q \<subseteq> {a..<b} \<Longrightarrow> 2 ^ k \<le> b - a"
  using card_mono [of "{a..<b}" "blk k q"] by (simp add: blk_interval algebra_simps)

lemma blks_interval: "c \<le> t \<Longrightarrow> (\<Union>q \<in> {c..<t}. blk k q) = {c * 2 ^ k ..< t * 2 ^ k}"
proof (induction t rule: dec_induct)
  case (step j)
  have "c * 2 ^ k \<le> j * 2 ^ k" using step.hyps by simp
  then have join: "{c * 2 ^ k..<j * 2 ^ k} \<union> {j * 2 ^ k..<Suc j * 2 ^ k} = {c * 2 ^ k..<Suc j * 2 ^ k}" by (intro ivl_disj_un_two) simp_all
  have "{c..<Suc j} = insert j {c..<j}" using step.hyps by auto
  moreover have "blk k j = {j * 2 ^ k ..< Suc j * 2 ^ k}" by (simp add: blk_interval add.commute)
  ultimately show ?case using step.IH join by (simp only: UN_insert Un_commute)
qed simp

text \<open>A block below a boundary of order \<open>K\<close> and its buddy are on the same side of it.\<close>

lemma buddy_same_side:
  assumes "k < K" "blk k q \<subseteq> {..<c * 2 ^ K}" "blk k (buddy q) \<subseteq> {c * 2 ^ K..}"
  shows False
proof -
  let ?x = "q * 2 ^ k" and ?y = "buddy q * 2 ^ k"
  obtain d where K: "K = Suc k + d" using assms(1) by (metis less_iff_Suc_add add_Suc_shift add.commute add_Suc)
  have "?x div 2 ^ Suc k = ?y div 2 ^ Suc k" by (simp only: div_Suc_power) simp
  then have "?x div 2 ^ K = ?y div 2 ^ K" by (simp only: K power_add div_mult2_eq)
  moreover have "?x < c * 2 ^ K" "c * 2 ^ K \<le> ?y" using assms(2,3) blk_nonempty by auto
  then have "?x div 2 ^ K < c" "c \<le> ?y div 2 ^ K" by (simp_all add: less_mult_imp_div_less less_eq_div_iff_mult_less_eq)
  ultimately show False by simp
qed

lemma no_conflict_grown:
  assumes "no_conflict F A" "grown s F B s' F'" "\<And>k q. k < PAGE_MAX_ORDER \<Longrightarrow> blk k q \<subseteq> A \<Longrightarrow> \<not> blk k (buddy q) \<subseteq> B"
  shows "no_conflict F' A"
  using assms unfolding no_conflict_def grown_def by blast

text \<open>Blocks freed above a boundary of order \<open>K\<close> do not conflict with smaller blocks below it.\<close>

lemma no_conflict_above:
  assumes "no_conflict F {a..<c * 2 ^ K}" "grown s F B s' F'" "B \<subseteq> {c * 2 ^ K..<b}" "c * 2 ^ K - a < 2 ^ K \<or> b - c * 2 ^ K < 2 ^ K"
  shows "no_conflict F' {a..<c * 2 ^ K}"
proof (rule no_conflict_grown [OF assms(1,2)])
  fix k q
  assume q: "blk k q \<subseteq> {a..<c * 2 ^ K}"
  show "\<not> blk k (buddy q) \<subseteq> B"
  proof
    assume "blk k (buddy q) \<subseteq> B"
    then have b: "blk k (buddy q) \<subseteq> {c * 2 ^ K..<b}" using assms(3) by blast
    have "(2 :: nat) ^ k < 2 ^ K" using blk_subset_card [OF q] blk_subset_card [OF b] assms(4) by linarith
    then have "k < K" by simp
    then show False by (rule buddy_same_side [of k K q c]) (use q b in \<open>auto simp: subset_iff\<close>)
  qed
qed

text \<open>The middle part, which is one block unless the blocks have the largest order.\<close>

lemma map_mid:
  assumes "page_inv s F" "K \<le> PAGE_MAX_ORDER" "c \<le> t" "t * 2 ^ K \<le> NUM_FRAMES" "{c * 2 ^ K..<t * 2 ^ K} \<inter> free_frames F = {}"
    and "K < PAGE_MAX_ORDER \<Longrightarrow> t \<le> Suc c" "no_conflict F {c * 2 ^ K..<t * 2 ^ K}"
  shows "\<exists>s' F'. map_central s (blk_addr K c) (of_nat (t - c)) K 0 = Inr s' \<and> grown s F {c * 2 ^ K..<t * 2 ^ K} s' F'"
proof -
  have eq: "(\<Union>q \<in> {c..<c + (t - c)}. blk K q) = {c * 2 ^ K..<t * 2 ^ K}" using blks_interval assms(3) by simp
  have sub: "blk K q \<subseteq> {c * 2 ^ K..<t * 2 ^ K}" if "c \<le> q" "q < c + (t - c)" for q
    unfolding eq [symmetric] using that by (intro UN_upper) simp
  have "t \<le> NUM_FRAMES div 2 ^ K" using assms(4) by (simp add: less_eq_div_iff_mult_less_eq)
  then have "\<exists>s'. map_central s (blk_addr K c) (of_nat (t - c)) K (of_nat (t - c - (t - c))) = Inr s' \<and>
      grown s F (\<Union>q \<in> {c..<c + (t - c)}. blk K q) s' (F(K := [c..<c + (t - c)] @ F K))"
  proof (intro map_central_ok [OF assms(1,2)])
    have "t \<le> NUM_FRAMES" using assms(4) by (metis le_trans mult.right_neutral mult_le_mono2 one_le_power one_le_numeral)
    then show "t - c < 2 ^ 32" by (simp add: NUM_FRAMES_def)
    show "blk K q \<inter> free_frames F = {}" if "c \<le> q" "q < c + (t - c)" for q using sub [OF that] assms(5) by blast
    show "t - c = 1 \<and> buddy q \<notin> set (F K)" if "K < PAGE_MAX_ORDER" "c \<le> q" "q < c + (t - c)" for q
      using assms(6,7) sub [OF that(2,3)] that unfolding no_conflict_def by force
  qed (use assms(3) in simp_all)
  then show ?thesis unfolding eq by auto
qed

text \<open>How a chunk of \<open>n\<close> frames from \<open>a\<close> is cut: the order of its blocks, and the numbers of the first and last block boundary in it.\<close>

lemma chunk_cut:
  assumes "0 < n" "a + n \<le> NUM_FRAMES" "K = chunk_max_order (of_nat (n * 4096))" "c = low_cut a (2 ^ K)" "t = (a + n) div 2 ^ K"
  shows "K \<le> PAGE_MAX_ORDER" "2 ^ K \<le> n" "c \<le> t" "c * 2 ^ K = a + low_part a (2 ^ K)" "low_part a (2 ^ K) < 2 ^ K"
    and "t * 2 ^ K \<le> a + n" "a + n < t * 2 ^ K + 2 ^ K" "c * 2 ^ K \<le> t * 2 ^ K" "K < PAGE_MAX_ORDER \<Longrightarrow> t \<le> Suc c"
proof -
  have S: "0 < (2 :: nat) ^ K" by simp
  show K: "K \<le> PAGE_MAX_ORDER" "2 ^ K \<le> n"
    using chunk_max_order_frames [of n] assms(1,2) by (auto simp: assms(3) NUM_FRAMES_def)
  show ct: "c \<le> t" unfolding assms(4,5) by (rule low_cut_top [OF S K(2)])
  show c: "c * 2 ^ K = a + low_part a (2 ^ K)" "low_part a (2 ^ K) < 2 ^ K" unfolding assms(4) by (rule low_cut [OF S])+
  show t: "t * 2 ^ K \<le> a + n" "a + n < t * 2 ^ K + 2 ^ K" using dividend_less_div_times [OF S, of "a + n"] by (simp_all add: assms(5))
  show "c * 2 ^ K \<le> t * 2 ^ K" using ct by simp
  show "t \<le> Suc c" if k: "K < PAGE_MAX_ORDER"
  proof (rule ccontr)
    assume "\<not> t \<le> Suc c"
    then have "(c + 2) * 2 ^ K \<le> t * 2 ^ K" by (intro mult_le_mono1) simp
    moreover have "n < 2 * 2 ^ K" using chunk_max_order_frames [of n] assms(1,2) k by (auto simp: assms(3) NUM_FRAMES_def)
    ultimately show False using c t by simp
  qed
qed

text \<open>The order falls from one level of the recursion to the next.\<close>

lemma fuel_for_order:
  assumes "K \<le> PAGE_MAX_ORDER" "2 ^ K \<le> (n :: nat)" "n < 2 ^ fuel \<or> 12 \<le> Suc fuel"
  shows "0 < fuel" "(2 :: nat) ^ K \<le> 2 ^ (fuel - 1)"
proof -
  have "K < fuel"
  proof (cases "n < 2 ^ fuel")
    case True
    then have "(2 :: nat) ^ K < 2 ^ fuel" using assms(2) by linarith
    then show ?thesis by simp
  qed (use assms(1,3) in \<open>simp add: PAGE_MAX_ORDER_def\<close>)
  then have "K < fuel" "K \<le> fuel - 1" by simp_all
  then show "0 < fuel" "(2 :: nat) ^ K \<le> 2 ^ (fuel - 1)" by (simp_all add: power_increasing)
qed

lemma map_chunk_ok:
  assumes "page_inv s F" "256 \<le> a" "a + n \<le> NUM_FRAMES" "{a..<a + n} \<inter> free_frames F = {}" "no_conflict F {a..<a + n}"
    and "0 < fuel" "n < 2 ^ (fuel - 1) \<or> 12 \<le> fuel"
  shows "\<exists>s' F'. Page_MapMemoryChunk fuel s (of_nat (a * 4096)) (of_nat (n * 4096)) = Inr s' \<and> grown s F {a..<a + n} s' F'"
  using assms
proof (induction fuel arbitrary: s F a n)
  case (Suc fuel)
  show ?case
  proof (cases "n = 0")
    case True
    then show ?thesis using grown_refl [OF Suc.prems(1)] by auto
  next
    case False
    define K where "K = chunk_max_order (of_nat (n * 4096))"
    define S where "S = (2 :: nat) ^ K"
    define c where "c = low_cut a S" define t where "t = (a + n) div S"
    note cut = chunk_cut [OF _ Suc.prems(3) K_def c_def [unfolded S_def] t_def [unfolded S_def], folded S_def]
    have ct: "c \<le> t" "K \<le> PAGE_MAX_ORDER" and c: "c * S = a + low_part a S" "low_part a S < S"
      and t: "t * S \<le> a + n" "a + n < t * S + S" and cS: "c * S \<le> t * S" and one: "K < PAGE_MAX_ORDER \<Longrightarrow> t \<le> Suc c"
      using False by (intro cut; simp)+
    have fuel: "0 < fuel" "S \<le> 2 ^ (fuel - 1)"
      unfolding S_def using cut(1,2) fuel_for_order [of K n fuel] False Suc.prems(7) by (simp_all add: S_def)
    have free_sub: "A \<inter> free_frames F = {}" if "A \<subseteq> {a..<a + n}" for A using that Suc.prems(4) by blast
    let ?top = "{t * S..<a + n}" and ?mid = "{c * S..<t * S}" and ?low = "{a..<c * S}"
    obtain s1 F1 where s1: "Page_MapMemoryChunk fuel s (of_nat (t * S * 4096)) (of_nat ((a + n - t * S) * 4096)) = Inr s1"
        "grown s F ?top s1 F1"
    proof -
      have a: "a \<le> t * S" and "t * S + (a + n - t * S) = a + n" using c t cS by simp_all
      moreover have sub: "?top \<subseteq> {a..<a + n}" using a by simp
      moreover have "?top \<inter> free_frames F = {}" by (rule free_sub [OF sub])
      moreover have "no_conflict F ?top" using no_conflict_mono [OF Suc.prems(5) sub] .
      moreover have "a + n - t * S < 2 ^ (fuel - 1)" using t fuel(2) by linarith
      ultimately show thesis using Suc.IH [OF Suc.prems(1), of "t * S" "a + n - t * S"] Suc.prems(2,3) fuel(1) that
        by (auto simp del: of_nat_mult)
    qed
    have inv1: "page_inv s1 F1" and free1: "free_frames F1 = free_frames F \<union> ?top" using s1(2) by (simp_all add: grown_def)
    have conf1: "no_conflict F1 ?mid"
      unfolding S_def
      by (rule no_conflict_above [OF _ s1(2), where b = "a + n"])
        (use no_conflict_mono [OF Suc.prems(5), of ?mid] c t in \<open>auto simp: S_def [symmetric]\<close>)
    obtain s2 F2 where s2: "map_central s1 (blk_addr K c) (of_nat (t - c)) K 0 = Inr s2" "grown s1 F1 ?mid s2 F2"
    proof -
      have "?mid \<inter> free_frames F1 = {}" unfolding free1 using free_sub [of ?mid] c t cS by auto
      then show thesis using map_mid [OF inv1 ct(2,1)] conf1 one t(1) Suc.prems(3) that unfolding S_def by auto
    qed
    obtain s3 F3 where s3: "Page_MapMemoryChunk fuel s2 (of_nat (a * 4096)) (of_nat (low_part a S * 4096)) = Inr s3" "grown s2 F2 ?low s3 F3"
    proof -
      note g = grown_trans [OF s1(2) s2(2)]
      have inv2: "page_inv s2 F2" and free2: "free_frames F2 = free_frames F \<union> (?top \<union> ?mid)" using g by (simp_all add: grown_def)
      have "x \<notin> ?top \<union> ?mid" if "x \<in> ?low" for x using that cS order.trans [of "c * S" "t * S" x] by auto
      then have "?low \<inter> free_frames F2 = {}" unfolding free2 using free_sub [of ?low] t order.trans [OF cS t(1)] by auto
      moreover have "no_conflict F2 ?low"
        unfolding S_def
        by (rule no_conflict_above [OF _ g, where b = "a + n"])
          (use no_conflict_mono [OF Suc.prems(5), of ?low] c t cS in \<open>auto simp: S_def [symmetric]\<close>)
      moreover have "{a..<a + low_part a S} = ?low" "low_part a S < 2 ^ (fuel - 1)" "a + low_part a S \<le> NUM_FRAMES"
        using c fuel(2) t(1) cS Suc.prems(3) by (metis, linarith+)
      ultimately show thesis using Suc.IH [OF inv2 Suc.prems(2), of "low_part a S"] fuel(1) that by (auto simp del: of_nat_mult)
    qed
    have "?top \<union> ?mid \<union> ?low = {a..<a + n}" using c t cS by auto
    then have "grown s F {a..<a + n} s3 F3" using grown_trans [OF grown_trans [OF s1(2) s2(2)] s3(2)] by simp
    moreover have "Page_MapMemoryChunk (Suc fuel) s (of_nat (a * 4096)) (of_nat (n * 4096)) = Inr s3"
      using MapMemoryChunk_step [OF Suc.prems(2), of n fuel s] False Suc.prems(3) s1(1) s2(1) s3(1)
      by (simp add: NUM_FRAMES_def K_def [symmetric] S_def [symmetric] c_def [symmetric] t_def [symmetric] del: of_nat_mult)
    ultimately show ?thesis by blast
  qed
qed simp

section \<open>The entries of the memory map\<close>

text \<open>
  The memory map as a list of chunks in frames. The code skips a chunk of size zero and one that starts below 1 MiB
  or past the end of the mapped range.
\<close>

type_synonym chunk = "nat \<times> nat"

definition chunk_usable :: "chunk \<Rightarrow> bool" where
  "chunk_usable c \<longleftrightarrow> 0 < snd c \<and> 256 \<le> fst c \<and> fst c < NUM_FRAMES"

definition chunk_frames :: "chunk \<Rightarrow> nat set" where
  "chunk_frames c = (if chunk_usable c then {fst c..<fst c + snd c} else {})"

text \<open>Two chunks that the code maps must not touch: their neighbouring blocks could be buddies.\<close>

definition chunks_apart :: "chunk \<Rightarrow> chunk \<Rightarrow> bool" where
  "chunks_apart c d \<longleftrightarrow> chunk_usable c \<longrightarrow> chunk_usable d \<longrightarrow> fst c + snd c < fst d \<or> fst d + snd d < fst c"

definition chunks_ok :: "chunk list \<Rightarrow> bool" where
  "chunks_ok cs \<longleftrightarrow>
     (\<forall>c \<in> set cs. fst c < 2 ^ 52 \<and> snd c < 2 ^ 52 \<and> (chunk_usable c \<longrightarrow> fst c + snd c \<le> NUM_FRAMES)) \<and>
     sorted_wrt chunks_apart cs"

definition chunks_at :: "memory \<Rightarrow> u32 \<Rightarrow> chunk list \<Rightarrow> bool" where
  "chunks_at m p cs \<longleftrightarrow> (\<forall>i < length cs.
     load64 m (p + 16 * of_nat i) = of_nat (fst (cs ! i) * 4096) \<and>
     load64 m (p + 16 * of_nat i + 8) = of_nat (snd (cs ! i) * 4096))"

definition table_outside :: "u32 \<Rightarrow> nat \<Rightarrow> nat set \<Rightarrow> bool" where
  "table_outside p n A \<longleftrightarrow> (\<forall>i < 16 * n. frame_of (p + of_nat i) \<notin> A)"

lemma load32_outside:
  assumes "same_outside A m m'" "\<forall>i < 4. frame_of (p + of_nat i) \<notin> A"
  shows "load32 m' p = load32 m p"
proof -
  have "frame_of (p + of_nat 0) \<notin> A" "frame_of (p + of_nat 1) \<notin> A" "frame_of (p + of_nat 2) \<notin> A" "frame_of (p + of_nat 3) \<notin> A"
    by (rule assms(2) [rule_format]; simp)+
  then show ?thesis using assms(1) by (simp add: load32_def same_outside_def)
qed

lemma load64_outside:
  assumes "same_outside A m m'" "\<forall>i < 8. frame_of (p + of_nat i) \<notin> A"
  shows "load64 m' p = load64 m p"
proof -
  have "frame_of (p + 4 + of_nat i) \<notin> A" if "i < 4" for i
    using assms(2) [rule_format, of "4 + i"] that by (simp add: add.assoc)
  then show ?thesis using load32_outside [OF assms(1)] assms(2) by (simp add: load64_def)
qed

lemma chunks_at_same:
  assumes "same_outside A m m'" "table_outside p (length cs) A"
  shows "chunks_at m' p cs = chunks_at m p cs"
proof -
  have "load64 m' (p + 16 * of_nat i + of_nat d) = load64 m (p + 16 * of_nat i + of_nat d)" if "i < length cs" "d \<le> 8" for i d
  proof (rule load64_outside [OF assms(1)], intro allI impI)
    fix j :: nat assume "j < 8"
    moreover have "p + 16 * of_nat i + of_nat d + of_nat j = p + of_nat (16 * i + d + j)" by simp
    moreover have "frame_of (p + of_nat (16 * i + d + j)) \<notin> A"
      by (rule assms(2) [unfolded table_outside_def, rule_format]) (use that \<open>j < 8\<close> in linarith)
    ultimately show "frame_of (p + 16 * of_nat i + of_nat d + of_nat j) \<notin> A" by (simp only: not_False_eq_True)
  qed
  from this [of _ 0] this [of _ 8] show ?thesis by (simp add: chunks_at_def)
qed

text \<open>A chunk whose neighbours are not free has no conflict.\<close>

lemma no_conflict_gap:
  assumes "\<forall>x \<in> free_frames F. x + 1 < a \<or> a + n < x"
  shows "no_conflict F {a..<a + n}"
  unfolding no_conflict_def
proof (intro allI impI notI)
  fix k q
  assume k: "k < PAGE_MAX_ORDER" and q: "blk k q \<subseteq> {a..<a + n}" and b: "buddy q \<in> set (F k)"
  have free: "blk k (buddy q) \<subseteq> free_frames F" using k b by (auto simp: free_frames_def blk_def intro!: exI [of _ k])
  have bounds: "a \<le> q * 2 ^ k" "q * 2 ^ k + 2 ^ k \<le> a + n" using q by (auto simp: blk_interval)
  show False
  proof (cases "even q")
    case True
    then have "Suc q * 2 ^ k \<in> free_frames F" using free blk_start by (auto simp: buddy_def blk_interval)
    then show False using assms bounds by force
  next
    case False
    then obtain j where "q = Suc j" by (cases q) auto
    then have "buddy q = j" using False by (simp add: buddy_def)
    moreover have "0 < (2 :: nat) ^ k" by simp
    then have "j * 2 ^ k \<le> j * 2 ^ k + 2 ^ k - 1" "j * 2 ^ k + 2 ^ k - 1 < (j + 1) * 2 ^ k" unfolding add_mult_distrib mult_1 by linarith+
    then have "j * 2 ^ k + 2 ^ k - 1 \<in> blk k j" by (simp only: blk_interval atLeastLessThan_iff)
    ultimately have "j * 2 ^ k + 2 ^ k - 1 \<in> free_frames F" using free by blast
    then show False using assms bounds \<open>q = Suc j\<close> by force
  qed
qed

lemma chunk_skip:
  assumes "\<not> chunk_usable c" "fst c < 2 ^ 52" "snd c < 2 ^ 52"
  shows "Page_MapMemoryChunk (Suc fuel) s (of_nat (fst c * 4096)) (of_nat (snd c * 4096)) = Inr s"
proof -
  have "unat (of_nat (fst c * 4096) :: u64) = fst c * 4096" "unat (of_nat (snd c * 4096) :: u64) = snd c * 4096"
    by (rule unat_u64_of_nat; use assms(2,3) in simp)+
  then have "(of_nat (snd c * 4096) :: u64) = 0 \<longleftrightarrow> snd c = 0"
     "(of_nat (fst c * 4096) :: u64) < ucast (KERNEL_MMAP_LOWMEM_END - KERNEL_HIGHER_HALF_OFFSET) \<longleftrightarrow> fst c < 256"
     "(of_nat (fst c * 4096) :: u64) \<ge> ucast (KERNEL_MMAP_VIRTUAL_END - KERNEL_HIGHER_HALF_OFFSET) \<longleftrightarrow> NUM_FRAMES \<le> fst c"
    unfolding word_less_nat_alt word_le_nat_alt unat_eq_0 [symmetric] by (simp_all only:) (simp_all add: kernel_consts NUM_FRAMES_def)
  then show ?thesis using assms(1) unfolding Page_MapMemoryChunk.simps chunk_usable_def by auto
qed

text \<open>One entry, with the fuel of the model.\<close>

lemma map_entry_ok:
  assumes "page_inv s F" "fst c < 2 ^ 52" "snd c < 2 ^ 52" "chunk_usable c \<Longrightarrow> fst c + snd c \<le> NUM_FRAMES"
    and "chunk_usable c \<Longrightarrow> \<forall>x \<in> free_frames F. x + 1 < fst c \<or> fst c + snd c < x"
  shows "\<exists>s' F'. Page_MapMemoryChunk PAGE_MAP_FUEL s (of_nat (fst c * 4096)) (of_nat (snd c * 4096)) = Inr s' \<and>
     grown s F (chunk_frames c) s' F'"
proof (cases "chunk_usable c")
  case True
  then have "{fst c..<fst c + snd c} \<inter> free_frames F = {}" using assms(5) by force
  then show ?thesis
    using map_chunk_ok [OF assms(1), of "fst c" "snd c" PAGE_MAP_FUEL] no_conflict_gap [OF assms(5) [OF True]] assms(4) [OF True] True
    by (simp add: chunk_frames_def chunk_usable_def PAGE_MAP_FUEL_def del: of_nat_mult)
next
  case False
  have "PAGE_MAP_FUEL = Suc 11" by (simp add: PAGE_MAP_FUEL_def)
  then show ?thesis using chunk_skip [OF False assms(2,3), of 11 s] grown_refl [OF assms(1)] False unfolding chunk_frames_def by auto
qed

lemma grown_apart:
  assumes "\<forall>x \<in> free_frames F. x + 1 < fst c \<or> fst c + snd c < x" "grown s F (chunk_frames d) s' F'"
    "chunks_apart c d" "chunk_usable c"
  shows "\<forall>x \<in> free_frames F'. x + 1 < fst c \<or> fst c + snd c < x"
proof
  fix x assume "x \<in> free_frames F'"
  then consider "x \<in> free_frames F" | "x \<in> chunk_frames d" using assms(2) by (auto simp: grown_def)
  then show "x + 1 < fst c \<or> fst c + snd c < x"
    by cases (use assms in \<open>auto simp: chunk_frames_def chunks_apart_def split: if_splits\<close>)
qed

lemma table_outside_mono: "table_outside p n A \<Longrightarrow> B \<subseteq> A \<Longrightarrow> r \<le> n \<Longrightarrow> table_outside p r B"
  by (auto simp: table_outside_def)

lemma map_entries_ok:
  assumes "page_inv s F" "N = length cs + d" "N < 2 ^ 32" "chunks_ok cs" "chunks_at (mem s) p cs"
    and "\<And>c. c \<in> set cs \<Longrightarrow> chunk_usable c \<Longrightarrow> \<forall>x \<in> free_frames F. x + 1 < fst c \<or> fst c + snd c < x"
    and "table_outside p (length cs) (free_frames F \<union> (\<Union>c \<in> set cs. chunk_frames c))"
  shows "\<exists>s' F'. map_entries s p (of_nat N) (of_nat d) = Inr s' \<and> grown s F (\<Union>c \<in> set cs. chunk_frames c) s' F'"
  using assms
proof (induction cs arbitrary: s F d rule: rev_induct)
  case Nil
  then show ?case by (subst map_entries.simps) (auto simp: intro: grown_refl)
next
  case (snoc c cs)
  let ?r = "length cs" and ?n = "of_nat N :: u32"
  have lt: "(of_nat d :: u32) < ?n" using snoc.prems(2,3) by (subst of_nat_u32_less) auto
  have idx: "?n - 1 - of_nat d = of_nat ?r" using snoc.prems(2) by simp
  have nxt: "(of_nat d :: u32) + 1 = of_nat (Suc d)" by simp
  have at: "load64 (mem s) (p + 16 * of_nat ?r) = of_nat (fst c * 4096)" "load64 (mem s) (p + 16 * of_nat ?r + 8) = of_nat (snd c * 4096)"
    using snoc.prems(5) by (auto simp: chunks_at_def nth_append simp del: of_nat_mult dest!: spec [of _ ?r])
  have cok: "fst c < 2 ^ 52" "snd c < 2 ^ 52" "chunk_usable c \<Longrightarrow> fst c + snd c \<le> NUM_FRAMES" "chunks_ok cs"
      "\<And>e. e \<in> set cs \<Longrightarrow> chunks_apart e c"
    using snoc.prems(4) by (auto simp: chunks_ok_def sorted_wrt_append)
  obtain s1 F1 where s1: "Page_MapMemoryChunk PAGE_MAP_FUEL s (of_nat (fst c * 4096)) (of_nat (snd c * 4096)) = Inr s1"
      "grown s F (chunk_frames c) s1 F1"
    using map_entry_ok [OF snoc.prems(1) cok(1-3)] snoc.prems(6) by auto
  have free1: "free_frames F1 = free_frames F \<union> chunk_frames c" "page_inv s1 F1" "same_outside (free_frames F \<union> chunk_frames c) (mem s) (mem s1)"
    using s1(2) by (auto simp: grown_def)
  have out: "table_outside p ?r (free_frames F1 \<union> (\<Union>c \<in> set cs. chunk_frames c))" "table_outside p ?r (free_frames F \<union> chunk_frames c)"
    by (rule table_outside_mono [OF snoc.prems(7)]; auto simp: free1)+
  have "chunks_at (mem s) p cs" using snoc.prems(5) by (auto simp: chunks_at_def nth_append split: if_splits)
  then have at1: "chunks_at (mem s1) p cs" using chunks_at_same [OF free1(3) out(2)] by simp
  obtain s' F' where s': "map_entries s1 p ?n (of_nat (Suc d)) = Inr s'" "grown s1 F1 (\<Union>c \<in> set cs. chunk_frames c) s' F'"
    using snoc.IH [OF free1(2) _ snoc.prems(3) cok(4) at1 _ out(1), of "Suc d"] grown_apart [OF snoc.prems(6) s1(2) cok(5)] snoc.prems(2)
    by auto
  have "map_entries s p ?n (of_nat d) = Inr s'"
    using lt s1(1) s'(1) at by (subst map_entries.simps) (simp only: Let_def if_True idx at res_bind_Inr nxt)
  moreover have "grown s F (\<Union>c \<in> set (cs @ [c]). chunk_frames c) s' F'"
    using grown_trans [OF s1(2) s'(2)] by (simp add: Un_commute)
  ultimately show ?case by blast
qed

section \<open>Page_BuddyMaps_Initialize\<close>

lemma page_inv_cleared:
  assumes "\<forall>k \<le> PAGE_MAX_ORDER. Page_lists s k = PAGE_LIST_NULL"
  shows "page_inv (clear_maps s) (\<lambda>_. [])"
proof -
  have "\<not> map_bit (Page_maps (clear_maps s)) k (q div 2)" if "k < PAGE_MAX_ORDER" "q < NUM_FRAMES div 2 ^ k" for k q
  proof -
    have k: "k \<le> PAGE_MAX_ORDER" using that by simp
    have "page_map_in_bounds (blk_addr k q) k" using k unat_blk_addr_less [OF k that(2)] by (simp add: page_map_in_bounds_iff)
    then have "q div 2 div 8 < Page_maps_size k" by (simp add: page_map_in_bounds_def unat_PAGE_MAP_IDX blk_addr_pair [OF k that(2)])
    then show ?thesis using k by (simp add: map_bit_def clear_maps_def)
  qed
  then show ?thesis
    using assms by (simp add: page_inv_def buddy_inv_def lists_ok_def bits_ok_def clear_maps_def)
qed

lemma BuddyMaps_Initialize_grown:
  assumes "\<forall>k \<le> PAGE_MAX_ORDER. Page_lists s k = PAGE_LIST_NULL" "chunks_ok cs" "chunks_at (mem s) p cs" "cs \<noteq> []" "length cs < 2 ^ 32"
    and "table_outside p (length cs) (\<Union>c \<in> set cs. chunk_frames c)"
    and "find_mmap (mem s) (BootInfo + 8) (0, 0) = Some (p, of_nat (length cs))" "p \<noteq> 0"
  shows "\<exists>s'. Page_BuddyMaps_Initialize s BootInfo = Inr s' \<and> page_owns s' (\<Union>c \<in> set cs. chunk_frames c) \<and>
    same_outside (\<Union>c \<in> set cs. chunk_frames c) (mem s) (mem s') \<and> cpu s' = cpu s"
proof -
  have cleared: "mem (clear_maps s) = mem s" "cpu (clear_maps s) = cpu s" by (simp_all add: clear_maps_def)
  have none: "free_frames (\<lambda>_. []) = {}" by (simp add: free_frames_def)
  obtain s2 F2 where s2: "map_entries (clear_maps s) p (of_nat (length cs)) 0 = Inr s2"
      "grown (clear_maps s) (\<lambda>_. []) (\<Union>c \<in> set cs. chunk_frames c) s2 F2"
    using map_entries_ok [OF page_inv_cleared [OF assms(1)], of "length cs" cs 0 p] assms(2,3,5,6) cleared none by auto
  have nz: "(of_nat (length cs) :: u32) \<noteq> 0"
    using assms(4,5) unat_u32_of_nat [OF assms(5)] by (metis length_0_conv unat_0)
  let ?s' = "s2\<lparr>Page_operation_lock := IRQLock_Initialize (Page_operation_lock s2)\<rparr>"
  have "page_inv ?s' F2" "page_unlocked ?s'"
    using s2(2) by (simp_all add: grown_def page_inv_def page_unlocked_def IRQLock_Initialize_def SpinLock_Initialize_def atomic_flag_clear_def)
  moreover have "Page_BuddyMaps_Initialize s BootInfo = Inr ?s'"
    using assms(7,8) nz s2(1) by (simp add: Page_BuddyMaps_Initialize_def cleared)
  ultimately show ?thesis using s2(2) none cleared by (auto simp: grown_def page_owns_def)
qed

text \<open>A chunk that reaches past the managed range ends in a write outside the bitmaps.\<close>

lemma map_central_past_end:
  assumes "NUM_FRAMES \<le> (c + i - 1) * 2 ^ k" "(c + i) * 2 ^ k < 2 ^ 20" "0 < i" "i < 2 ^ 32" 
  shows "map_central s (blk_addr k c) (of_nat i) k 0 = Inl Out_Of_Bounds"
proof -
  have "(of_nat 0 :: u32) < of_nat i" using assms(3,4) by (subst of_nat_u32_less) auto
  moreover have idx: "(of_nat i :: u32) - 1 - 0 = of_nat (i - 1)" using assms(3) by (simp add: of_nat_diff)
  moreover have "blk_addr k c + of_nat (i - 1) * PAGE_SIZE_AT_ORDER k = blk_addr k (c + i - 1)"
    unfolding blk_addr_step using assms(3) by simp
  moreover have "PAGE_MAP_SETBIT s' (blk_addr k (c + i - 1)) k = Inl Out_Of_Bounds" for s' :: "'a physmem_scheme"
  proof -
    have "(c + i - 1) * 2 ^ k < 2 ^ 20" using assms(2) by (rule order.strict_trans1 [rotated]) simp
    then have "unat (blk_addr k (c + i - 1)) = (c + i - 1) * 2 ^ k * 4096"
      unfolding blk_addr_def frame_addr_def by (intro unat_u32_of_nat frames_u32)
    then have "\<not> unat (blk_addr k (c + i - 1)) < 0x70000000" using assms(1) unfolding NUM_FRAMES_def by linarith
    then show ?thesis by (simp add: PAGE_MAP_SETBIT_def page_map_update_def page_map_in_bounds_iff res_guard_def)
  qed
  ultimately show ?thesis by (subst map_central.simps) (simp add: Let_def)
qed

lemma MapMemoryChunk_past_end:
  assumes "256 \<le> a" "a < NUM_FRAMES" "NUM_FRAMES + 2 ^ PAGE_MAX_ORDER \<le> a + n" "2 ^ PAGE_MAX_ORDER \<le> n" "a + n < 2 ^ 20"
  shows "Page_MapMemoryChunk (Suc (Suc fuel)) s (of_nat (a * 4096)) (of_nat (n * 4096)) = Inl Out_Of_Bounds"
proof -
  let ?S = "(2 :: nat) ^ PAGE_MAX_ORDER" and ?n = "n"
  define c where "c = low_cut a ?S" define t where "t = (a + n) div ?S"
  have n: "0 < n" "n < 2 ^ 20" using assms(4,5) by (simp_all add: PAGE_MAX_ORDER_def)
  have K: "chunk_max_order (of_nat (n * 4096)) = PAGE_MAX_ORDER"
  proof (rule ccontr)
    assume "chunk_max_order (of_nat (n * 4096)) \<noteq> PAGE_MAX_ORDER"
    then have lt: "chunk_max_order (of_nat (n * 4096)) < PAGE_MAX_ORDER" using chunk_max_order_frames(1) [OF n] by simp
    have "n < 2 ^ Suc (chunk_max_order (of_nat (n * 4096)))" by (rule chunk_max_order_frames(3) [OF n lt])
    also have "\<dots> \<le> ?S" using lt by (intro power_increasing) simp_all
    finally show False using assms(4) by simp
  qed
  have ct: "c \<le> t" unfolding c_def t_def by (rule low_cut_top) (use assms(4) in simp_all)
  have "0x1C0 < t" using assms(3) by (simp add: t_def PAGE_MAX_ORDER_def NUM_FRAMES_def)
  moreover have "c < t"
  proof (rule ccontr)
    assume "\<not> c < t"
    then have "t = c" using ct by simp
    then have "c * ?S \<ge> NUM_FRAMES + ?S" using \<open>0x1C0 < t\<close> by (simp add: PAGE_MAX_ORDER_def NUM_FRAMES_def)
    then show False using low_cut [of ?S a] assms(2) unfolding c_def by simp
  qed
  moreover have "t * ?S \<le> a + n" by (simp add: t_def)
  ultimately have "map_central s (blk_addr PAGE_MAX_ORDER c) (of_nat (t - c)) PAGE_MAX_ORDER 0 = Inl Out_Of_Bounds"
    using assms(5) by (intro map_central_past_end) (simp_all add: PAGE_MAX_ORDER_def NUM_FRAMES_def)
  moreover have "Page_MapMemoryChunk (Suc fuel) s (of_nat (t * ?S * 4096)) (of_nat ((a + n - t * ?S) * 4096)) = Inr s"
    by (rule chunk_skip [of "(t * ?S, a + n - t * ?S)", unfolded fst_conv snd_conv])
      (use \<open>0x1C0 < t\<close> \<open>t * ?S \<le> a + n\<close> assms(5) in \<open>simp_all add: chunk_usable_def NUM_FRAMES_def PAGE_MAX_ORDER_def\<close>)
  ultimately show ?thesis
    using MapMemoryChunk_step [OF assms(1) n(1) assms(2,5), of "Suc fuel" s]
    by (simp only: K c_def [symmetric] t_def [symmetric] res_bind_Inr res_bind_Inl)
qed

section \<open>Properties\<close>

text \<open>
  C4. \<open>Page_BuddyMaps_Initialize\<close> establishes the allocator's invariant. Suppose the lists are empty, as they are
  statically, and the walk over the boot information finds a table of page-aligned chunks; those that the code does not
  skip end below 1.75 GiB, do not overlap and do not touch, and the table itself is in none of them. Then the
  initialisation ends (its recursion is never deeper than the bound of the model), the allocator owns exactly the frames of
  those chunks with its lock free, and memory outside them is as it was.
\<close>

theorem Page_BuddyMaps_Initialize_establishes:
  assumes "\<forall>k \<le> PAGE_MAX_ORDER. Page_lists s k = PAGE_LIST_NULL"
    and "find_mmap (mem s) (BootInfo + 8) (0, 0) = Some (p, of_nat (length cs))" "p \<noteq> 0" "cs \<noteq> []" "length cs < 2 ^ 32"
    and "chunks_at (mem s) p cs" "chunks_ok cs" "table_outside p (length cs) (\<Union>c \<in> set cs. chunk_frames c)"
  shows "\<exists>s'. Page_BuddyMaps_Initialize s BootInfo = Inr s' \<and> page_owns s' (\<Union>c \<in> set cs. chunk_frames c) \<and>
     same_outside (\<Union>c \<in> set cs. chunk_frames c) (mem s) (mem s')"
  using BuddyMaps_Initialize_grown [OF assms(1,7,6,4,5,8,2,3)] by blast

text \<open>A record with one tag, a map of two chunks: 3 MiB at 1 MiB and 4 KiB at 16 MiB.\<close>

definition sample_record :: memory where
  "sample_record = (\<lambda>_. 0)(0x80010008 := 99, 0x8001000C := 48, 0x80010010 := 16, 0x8001001A := 0x10, 0x80010022 := 0x30,
     0x8001002B := 1, 0x80010031 := 0x10)"

definition sample_chunks :: "chunk list" where
  "sample_chunks = [(256, 768), (4096, 1)]"

lemma sample_frames: "(\<Union>c \<in> set sample_chunks. chunk_frames c) = {256..<1024} \<union> {4096}"
  by (auto simp: sample_chunks_def chunk_frames_def chunk_usable_def NUM_FRAMES_def)

lemma sample_chunks_ok: "chunks_ok sample_chunks"
  by (simp add: sample_chunks_def chunks_ok_def chunks_apart_def chunk_usable_def NUM_FRAMES_def)

lemma sample_find: "find_mmap sample_record (0x80010000 + 8) (0, 0) = Some (0x80010018, of_nat (length sample_chunks))"
proof -
  have w: "load32 sample_record 0x80010008 = 99" "load32 sample_record 0x8001000C = 48" "load32 sample_record 0x80010010 = 16"
      "load32 sample_record 0x80010038 = 0"
    by (simp_all add: load32_def sample_record_def)
  show ?thesis
    by (subst find_mmap.simps, subst find_mmap.simps)
      (simp add: w next_tag_def MULTIBOOT_TAG_TYPE_RAM_INFO_PAGE_ALIGNED_def sample_chunks_def)
qed

lemma sample_at: "chunks_at sample_record 0x80010018 sample_chunks"
proof -
  have w: "load64 sample_record 0x80010018 = 0x100000" "load64 sample_record 0x80010020 = 0x300000"
      "load64 sample_record 0x80010028 = 0x1000000" "load64 sample_record 0x80010030 = 0x1000"
    by code_simp+
  show ?thesis unfolding chunks_at_def sample_chunks_def by (simp add: All_less_Suc numeral_2_eq_2 w)
qed

lemma sample_outside: "table_outside 0x80010018 (length sample_chunks) ({256..<1024} \<union> {4096})"
proof -
  have "frame_of (0x80010018 + of_nat i) < 256" if "i < 32" for i
    using that by (simp add: frame_of_def KERNEL_HIGHER_HALF_OFFSET_def unat_word_ariths unat_of_nat)
  then show ?thesis by (fastforce simp: table_outside_def sample_chunks_def)
qed

theorem Page_BuddyMaps_Initialize_establishes_witness:
  "\<exists>s'. Page_BuddyMaps_Initialize (no_pages\<lparr>mem := sample_record\<rparr>) 0x80010000 = Inr s' \<and> page_owns s' ({256..<1024} \<union> {4096}) \<and>
     same_outside ({256..<1024} \<union> {4096}) sample_record (mem s')"
proof -
  have "\<forall>k \<le> PAGE_MAX_ORDER. Page_lists (no_pages\<lparr>mem := sample_record\<rparr>) k = PAGE_LIST_NULL" by (simp add: no_pages_def)
  from Page_BuddyMaps_Initialize_establishes [OF this, of "0x80010000" "0x80010018" sample_chunks, unfolded sample_frames]
  show ?thesis using sample_find sample_at sample_chunks_ok sample_outside by (simp add: sample_chunks_def)
qed

text \<open>
  C9. \<open>Page_MapMemoryChunk\<close> does not clip a chunk to the managed range: a chunk that starts in the range and reaches at least one block of
  the largest order (4 MiB) past 1.75 GiB makes the code set a bit past the end of a bitmap. A machine with 2 GiB of memory
  in one piece has such a chunk.
\<close>

theorem Page_MapMemoryChunk_past_end_faults:
  assumes "256 \<le> a" "a < NUM_FRAMES" "NUM_FRAMES + 2 ^ PAGE_MAX_ORDER \<le> a + n" "2 ^ PAGE_MAX_ORDER \<le> n" "a + n < 2 ^ 20"
  shows "Page_MapMemoryChunk PAGE_MAP_FUEL s (of_nat (a * 4096)) (of_nat (n * 4096)) = Inl Out_Of_Bounds"
proof -
  have "PAGE_MAP_FUEL = Suc (Suc 10)" by (simp add: PAGE_MAP_FUEL_def)
  then show ?thesis using MapMemoryChunk_past_end [OF assms, of 10 s] by simp
qed

theorem Page_MapMemoryChunk_past_end_faults_witness:
  "Page_MapMemoryChunk PAGE_MAP_FUEL no_pages 0x100000 0x7FEE0000 = Inl Out_Of_Bounds"
  using Page_MapMemoryChunk_past_end_faults [of 256 "0x7FEE0" no_pages] by (simp add: NUM_FRAMES_def PAGE_MAX_ORDER_def)

end
