(* ===== verification/AVOS_Boot_Map.thy ===== *)
theory AVOS_Boot_Map
  imports AVOS_Multiboot_Correct
begin

text \<open>
  What the boot loader's table of available memory holds: \<open>Memory_StoreInfo\<close> of \<open>bootloader/multiboot/src/memory.c\<close> ends, and
  its blocks are the usable memory of the BIOS map, in order and apart from each other.
\<close>

section \<open>Usable memory\<close>

definition e_end :: "Multiboot_E820_Entry \<Rightarrow> nat" where
  "e_end e = unat (e_base e) + unat (e_size e)"

definition ram :: "Multiboot_E820_Entry list \<Rightarrow> nat set" where
  "ram L = (\<Union>e \<in> {e \<in> set L. usable e}. {unat (e_base e)..<e_end e})"

text \<open>A map that the loader handles: the usable entries in the order of their addresses, none empty, none near the top of the 64-bit range.\<close>

definition e820_ok :: "Multiboot_E820_Entry list \<Rightarrow> bool" where
  "e820_ok L \<longleftrightarrow>
     sorted (map (\<lambda>e. unat (e_base e)) (filter usable L)) \<and>
     (\<forall>e \<in> set L. usable e \<longrightarrow> 0 < unat (e_size e) \<and> e_end e < 2 ^ 63)"

text \<open>The end of a block after the entries \<open>L\<close>, from the end \<open>x\<close>.\<close>

definition extend1 :: "Multiboot_E820_Entry \<Rightarrow> nat \<Rightarrow> nat" where
  "extend1 e x = (if usable e \<and> x \<le> e_end e \<and> unat (e_base e) \<le> x then e_end e else x)"

lemma extend_ge: "x \<le> fold extend1 L x"
proof (induction L arbitrary: x)
  case (Cons e L)
  have "x \<le> extend1 e x" by (simp add: extend1_def)
  then show ?case using Cons [of "extend1 e x"] by simp
qed simp

lemma extend_stuck: "\<forall>e \<in> set L. usable e \<longrightarrow> x < unat (e_base e) \<Longrightarrow> fold extend1 L x = x"
  by (induction L) (auto simp: extend1_def)

text \<open>One pass over a sorted map is enough: no entry that starts up to the end of the block goes past it.\<close>

lemma extend_closed:
  assumes "sorted (map (\<lambda>e. unat (e_base e)) (filter usable L))" "e \<in> set L" "usable e" "unat (e_base e) \<le> fold extend1 L x"
  shows "e_end e \<le> fold extend1 L x"
  using assms
proof (induction L arbitrary: x)
  case (Cons d L)
  show ?case
  proof (cases "usable d \<and> x < unat (e_base d)")
    case True
    then have "\<forall>e \<in> set (d # L). usable e \<longrightarrow> x < unat (e_base e)" using Cons.prems(1) by fastforce
    then show ?thesis using extend_stuck [of "d # L" x] Cons.prems(2-4) by auto
  next
    case False
    have "sorted (map (\<lambda>e. unat (e_base e)) (filter usable L))" using Cons.prems(1) by (auto split: if_splits)
    then have IH: "e \<in> set L \<Longrightarrow> ?thesis" using Cons.IH [of "extend1 d x"] Cons.prems(3,4) by simp
    have "e_end d \<le> extend1 d x" if "usable d" using False that by (auto simp: extend1_def)
    then show ?thesis using IH Cons.prems(2,3) extend_ge [of "extend1 d x" L] by auto
  qed
qed simp

lemma extend_covers: "{x..<fold extend1 L x} \<subseteq> ram L"
proof (induction L arbitrary: x)
  case (Cons e L)
  have "{x..<extend1 e x} \<subseteq> ram [e]" by (auto simp: extend1_def ram_def)
  moreover have "{extend1 e x..<fold extend1 L (extend1 e x)} \<subseteq> ram L" by (rule Cons.IH)
  moreover have "ram (e # L) = ram [e] \<union> ram L" by (auto simp: ram_def)
  moreover have "{x..<fold extend1 (e # L) x} \<subseteq> {x..<extend1 e x} \<union> {extend1 e x..<fold extend1 L (extend1 e x)}" by auto
  ultimately show ?case by blast
qed simp

text \<open>The lowest base from \<open>a\<close> on.\<close>

definition closest :: "Multiboot_E820_Entry list \<Rightarrow> u64 \<Rightarrow> u64" where
  "closest L a = fold (\<lambda>e c. if usable e \<and> e_base e \<ge> a \<and> e_base e < c then e_base e else c) L (NOT 0)"

lemma closest_fold:
  fixes a c0 :: u64
  defines "f \<equiv> \<lambda>e c. if usable e \<and> e_base e \<ge> a \<and> e_base e < c then e_base e else c"
  shows "fold f L c0 \<le> c0 \<and> (fold f L c0 = c0 \<or> (\<exists>e \<in> set L. usable e \<and> e_base e \<ge> a \<and> fold f L c0 = e_base e)) \<and>
     (\<forall>e \<in> set L. usable e \<longrightarrow> e_base e \<ge> a \<longrightarrow> fold f L c0 \<le> e_base e)"
proof (induction L arbitrary: c0)
  case (Cons e L)
  have "f e c0 \<le> c0" "f e c0 = c0 \<or> usable e \<and> e_base e \<ge> a \<and> f e c0 = e_base e" "usable e \<Longrightarrow> e_base e \<ge> a \<Longrightarrow> f e c0 \<le> e_base e"
    by (auto simp: f_def)
  then show ?case using Cons [of "f e c0"] by (auto intro: order.trans)
qed simp

section \<open>The loop over the blocks\<close>

text \<open>
  The blocks made so far, by their start and end, when the next search starts at \<open>a\<close>: they are in order with gaps between them, and hold exactly
  the usable memory of the entries that start below \<open>a\<close>.
\<close>

definition blocks_inv :: "Multiboot_E820_Entry list \<Rightarrow> (nat \<times> nat) list \<Rightarrow> nat \<Rightarrow> bool" where
  "blocks_inv L bs a \<longleftrightarrow>
     (\<forall>b \<in> set bs. fst b < snd b \<and> snd b \<le> a) \<and> sorted_wrt (\<lambda>b c. snd b < fst c) bs \<and> a < 2 ^ 63 \<and>
     (\<Union>b \<in> set bs. {fst b..<snd b}) = ram (filter (\<lambda>e. unat (e_base e) < a) L) \<and>
     (\<forall>e \<in> set L. usable e \<longrightarrow> unat (e_base e) < a \<longrightarrow> e_end e \<le> a) \<and>
     (bs \<noteq> [] \<longrightarrow> (\<forall>e \<in> set L. usable e \<longrightarrow> unat (e_base e) \<noteq> a))"

lemma blocks_inv_init: "blocks_inv L [] 0"
  by (simp add: blocks_inv_def ram_def)

lemma ram_filter_Un: "ram (filter P L) \<union> ram (filter Q L) = ram (filter (\<lambda>e. P e \<or> Q e) L)"
  by (auto simp: ram_def)

lemma extend_bound:
  assumes "\<forall>e \<in> set L. usable e \<longrightarrow> e_end e < N" "x < N"
  shows "fold extend1 L x < N"
  using assms by (induction L arbitrary: x) (auto simp: extend1_def)

lemma blocks_inv_step:
  assumes ok: "e820_ok L" and inv: "blocks_inv L bs a" and e: "e \<in> set L" "usable e" "c = unat (e_base e)" "a \<le> c"
    and least: "\<forall>d \<in> set L. usable d \<longrightarrow> a \<le> unat (e_base d) \<longrightarrow> c \<le> unat (e_base d)"
  defines "y \<equiv> fold extend1 L c"
  shows "c < y" and "y < 2 ^ 63" and "blocks_inv L (bs @ [(c, y)]) y"
proof -
  have srt: "sorted (map (\<lambda>e. unat (e_base e)) (filter usable L))" and pos: "\<And>d. d \<in> set L \<Longrightarrow> usable d \<Longrightarrow> unat (e_base d) < e_end d"
    using ok by (auto simp: e820_ok_def e_end_def)
  have cy: "c \<le> y" unfolding y_def by (rule extend_ge)
  have closed: "\<And>d. d \<in> set L \<Longrightarrow> usable d \<Longrightarrow> unat (e_base d) \<le> y \<Longrightarrow> e_end d \<le> y"
    using extend_closed [OF srt] unfolding y_def by blast
  have "c < e_end e" "e_end e \<le> y" using pos closed e cy by auto
  then show lt: "c < y" by simp
  have "\<forall>d \<in> set L. usable d \<longrightarrow> e_end d < 2 ^ 63" using ok by (simp add: e820_ok_def)
  moreover have "c < 2 ^ 63" using ok e \<open>c < e_end e\<close> by (fastforce simp: e820_ok_def)
  ultimately show y63: "y < 2 ^ 63" unfolding y_def by (rule extend_bound)
  have ac: "a < c" if "bs \<noteq> []" using inv that e by (force simp: blocks_inv_def)
  have "{c..<y} = ram (filter (\<lambda>d. c \<le> unat (e_base d) \<and> unat (e_base d) < y) L)"
  proof
    show "{c..<y} \<subseteq> ram (filter (\<lambda>d. c \<le> unat (e_base d) \<and> unat (e_base d) < y) L)"
    proof
      fix x assume x: "x \<in> {c..<y}"
      then have "x \<in> ram L" using extend_covers [of c L] unfolding y_def by blast
      then obtain d where d: "d \<in> set L" "usable d" "unat (e_base d) \<le> x" "x < e_end d" by (auto simp: ram_def)
      have "\<not> unat (e_base d) < a" using inv d x e(4) by (force simp: blocks_inv_def)
      then have "c \<le> unat (e_base d)" using least d by auto
      then show "x \<in> ram (filter (\<lambda>d. c \<le> unat (e_base d) \<and> unat (e_base d) < y) L)" using d x by (force simp: ram_def)
    qed
    show "ram (filter (\<lambda>d. c \<le> unat (e_base d) \<and> unat (e_base d) < y) L) \<subseteq> {c..<y}"
      using closed by (fastforce simp: ram_def)
  qed
  moreover have "ram (filter (\<lambda>d. unat (e_base d) < y) L) = ram (filter (\<lambda>d. unat (e_base d) < a \<or> c \<le> unat (e_base d) \<and> unat (e_base d) < y) L)"
    unfolding ram_def using least cy e(4) by (intro SUP_cong) (auto simp: not_less)
  moreover have "(\<Union>b \<in> set bs. {fst b..<snd b}) = ram (filter (\<lambda>d. unat (e_base d) < a) L)" using inv by (simp add: blocks_inv_def)
  ultimately have "(\<Union>b \<in> set (bs @ [(c, y)]). {fst b..<snd b}) = ram (filter (\<lambda>d. unat (e_base d) < y) L)"
    by (simp add: ram_filter_Un Un_commute)
  then show "blocks_inv L (bs @ [(c, y)]) y"
    using inv lt y63 closed pos ac e(4) unfolding blocks_inv_def by (fastforce simp: sorted_wrt_append)
qed

section \<open>The table in memory\<close>

lemma load32_store32_next: "load32 (store32 m (a + 4) v) a = load32 m a"
proof (rule load32_cong)
  show "store32 m (a + 4) v a = m a" "store32 m (a + 4) v (a + 1) = m (a + 1)"
      "store32 m (a + 4) v (a + 2) = m (a + 2)" "store32 m (a + 4) v (a + 3) = m (a + 3)"
    by (rule store32_other; simp)+
qed

lemma load64_store64_same [simp]: "load64 (store64 m a v) a = v"
proof -
  have "load64 (store64 m a v) a = ucast (ucast v :: u32) OR push_bit 32 (ucast (ucast (drop_bit 32 v) :: u32))"
    by (simp add: load64_def store64_def load32_store32_next)
  also have "\<dots> = v" by (rule bit_word_eqI) (auto simp: bit_simps)
  finally show ?thesis .
qed

lemma same_store64:
  assumes "unat a + 8 \<le> 2 ^ 32" "hi \<le> unat a \<or> unat a + 8 \<le> lo"
  shows "same_between m (store64 m a v) lo hi"
proof -
  have "unat (a + 4) = unat a + 4" using assms(1) unat_u32_plus [of a 4] by simp
  then show ?thesis unfolding store64_def using assms by (intro same_trans [OF same_store32 same_store32]) auto
qed

lemma load64_same:
  assumes "same_between m m' lo hi" "lo \<le> unat a" "unat a + 8 \<le> hi" "hi \<le> 2 ^ 32"
  shows "load64 m' a = load64 m a"
proof -
  have "unat (a + 4) = unat a + 4" using assms unat_u32_plus [of a 4] by simp
  then show ?thesis using assms load32_same [OF assms(1)] by (simp add: load64_def)
qed

lemma unat_offset: "unat t + d < 2 ^ 32 \<Longrightarrow> unat (t + of_nat d) = unat t + d" for t :: u32
  by (subst unat_u32_plus) (simp_all add: unat_of_nat)

lemma unat_entry:
  fixes t :: u32
  assumes "unat t + w * i + w \<le> 2 ^ 32" "d < w"
  shows "unat (t + of_nat w * of_nat i + of_nat d) = unat t + w * i + d"
  using assms unat_offset [of t "w * i + d"] by (simp add: add.assoc)

lemma unat_block:
  fixes t :: u32
  assumes "unat t + 16 * i + 16 \<le> 2 ^ 32"
  shows "unat (t + 16 * of_nat i) = unat t + 16 * i" "unat (t + 16 * of_nat i + 8) = unat t + 16 * i + 8"
  using unat_entry [of t 16 i 0] unat_entry [of t 16 i 8] assms by simp_all

lemma read_write_block:
  assumes "unat t + 16 * i + 16 \<le> 2 ^ 32"
  shows "read_block (write_block t i a z m) t i = \<lparr>b_address = a, b_size = z\<rparr>"
proof -
  let ?m = "store64 m (t + 16 * of_nat i) a"
  have "same_between ?m (store64 ?m (t + 16 * of_nat i + 8) z) 0 (unat t + 16 * i + 8)"
    by (rule same_store64) (use assms unat_block [OF assms] in simp_all)
  then have "load64 (store64 ?m (t + 16 * of_nat i + 8) z) (t + 16 * of_nat i) = a"
    using load64_same [of ?m _ 0 "unat t + 16 * i + 8" "t + 16 * of_nat i"] unat_block [OF assms] assms by simp
  then show ?thesis by (simp add: read_block_def write_block_def)
qed

lemma same_write_block:
  assumes "unat t + 16 * i + 16 \<le> 2 ^ 32" "hi \<le> unat t + 16 * i \<or> unat t + 16 * i + 16 \<le> lo"
  shows "same_between m (write_block t i a z m) lo hi"
  unfolding write_block_def
  by (rule same_trans; rule same_store64) (use assms unat_block [OF assms(1)] in auto)

lemma read_block_same:
  assumes "same_between m m' lo hi" "lo \<le> unat t + 16 * i" "unat t + 16 * i + 16 \<le> hi" "hi \<le> 2 ^ 32"
  shows "read_block m' t i = read_block m t i"
proof -
  have u: "unat t + 16 * i + 16 \<le> 2 ^ 32" using assms by simp
  show ?thesis using assms unat_block [OF u] load64_same [OF assms(1)] by (simp add: read_block_def)
qed

lemma e820_at_same:
  assumes "same_between m m' 0 hi" "unat table + 24 * n \<le> hi" "hi \<le> 2 ^ 32" "i < n"
  shows "e820_at m' table i = e820_at m table i"
proof -
  have le: "unat table + 24 * i + 24 \<le> hi" using assms(2,4) by simp
  then have u: "unat (table + 24 * of_nat i) = unat table + 24 * i" "unat (table + 24 * of_nat i + 8) = unat table + 24 * i + 8"
      "unat (table + 24 * of_nat i + 16) = unat table + 24 * i + 16" "unat (table + 24 * of_nat i + 20) = unat table + 24 * i + 20"
    using unat_entry [of table 24 i 0] unat_entry [of table 24 i 8] unat_entry [of table 24 i 16] unat_entry [of table 24 i 20] assms(3)
    by simp_all
  show ?thesis using le assms(3) u load64_same [OF assms(1)] load32_same [OF assms(1)] by (simp add: e820_at_def read_E820_def)
qed

lemma e820_map_same:
  assumes "same_between m m' 0 hi" "unat table + 24 * n \<le> hi" "hi \<le> 2 ^ 32"
  shows "map (e820_at m' table) [0..<n] = map (e820_at m table) [0..<n]"
  using e820_at_same [OF assms] by simp

lemma closest_boundary_list: "closest_boundary m table n a = closest (map (e820_at m table) [0..<n]) a"
  unfolding closest_boundary_def closest_def fold_map by (simp add: comp_def Let_def)

text \<open>A block by its start and its end.\<close>

definition block_of :: "nat \<times> nat \<Rightarrow> BootInfo_BlockRAM" where
  "block_of b = \<lparr>b_address = of_nat (fst b), b_size = of_nat (snd b - fst b)\<rparr>"

lemma e_end_word: "e_end e < 2 ^ 63 \<Longrightarrow> e_base e + e_size e = of_nat (e_end e)"
  by (simp add: e_end_def)

lemma extend_fold:
  assumes "\<forall>i \<in> set is. i < n" "unat table + 24 * n \<le> unat t" "unat t + 16 * k + 16 \<le> 2 ^ 32"
    and "\<forall>i < n. usable (e820_at m table i) \<longrightarrow> e_end (e820_at m table i) < 2 ^ 63"
    and "same_between m m1 0 (unat t + 16 * k)" "read_block m1 t k = block_of (c, x)" "c \<le> x" "x < 2 ^ 63"
  defines "f \<equiv> \<lambda>i m. let e = e820_at m table i; b = read_block m t k; e820_entry_end = e_base e + e_size e;
                    table_entry_end = b_address b + b_size b
        in if usable e \<and> e820_entry_end \<ge> table_entry_end \<and> e_base e \<le> table_entry_end
           then write_block t k (b_address b) (e820_entry_end - b_address b) m else m"
  shows "read_block (fold f is m1) t k = block_of (c, fold extend1 (map (e820_at m table) is) x) \<and>
     same_between m (fold f is m1) 0 (unat t + 16 * k)"
  using assms(1,5-8)
proof (induction "is" arbitrary: m1 x)
  case (Cons i "is")
  let ?e = "e820_at m table i" and ?x = "extend1 (e820_at m table i) x"
  have "same_between m m1 0 (unat t)" by (rule same_mono [OF Cons.prems(2)]) simp_all
  then have e: "e820_at m1 table i = ?e"
    using assms(2,3) Cons.prems(1) by (intro e820_at_same [where hi = "unat t" and n = n]) simp_all
  have x: "b_address (block_of (c, x)) + b_size (block_of (c, x)) = of_nat x"
    using Cons.prems(4) by (simp add: block_of_def of_nat_diff)
  have ux: "unat (of_nat x :: u64) = x" by (rule unat_u64_of_nat) (use Cons.prems(5) in simp)
  have step: "read_block (f i m1) t k = block_of (c, ?x) \<and> same_between m (f i m1) 0 (unat t + 16 * k) \<and> c \<le> ?x \<and> ?x < 2 ^ 63"
  proof (cases "usable ?e")
    case True
    then have lt: "e_end ?e < 2 ^ 63" using assms(4) Cons.prems(1) by simp
    then have ue: "unat (of_nat (e_end ?e) :: u64) = e_end ?e" by (intro unat_u64_of_nat) simp
    show ?thesis
    proof (cases "x \<le> e_end ?e \<and> unat (e_base ?e) \<le> x")
      case go: True
      have "f i m1 = write_block t k (of_nat c) (of_nat (e_end ?e) - of_nat c) m1"
        using go True by (simp add: f_def e Let_def Cons.prems(3) x e_end_word [OF lt] word_le_nat_alt ux ue) (simp add: block_of_def)
      moreover have "(of_nat (e_end ?e) - of_nat c :: u64) = of_nat (e_end ?e - c)" using go Cons.prems(4) by (simp add: of_nat_diff)
      ultimately have "f i m1 = write_block t k (of_nat c) (of_nat (e_end ?e - c)) m1" by simp
      moreover have "same_between m (write_block t k (of_nat c) (of_nat (e_end ?e - c)) m1) 0 (unat t + 16 * k)"
        by (rule same_trans [OF Cons.prems(2) same_write_block]) (use assms(3) in simp_all)
      ultimately show ?thesis using go True lt Cons.prems(4) read_write_block [OF assms(3)] by (auto simp: extend1_def block_of_def)
    next
      case stay: False
      have "f i m1 = m1"
        using stay by (auto simp: f_def e Let_def Cons.prems(3) x e_end_word [OF lt] word_le_nat_alt ux ue)
      moreover have "?x = x" using stay by (auto simp: extend1_def)
      ultimately show ?thesis using Cons.prems by simp
    qed
  next
    case False
    then have "f i m1 = m1" "?x = x" by (simp_all add: f_def e Let_def extend1_def)
    then show ?thesis using Cons.prems by simp
  qed
  then show ?case using Cons.IH [of "f i m1" ?x] Cons.prems(1) by simp
qed simp

lemma extend_block_ok:
  assumes "unat table + 24 * n \<le> unat t" "unat t + 16 * k + 16 \<le> 2 ^ 32" "e820_ok (map (e820_at m table) [0..<n])" "c < 2 ^ 63"
  defines "m' \<equiv> extend_block table t k n (write_block t k (of_nat c) 0 m)"
  shows "read_block m' t k = block_of (c, fold extend1 (map (e820_at m table) [0..<n]) c)" and "same_between m m' 0 (unat t + 16 * k)"
proof -
  have "same_between m (write_block t k (of_nat c) 0 m) 0 (unat t + 16 * k)" by (rule same_write_block [OF assms(2)]) simp
  moreover have "read_block (write_block t k (of_nat c) 0 m) t k = block_of (c, c)"
    using read_write_block [OF assms(2)] by (simp add: block_of_def)
  moreover have "\<forall>i < n. usable (e820_at m table i) \<longrightarrow> e_end (e820_at m table i) < 2 ^ 63" using assms(3) by (auto simp: e820_ok_def)
  ultimately show "read_block m' t k = block_of (c, fold extend1 (map (e820_at m table) [0..<n]) c)" "same_between m m' 0 (unat t + 16 * k)"
    using extend_fold [of "[0..<n]" n table t k m "write_block t k (of_nat c) 0 m" c c] assms(1,2,4)
    unfolding m'_def extend_block_def by simp_all
qed

definition blocks_at :: "memory \<Rightarrow> u32 \<Rightarrow> (nat \<times> nat) list \<Rightarrow> bool" where
  "blocks_at m t bs \<longleftrightarrow> (\<forall>i < length bs. read_block m t i = block_of (bs ! i))"

lemma blocks_at_same_from:
  assumes "blocks_at m t bs" "same_between m m' lo hi" "lo \<le> unat t" "unat t + 16 * length bs \<le> hi" "hi \<le> 2 ^ 32"
  shows "blocks_at m' t bs"
  unfolding blocks_at_def
proof (intro allI impI)
  fix i assume "i < length bs"
  moreover from this have "read_block m' t i = read_block m t i" using assms(3-5) by (intro read_block_same [OF assms(2)]) simp_all
  ultimately show "read_block m' t i = block_of (bs ! i)" using assms(1) by (simp add: blocks_at_def)
qed

lemmas blocks_at_same = blocks_at_same_from [where lo = 0, OF _ _ le0]

lemma blocks_at_snoc: "blocks_at m t (bs @ [b]) \<longleftrightarrow> blocks_at m t bs \<and> read_block m t (length bs) = block_of b"
  by (auto simp: blocks_at_def nth_append less_Suc_eq)

text \<open>One turn of the loop: the block, and the address from which the next search starts.\<close>

lemma build_turn:
  assumes "unat table + 24 * n \<le> unat t" "unat t + 16 * Suc (length bs) + 16 \<le> 2 ^ 32" "e820_ok (map (e820_at m table) [0..<n])"
    and "blocks_at m t bs" "c < y" "y < 2 ^ 63" "y = fold extend1 (map (e820_at m table) [0..<n]) c"
  defines "m1 \<equiv> extend_block table t (length bs) n (write_block t (length bs) (of_nat c) 0 m)"
  defines "m2 \<equiv> store64 m1 (t + 16 * of_nat (Suc (length bs))) (b_address (read_block m1 t (length bs)) + b_size (read_block m1 t (length bs)))"
  shows "blocks_at m2 t (bs @ [(c, y)])" and "b_address (read_block m2 t (Suc (length bs))) = of_nat y" and "same_between m m2 0 (unat t)"
proof -
  let ?k = "length bs"
  have k: "unat t + 16 * ?k + 16 \<le> 2 ^ 32" using assms(2) by simp
  note ext = extend_block_ok [OF assms(1) k assms(3), of c, folded m1_def assms(7)]
  have b: "read_block m1 t ?k = block_of (c, y)" and s1: "same_between m m1 0 (unat t + 16 * ?k)" using ext assms(5,6) by auto
  have s2: "same_between m1 m2 0 (unat t + 16 * Suc ?k)"
    unfolding m2_def by (rule same_store64) (use assms(2) unat_block(1) [of t "Suc ?k"] in auto)
  have "blocks_at m1 t bs" by (rule blocks_at_same [OF assms(4) s1]) (use k in simp_all)
  then have "blocks_at m1 t (bs @ [(c, y)])" using b by (simp add: blocks_at_snoc)
  then show "blocks_at m2 t (bs @ [(c, y)])" by (rule blocks_at_same [OF _ s2]) (use k in simp_all)
  show "b_address (read_block m2 t (Suc ?k)) = of_nat y"
    unfolding m2_def b using assms(5) by (simp add: read_block_def block_of_def of_nat_diff)
  show "same_between m m2 0 (unat t)" by (rule same_trans [OF same_mono [OF s1] same_mono [OF s2]]) simp_all
qed

lemma closest_cases:
  assumes "e820_ok L" "a < 2 ^ 63"
  shows "closest L (of_nat a) = NOT 0 \<and> (\<forall>e \<in> set L. usable e \<longrightarrow> unat (e_base e) < a) \<or>
    closest L (of_nat a) \<noteq> NOT 0 \<and> (\<exists>e \<in> set L. usable e \<and> closest L (of_nat a) = e_base e \<and> a \<le> unat (e_base e) \<and>
      (\<forall>d \<in> set L. usable d \<longrightarrow> a \<le> unat (e_base d) \<longrightarrow> unat (e_base e) \<le> unat (e_base d)))"
proof -
  have u: "unat (of_nat a :: u64) = a" by (rule unat_u64_of_nat) (use assms(2) in simp)
  note c = closest_fold [of "of_nat a" L "NOT 0", folded closest_def, unfolded word_le_nat_alt u]
  have top: "unat (e_base e) < 2 ^ 63" if "e \<in> set L" "usable e" for e using assms(1) that by (auto simp: e820_ok_def e_end_def)
  have "unat (NOT 0 :: u64) = 2 ^ 64 - 1" by (simp add: unsigned_minus_1_eq_mask mask_eq_exp_minus_1)
  then have ne: "e_base e \<noteq> NOT 0" "\<not> unat (NOT 0 :: u64) \<le> unat (e_base e)" if "e \<in> set L" "usable e" for e using top [OF that] by auto
  show ?thesis
  proof (cases "closest L (of_nat a) = NOT 0")
    case True
    then show ?thesis using c ne by (auto simp: not_le [symmetric])
  next
    case False
    then show ?thesis using c by metis
  qed
qed

definition table_of :: "Multiboot_E820_Entry list \<Rightarrow> (nat \<times> nat) list \<Rightarrow> bool" where
  "table_of L bs \<longleftrightarrow> (\<forall>b \<in> set bs. fst b < snd b \<and> snd b < 2 ^ 63) \<and> sorted_wrt (\<lambda>b c. snd b < fst c) bs \<and>
     (\<Union>b \<in> set bs. {fst b..<snd b}) = ram L"

lemma table_of_inv:
  assumes "blocks_inv L bs a" "\<forall>e \<in> set L. usable e \<longrightarrow> unat (e_base e) < a"
  shows "table_of L bs"
proof -
  have "ram (filter (\<lambda>e. unat (e_base e) < a) L) = ram L" using assms(2) by (auto simp: ram_def)
  then show ?thesis using assms(1) by (force simp: blocks_inv_def table_of_def)
qed

lemma filter_fewer:
  assumes "e \<in> set L" "P e" "\<not> Q e" "\<And>x. Q x \<Longrightarrow> P x"
  shows "length (filter Q L) < length (filter P L)"
  using assms(1)
proof (induction L)
  case (Cons x L)
  have "length (filter Q L) \<le> length (filter P L)" by (induction L) (auto simp: assms(4))
  then show ?case using Cons assms(2-) by (auto simp: less_Suc_eq_le)
qed simp

lemma build_blocks_ok:
  assumes "L = map (e820_at m table) [0..<n]" "e820_ok L" "unat table + 24 * n \<le> unat t" "unat t + 16 * n + 16 \<le> 2 ^ 32"
    and "blocks_at m t bs" "b_address (read_block m t (length bs)) = of_nat a" "blocks_inv L bs a"
    and "length bs + length (filter (\<lambda>e. usable e \<and> a \<le> unat (e_base e)) L) \<le> n"
  shows "\<exists>bs' m'. build_blocks table n t (length bs) m = Some (length bs', m') \<and> length bs' \<le> n \<and> blocks_at m' t bs' \<and>
     table_of L bs' \<and> same_between m m' 0 (unat t)"
  using assms
proof (induction "length (filter (\<lambda>e. usable e \<and> a \<le> unat (e_base e)) L)" arbitrary: a bs m rule: less_induct)
  case less
  have a: "a < 2 ^ 63" using less.prems(7) by (simp add: blocks_inv_def)
  have c: "closest_boundary m table n (b_address (read_block m t (length bs))) = closest L (of_nat a)"
    unfolding closest_boundary_list less.prems(6) less.prems(1) by simp
  from closest_cases [OF less.prems(2) a] show ?case
  proof (elim disjE conjE bexE)
    assume "closest L (of_nat a) = NOT 0" and all: "\<forall>e \<in> set L. usable e \<longrightarrow> unat (e_base e) < a"
    then have "build_blocks table n t (length bs) m = Some (length bs, m)" using c by (subst build_blocks.simps) simp
    then show ?case using table_of_inv [OF less.prems(7) all] less.prems(5,8) by (auto simp: same_between_def)
  next
    fix e assume more: "closest L (of_nat a) \<noteq> NOT 0" and e: "e \<in> set L" "usable e" "closest L (of_nat a) = e_base e" "a \<le> unat (e_base e)"
      and least: "\<forall>d \<in> set L. usable d \<longrightarrow> a \<le> unat (e_base d) \<longrightarrow> unat (e_base e) \<le> unat (e_base d)"
    define y where "y = fold extend1 L (unat (e_base e))"
    note inv = blocks_inv_step [OF less.prems(2,7) e(1,2) refl e(4) least, folded y_def]
    let ?c = "unat (e_base e)" and ?k = "length bs"
    define m1 where "m1 = extend_block table t ?k n (write_block t ?k (e_base e) 0 m)"
    define m2 where "m2 = store64 m1 (t + 16 * of_nat (Suc ?k)) (b_address (read_block m1 t ?k) + b_size (read_block m1 t ?k))"
    have fewer: "length (filter (\<lambda>d. usable d \<and> y \<le> unat (e_base d)) L) < length (filter (\<lambda>d. usable d \<and> a \<le> unat (e_base d)) L)"
      by (rule filter_fewer [OF e(1)]) (use e inv(1) in auto)
    then have k: "Suc ?k \<le> n" using less.prems(8) by linarith
    have turn: "blocks_at m2 t (bs @ [(?c, y)])" "b_address (read_block m2 t (Suc ?k)) = of_nat y" "same_between m m2 0 (unat t)"
      using build_turn [OF less.prems(3) _ _ less.prems(5) inv(1,2), folded less.prems(1)] k less.prems(2,4) unfolding m2_def m1_def y_def by simp_all
    have L2: "L = map (e820_at m2 table) [0..<n]"
      using e820_map_same [OF turn(3) less.prems(3)] less.prems(1,4) by simp
    have "\<exists>bs' m'. build_blocks table n t (length (bs @ [(?c, y)])) m2 = Some (length bs', m') \<and> length bs' \<le> n \<and> blocks_at m' t bs' \<and>
        table_of L bs' \<and> same_between m2 m' 0 (unat t)"
      by (rule less.hyps [OF fewer L2 less.prems(2-4) turn(1) _ inv(3)]) (use turn(2) fewer less.prems(8) in simp_all)
    moreover have "build_blocks table n t ?k m = build_blocks table n t (Suc ?k) m2"
      using more c e(3) by (subst build_blocks.simps) (simp add: m2_def m1_def Let_def)
    ultimately show ?case using same_trans [OF turn(3)] by auto
  qed
qed

section \<open>Page boundaries\<close>

definition align_pair :: "nat \<times> nat \<Rightarrow> nat \<times> nat" where
  "align_pair b = (let lo = (fst b + 4095) div 4096 * 4096; hi = snd b div 4096 * 4096 in if lo < hi then (lo, hi) else (0, 0))"

lemma page_floor: "x < 2 ^ 64 \<Longrightarrow> (of_nat x :: u64) AND NOT 0xFFF = of_nat (x div 4096 * 4096)"
proof -
  assume x: "x < 2 ^ 64"
  have "y AND NOT 0xFFF = push_bit 12 (drop_bit 12 y)" for y :: u64
  proof -
    have low: "(0xFFF :: u64) = mask 12" by (simp add: mask_eq_exp_minus_1)
    show ?thesis unfolding low by (intro bit_word_eqI) (auto simp: bit_simps)
  qed
  moreover have "drop_bit 12 (of_nat x :: u64) = of_nat (x div 4096)"
    using x by (intro word_unat_eq_iff [THEN iffD2]) (simp add: unat_drop_bit_eq drop_bit_eq_div unat_div unat_of_nat)
  ultimately show ?thesis by (simp add: push_bit_eq_mult)
qed

lemma ceil_eq: "(x + 4095) div 4096 * 4096 = (if x div 4096 * 4096 < x then x div 4096 * 4096 + 4096 else x div 4096 * 4096)" for x :: nat
proof -
  define d r where "d = x div 4096" and "r = x mod 4096"
  have x: "x = d * 4096 + r" "r < 4096" by (simp_all add: d_def r_def)
  have "(x + 4095) div 4096 = (if r = 0 then d else d + 1)"
  proof (cases "r = 0")
    case False
    then have "x + 4095 = (d + 1) * 4096 + (r - 1)" "r - 1 < 4096" using x by simp_all
    then show ?thesis using False by (simp only: div_mult_self3 div_less if_False)
  qed (simp add: x)
  then show ?thesis unfolding d_def [symmetric] using x by simp
qed

lemma page_ceil:
  assumes "x < 2 ^ 63"
  shows "(if (of_nat (x div 4096 * 4096) :: u64) < of_nat x then of_nat (x div 4096 * 4096) + 0x1000 else of_nat (x div 4096 * 4096)) =
    (of_nat ((x + 4095) div 4096 * 4096) :: u64)"
proof -
  have "(of_nat (x div 4096 * 4096) :: u64) < of_nat x \<longleftrightarrow> x div 4096 * 4096 < x"
    unfolding word_less_nat_alt using assms by (subst (1 2) unat_u64_of_nat) simp_all
  moreover have "(x + 4095) div 4096 * 4096 = (if x div 4096 * 4096 < x then x div 4096 * 4096 + 4096 else x div 4096 * 4096)"
    by (rule ceil_eq)
  moreover have "(of_nat (x div 4096 * 4096 + 4096) :: u64) = of_nat (x div 4096 * 4096) + 0x1000" by (simp only: of_nat_add of_nat_numeral)
  ultimately show ?thesis by (cases "x div 4096 * 4096 < x") (simp_all only: if_True if_False)
qed

lemma align_block_eq:
  assumes "read_block m t i = block_of b" "fst b \<le> snd b" "snd b < 2 ^ 63"
  shows "align_block t i m = write_block t i (of_nat (fst (align_pair b))) (of_nat (snd (align_pair b) - fst (align_pair b))) m"
proof -
  let ?lo = "(fst b + 4095) div 4096 * 4096" and ?hi = "snd b div 4096 * 4096"
  have sum: "b_address (block_of b) + b_size (block_of b) = of_nat (snd b)" using assms(2) by (simp add: block_of_def of_nat_diff)
  have fl: "(of_nat (fst b) :: u64) AND NOT 0xFFF = of_nat (fst b div 4096 * 4096)" "(of_nat (snd b) :: u64) AND NOT 0xFFF = of_nat ?hi"
    using assms(2,3) by (intro page_floor; simp)+
  have "?lo < 2 ^ 64" "?hi < 2 ^ 64" using assms(2,3) by simp_all
  then have lt: "(of_nat ?hi :: u64) > of_nat ?lo \<longleftrightarrow> ?lo < ?hi" unfolding word_less_nat_alt by (simp only: unat_u64_of_nat)
  have ceil: "(if (of_nat (fst b div 4096 * 4096) :: u64) < of_nat (fst b) then of_nat (fst b div 4096 * 4096) + 0x1000
      else of_nat (fst b div 4096 * 4096)) = (of_nat ?lo :: u64)" by (rule page_ceil) (use assms in simp)
  have addr: "b_address (block_of b) = of_nat (fst b)" by (simp add: block_of_def)
  show ?thesis
    unfolding align_block_def Let_def assms(1) sum unfolding addr fl ceil lt align_pair_def Let_def
    by (cases "?lo < ?hi") (simp_all only: if_True if_False fst_conv snd_conv semiring_1_class.of_nat_0 diff_self_eq_0 of_nat_diff less_imp_le)
qed

lemma blocks_at_write:
  assumes "blocks_at m t bs" "i < length bs" "unat t + 16 * length bs \<le> 2 ^ 32"
  shows "blocks_at (write_block t i (of_nat (fst b)) (of_nat (snd b - fst b)) m) t (bs[i := b])"
  unfolding blocks_at_def
proof (intro allI impI)
  fix j assume j: "j < length (bs[i := b])"
  let ?m = "write_block t i (of_nat (fst b)) (of_nat (snd b - fst b)) m"
  have i: "unat t + 16 * i + 16 \<le> 2 ^ 32" using assms(2,3) by simp
  consider "j = i" | "j < i" | "i < j" by linarith
  then show "read_block ?m t j = block_of (bs[i := b] ! j)"
  proof cases
    case 1
    then show ?thesis using read_write_block [OF i] assms(2) by (simp add: block_of_def)
  next
    case 2
    have "same_between m ?m 0 (unat t + 16 * i)" by (rule same_write_block [OF i]) simp
    then have "read_block ?m t j = read_block m t j" by (rule read_block_same) (use 2 i in simp_all)
    then show ?thesis using 2 j assms(1) by (simp add: blocks_at_def)
  next
    case 3
    have "same_between m ?m (unat t + 16 * i + 16) (2 ^ 32)" by (rule same_write_block [OF i]) simp
    then have "read_block ?m t j = read_block m t j" by (rule read_block_same) (use 3 j assms(3) in simp_all)
    then show ?thesis using 3 j assms(1) by (simp add: blocks_at_def)
  qed
qed

lemma align_fold:
  assumes "blocks_at m t bs" "\<forall>b \<in> set bs. fst b < snd b \<and> snd b < 2 ^ 63" "unat t + 16 * length bs \<le> 2 ^ 32" "j \<le> length bs"
  shows "blocks_at (fold (align_block t) [0..<j] m) t (map align_pair (take j bs) @ drop j bs) \<and>
     same_between m (fold (align_block t) [0..<j] m) 0 (unat t)"
  using assms(4)
proof (induction j)
  case (Suc j)
  let ?m = "fold (align_block t) [0..<j] m" and ?bs = "map align_pair (take j bs) @ drop j bs" and ?b = "bs ! j"
  have IH: "blocks_at ?m t ?bs" "same_between m ?m 0 (unat t)" using Suc by simp_all
  have len: "length ?bs = length bs" "j < length bs" and nth: "?bs ! j = ?b" using Suc.prems by (simp_all add: nth_append)
  have "read_block ?m t j = block_of ?b" using IH(1) len nth by (simp add: blocks_at_def)
  then have eq: "align_block t j ?m = write_block t j (of_nat (fst (align_pair ?b))) (of_nat (snd (align_pair ?b) - fst (align_pair ?b))) ?m"
    using assms(2) len(2) by (intro align_block_eq) (auto simp: less_imp_le)
  have "?bs[j := align_pair ?b] = map align_pair (take (Suc j) bs) @ drop (Suc j) bs"
    using len(2) by (simp add: list_update_append take_Suc_conv_app_nth Cons_nth_drop_Suc [symmetric])
  moreover have "blocks_at (align_block t j ?m) t (?bs[j := align_pair ?b])"
    unfolding eq by (rule blocks_at_write [OF IH(1)]) (use len assms(3) in simp_all)
  moreover have "same_between ?m (align_block t j ?m) 0 (unat t)" unfolding eq by (rule same_write_block) (use len assms(3) in simp_all)
  ultimately show ?case using same_trans [OF IH(2)] by simp
qed (use assms(1) in \<open>simp add: same_between_def\<close>)

section \<open>Empty blocks\<close>

lemma load64_moved:
  assumes "\<And>i. i < 8 \<Longrightarrow> m' (a + of_nat i) = m (b + of_nat i)"
  shows "load64 m' a = load64 m b"
proof -
  have w: "m' a = m b" "m' (a + 1) = m (b + 1)" "m' (a + 2) = m (b + 2)" "m' (a + 3) = m (b + 3)" "m' (a + 4) = m (b + 4)"
      "m' (a + 5) = m (b + 5)" "m' (a + 6) = m (b + 6)" "m' (a + 7) = m (b + 7)"
    using assms [of 0] assms [of 1] assms [of 2] assms [of 3] assms [of 4] assms [of 5] assms [of 6] assms [of 7] by simp_all
  show ?thesis by (simp add: load64_def load32_def w add.assoc)
qed

text \<open>The move that takes block \<open>i\<close> of \<open>N\<close> out of the table.\<close>

definition without :: "u32 \<Rightarrow> nat \<Rightarrow> nat \<Rightarrow> memory \<Rightarrow> memory" where
  "without t i N m = snd (memmove m (t + 16 * of_nat i) (t + 16 * of_nat (Suc i)) (of_nat ((N - i - 1) * 16)))"

lemma without_at:
  assumes "i < N" "unat t + 16 * N + 16 \<le> 2 ^ 32"
  shows "without t i N m = (\<lambda>a. if unat (a - (t + 16 * of_nat i)) < (N - i - 1) * 16 then m (a + 16) else m a)"
proof -
  have n: "unat (of_nat ((N - i - 1) * 16) :: u32) = (N - i - 1) * 16" by (rule unat_u32_of_nat) (use assms in simp)
  have u: "unat (t + 16 * of_nat i) = unat t + 16 * i" by (rule unat_block(1)) (use assms in simp)
  have v: "unat (t + 16 * of_nat (Suc i)) = unat t + 16 * Suc i" by (rule unat_block(1)) (use assms in simp)
  have "t + 16 * of_nat (Suc i) + (a - (t + 16 * of_nat i)) = a + 16" for a by simp
  then show ?thesis
    unfolding without_def using assms
    by (subst memmove_region) (simp_all only: n u v snd_conv word_less_nat_alt, simp_all)
qed

lemma without_same:
  assumes "i < N" "unat t + 16 * N + 16 \<le> 2 ^ 32"
  shows "same_between m (without t i N m) 0 (unat t + 16 * i)"
  unfolding same_between_def
proof (intro allI impI)
  fix a :: u32 assume a: "0 \<le> unat a \<and> unat a < unat t + 16 * i"
  let ?d = "t + 16 * of_nat i"
  have u: "unat ?d = unat t + 16 * i" by (rule unat_block(1)) (use assms in simp)
  have "unat (a - ?d) = 2 ^ 32 + unat a - unat ?d" using a u by (simp add: unat_sub_if')
  then have "\<not> unat (a - ?d) < (N - i - 1) * 16" using u assms by simp
  then show "without t i N m a = m a" by (simp add: without_at [OF assms])
qed

lemma without_moved:
  assumes "i \<le> j" "Suc j < N" "unat t + 16 * N + 16 \<le> 2 ^ 32"
  shows "read_block (without t i N m) t j = read_block m t (Suc j)"
proof -
  have byte: "without t i N m (t + 16 * of_nat j + of_nat d) = m (t + 16 * of_nat (Suc j) + of_nat d)" if "d < 16" for d
  proof -
    have "t + 16 * of_nat j + of_nat d - (t + 16 * of_nat i) = of_nat (16 * (j - i) + d)" using assms(1) by (simp add: of_nat_diff)
    moreover have "unat (of_nat (16 * (j - i) + d) :: u32) = 16 * (j - i) + d" by (rule unat_u32_of_nat) (use assms that in simp)
    moreover have "16 * (j - i) + d < (N - i - 1) * 16" using assms that by simp
    ultimately have lt: "unat (t + 16 * of_nat j + of_nat d - (t + 16 * of_nat i)) < (N - i - 1) * 16" by (simp only:)
    have "i < N" using assms by simp
    then have "without t i N m (t + 16 * of_nat j + of_nat d) = m (t + 16 * of_nat j + of_nat d + 16)"
      by (subst without_at [OF _ assms(3)]) (simp_all only: lt if_True)
    then show ?thesis by (simp add: ac_simps)
  qed
  have "load64 (without t i N m) (t + 16 * of_nat j + of_nat d) = load64 m (t + 16 * of_nat (Suc j) + of_nat d)" if "d \<le> 8" for d
    by (rule load64_moved) (use byte [of "d + _"] that in \<open>simp add: add.assoc\<close>)
  from this [of 0] this [of 8] show ?thesis by (simp add: read_block_def)
qed

abbreviation nonempty :: "nat \<times> nat \<Rightarrow> bool" where
  "nonempty b \<equiv> fst b < snd b"

lemma without_blocks:
  assumes "blocks_at m t bs" "i < length bs" "unat t + 16 * length bs + 16 \<le> 2 ^ 32"
  shows "blocks_at (without t i (length bs) m) t (take i bs @ drop (Suc i) bs)"
  unfolding blocks_at_def
proof (intro allI impI)
  let ?m = "without t i (length bs) m"
  fix j assume "j < length (take i bs @ drop (Suc i) bs)"
  then have j: "j < length bs - 1" using assms(2) by simp
  show "read_block ?m t j = block_of ((take i bs @ drop (Suc i) bs) ! j)"
  proof (cases "j < i")
    case lt: True
    have "read_block ?m t j = read_block m t j"
      by (rule read_block_same [OF without_same [OF assms(2,3)]]) (use lt assms(2,3) in simp_all)
    then show ?thesis using lt assms(1,2) by (simp add: blocks_at_def nth_append)
  next
    case ge: False
    have "read_block ?m t j = read_block m t (Suc j)" by (rule without_moved) (use ge j assms(3) in simp_all)
    then show ?thesis using ge j assms(1,2) by (simp add: blocks_at_def nth_append)
  qed
qed

lemma filter_without:
  assumes "i < length bs" "\<not> P (bs ! i)"
  shows "filter P (take i bs @ drop (Suc i) bs) = filter P bs"
proof -
  have "bs = take i bs @ bs ! i # drop (Suc i) bs" using assms(1) by (rule id_take_nth_drop)
  then have "filter P bs = filter P (take i bs @ bs ! i # drop (Suc i) bs)" by (rule arg_cong)
  then show ?thesis using assms(2) by simp
qed

text \<open>
  What the loop leaves of a table. After a block has been taken out, the loop goes on with the block
  after the one that moved into its place, so that one is kept whatever it is.
\<close>

fun drop_empty :: "(nat \<times> nat) list \<Rightarrow> (nat \<times> nat) list" where
  "drop_empty [] = []"
| "drop_empty [b] = (if nonempty b then [b] else [])"
| "drop_empty (b # c # bs) = (if nonempty b then b # drop_empty (c # bs) else c # drop_empty bs)"

lemma drop_empty_Cons: "nonempty b \<Longrightarrow> drop_empty (b # bs) = b # drop_empty bs"
  by (cases bs) simp_all

lemma drop_empty_empty: "\<not> nonempty b \<Longrightarrow> drop_empty (b # bs) = take 1 bs @ drop_empty (drop 1 bs)"
  by (cases bs) simp_all

lemma drop_empty_filter: "filter nonempty (drop_empty bs) = filter nonempty bs"
  by (induction bs rule: drop_empty.induct) simp_all

lemma drop_empty_subset: "set (drop_empty bs) \<subseteq> set bs"
  by (induction bs rule: drop_empty.induct) auto

lemma drop_empty_length: "length (drop_empty bs) \<le> length bs"
  by (induction bs rule: drop_empty.induct) auto

text \<open>When no two neighbours are empty, no empty block stays.\<close>

lemma drop_empty_all:
  assumes "\<forall>i. Suc i < length bs \<longrightarrow> nonempty (bs ! i) \<or> nonempty (bs ! Suc i)"
  shows "drop_empty bs = filter nonempty bs"
  using assms
proof (induction bs rule: drop_empty.induct)
  case (3 b c bs)
  have tail: "\<forall>i. Suc i < length (c # bs) \<longrightarrow> nonempty ((c # bs) ! i) \<or> nonempty ((c # bs) ! Suc i)"
    using "3.prems" by (metis length_Cons not_less_eq nth_Cons_Suc)
  then have tail2: "\<forall>i. Suc i < length bs \<longrightarrow> nonempty (bs ! i) \<or> nonempty (bs ! Suc i)"
    by (metis length_Cons not_less_eq nth_Cons_Suc)
  have "nonempty b \<or> nonempty c" using "3.prems" by force
  then show ?case using "3.IH"(1) [OF _ tail] "3.IH"(2) [OF _ tail2] by (cases "nonempty b") auto
qed simp_all

lemma remove_empty_ok:
  assumes "blocks_at m t bs" "\<forall>b \<in> set bs. snd b < 2 ^ 63" "unat t + 16 * length bs + 16 \<le> 2 ^ 32"
  shows "\<exists>m'. remove_empty t i (length bs) m = (length (take i bs @ drop_empty (drop i bs)), m') \<and>
     blocks_at m' t (take i bs @ drop_empty (drop i bs)) \<and> same_between m m' 0 (unat t)"
  using assms
proof (induction "length bs - i" arbitrary: i bs m rule: less_induct)
  case less
  show ?case
  proof (cases "i < length bs")
    case False
    then have "remove_empty t i (length bs) m = (length bs, m)" by (subst remove_empty.simps) simp
    then show ?thesis using less.prems(1) False by (intro exI [of _ m]) (simp add: same_between_def)
  next
    case True
    let ?b = "bs ! i"
    have drop: "drop i bs = ?b # drop (Suc i) bs" using True by (rule Cons_nth_drop_Suc [symmetric])
    have "snd ?b < 2 ^ 63" using less.prems(2) True by simp
    then have "unat (of_nat (snd ?b - fst ?b) :: u64) = snd ?b - fst ?b" by (intro unat_u64_of_nat) simp
    then have zero: "b_size (read_block m t i) = 0 \<longleftrightarrow> \<not> nonempty ?b"
      using less.prems(1) True unfolding unat_eq_0 [symmetric] by (simp add: blocks_at_def block_of_def not_less)
    show ?thesis
    proof (cases "nonempty ?b")
      case ne: True
      have eq: "remove_empty t i (length bs) m = remove_empty t (Suc i) (length bs) m"
        using True zero ne by (subst remove_empty.simps) simp
      have view: "take i bs @ drop_empty (drop i bs) = take (Suc i) bs @ drop_empty (drop (Suc i) bs)"
        unfolding drop drop_empty_Cons [OF ne] using True by (simp add: take_Suc_conv_app_nth)
      show ?thesis unfolding eq view by (rule less.hyps [OF _ less.prems]) (use True in simp)
    next
      case empty: False
      let ?bs = "take i bs @ drop (Suc i) bs" and ?m = "without t i (length bs) m"
      have len: "length ?bs = length bs - 1" using True by simp
      have eq: "remove_empty t i (length bs) m = remove_empty t (Suc i) (length ?bs) ?m"
        unfolding len without_def using True zero empty by (subst remove_empty.simps) simp
      have same: "same_between m ?m 0 (unat t)" by (rule same_mono [OF without_same [OF True less.prems(3)]]) simp_all
      have small: "\<forall>b \<in> set ?bs. snd b < 2 ^ 63"
        using less.prems(2) set_take_subset [of i bs] set_drop_subset [of "Suc i" bs] by auto
      have fit: "unat t + 16 * length ?bs + 16 \<le> 2 ^ 32" using len less.prems(3) by linarith
      have shorter: "length ?bs - Suc i < length bs - i" using len True by linarith
      have view: "take i bs @ drop_empty (drop i bs) = take (Suc i) ?bs @ drop_empty (drop (Suc i) ?bs)"
        unfolding drop drop_empty_empty [OF empty] using True by simp
      show ?thesis unfolding eq view
        using less.hyps [OF shorter without_blocks [OF less.prems(1) True less.prems(3)] small fit] same_trans [OF same] by blast
    qed
  qed
qed

section \<open>Memory_StoreInfo\<close>

lemma StoreInfo_ok:
  assumes "L = map (e820_at m table) [0..<unat n]" "e820_ok L" "unat table + 24 * unat n \<le> unat t" "unat t + 16 * unat n + 16 \<le> 2 ^ 32"
  shows "\<exists>bs bs' m'. Memory_StoreInfo t page_align table n m = Some (t + of_nat (length bs') * 16, m') \<and> blocks_at m' t bs' \<and>
     length bs' \<le> unat n \<and> same_between m m' 0 (unat t) \<and> table_of L bs \<and> (\<forall>b \<in> set bs'. snd b < 2 ^ 63) \<and>
     bs' = drop_empty (if page_align then map align_pair bs else bs)"
proof -
  let ?m = "write_block t 0 0 0 m" and ?view = "\<lambda>bs. if page_align then map align_pair bs else bs"
  have s0: "same_between m ?m 0 (unat t)" by (rule same_write_block) (use assms(4) in simp_all)
  have L: "L = map (e820_at ?m table) [0..<unat n]" using e820_map_same [OF s0 assms(3)] assms(1,4) by simp
  have zero: "b_address (read_block ?m t (length [])) = of_nat 0" using read_write_block [of t 0 0 0 m] assms(4) by simp
  have len: "length (filter P L) \<le> unat n" for P using length_filter_le [of P L] assms(1) by simp
  obtain bs m1 where b: "build_blocks table (unat n) t 0 ?m = Some (length bs, m1)" "length bs \<le> unat n" "blocks_at m1 t bs"
      "table_of L bs" "same_between ?m m1 0 (unat t)"
    using build_blocks_ok [OF L assms(2,3,4) _ zero blocks_inv_init] len by (auto simp: blocks_at_def)
  have fit: "unat t + 16 * length bs + 16 \<le> 2 ^ 32" using b(2) assms(4) by linarith
  have bound: "\<forall>b \<in> set bs. fst b < snd b \<and> snd b < 2 ^ 63" using b(4) by (simp add: table_of_def)
  define m2 where "m2 = (if page_align then fold (align_block t) [0..<length bs] m1 else m1)"
  have m2: "blocks_at m2 t (?view bs) \<and> same_between m1 m2 0 (unat t)"
    using align_fold [OF b(3) bound, of "length bs"] fit b(3) by (simp add: m2_def same_between_def)
  have "snd (align_pair b) \<le> snd b" for b :: "nat \<times> nat" by (auto simp: align_pair_def Let_def)
  then have small: "\<forall>b \<in> set (?view bs). snd b < 2 ^ 63" using bound by (auto intro: order.strict_trans1)
  have len2: "length (?view bs) = length bs" by simp
  obtain m' where r: "remove_empty t 0 (length bs) m2 = (length (drop_empty (?view bs)), m')"
      "blocks_at m' t (drop_empty (?view bs))" "same_between m2 m' 0 (unat t)"
    using remove_empty_ok [of m2 t "?view bs" 0, unfolded len2 take_0 drop_0 append_Nil] m2 small fit by blast
  have "Memory_StoreInfo t page_align table n m = Some (t + of_nat (length (drop_empty (?view bs))) * 16, m')"
    using b(1) r(1) by (simp add: Memory_StoreInfo_def m2_def [symmetric])
  moreover have "same_between m m' 0 (unat t)" using same_trans [OF s0 same_trans [OF b(5) same_trans [OF conjunct2 [OF m2] r(3)]]] .
  moreover have "\<forall>b \<in> set (drop_empty (?view bs)). snd b < 2 ^ 63" using drop_empty_subset small by blast
  moreover have "length (drop_empty (?view bs)) \<le> unat n" using drop_empty_length [of "?view bs"] len2 b(2) by linarith
  ultimately show ?thesis using r(2) b(4) by blast
qed

text \<open>The bytes whose whole page is in \<open>R\<close>.\<close>

definition whole_pages :: "nat set \<Rightarrow> nat set" where
  "whole_pages R = {x. \<forall>y. y div 4096 = x div 4096 \<longrightarrow> y \<in> R}"

lemma sorted_wrt_pair: "sorted_wrt P bs \<Longrightarrow> b \<in> set bs \<Longrightarrow> c \<in> set bs \<Longrightarrow> b = c \<or> P b c \<or> P c b"
  by (induction bs) auto

lemma aligned_span: "{fst (align_pair b)..<snd (align_pair b)} = {x. fst b \<le> x div 4096 * 4096 \<and> x div 4096 * 4096 + 4096 \<le> snd b}"
proof -
  have lo: "(fst b + 4095) div 4096 * 4096 \<le> x \<longleftrightarrow> fst b \<le> x div 4096 * 4096" for x
  proof -
    have "(fst b + 4095) div 4096 * 4096 \<le> x \<longleftrightarrow> (fst b + 4095) div 4096 \<le> x div 4096" by (simp add: less_eq_div_iff_mult_less_eq)
    also have "\<dots> \<longleftrightarrow> (fst b + 4095) div 4096 < Suc (x div 4096)" by (simp only: less_Suc_eq_le)
    also have "\<dots> \<longleftrightarrow> fst b + 4095 < Suc (x div 4096) * 4096" by (simp add: div_less_iff_less_mult)
    finally show ?thesis by (simp add: less_Suc_eq_le)
  qed
  have hi: "x < snd b div 4096 * 4096 \<longleftrightarrow> x div 4096 * 4096 + 4096 \<le> snd b" for x
  proof -
    have "x < snd b div 4096 * 4096 \<longleftrightarrow> x div 4096 < snd b div 4096" by (simp add: div_less_iff_less_mult)
    also have "\<dots> \<longleftrightarrow> Suc (x div 4096) * 4096 \<le> snd b" by (simp only: Suc_le_eq [symmetric] less_eq_div_iff_mult_less_eq zero_less_numeral)
    finally show ?thesis by (simp add: add.commute)
  qed
  have "{fst (align_pair b)..<snd (align_pair b)} = {x. (fst b + 4095) div 4096 * 4096 \<le> x \<and> x < snd b div 4096 * 4096}"
    by (auto simp: align_pair_def Let_def)
  then show ?thesis unfolding lo hi .
qed

lemma whole_pages_blocks:
  assumes "table_of L bs"
  shows "(\<Union>b \<in> set (map align_pair bs). {fst b..<snd b}) = whole_pages (ram L)"
proof (rule set_eqI)
  fix x :: nat
  let ?p = "x div 4096 * 4096"
  have page: "y div 4096 = x div 4096 \<longleftrightarrow> ?p \<le> y \<and> y < ?p + 4096" for y
  proof -
    have "y div 4096 = x div 4096 \<longleftrightarrow> x div 4096 \<le> y div 4096 \<and> y div 4096 < Suc (x div 4096)" by linarith
    also have "\<dots> \<longleftrightarrow> ?p \<le> y \<and> y < Suc (x div 4096) * 4096"
      by (simp only: less_eq_div_iff_mult_less_eq div_less_iff_less_mult zero_less_numeral)
    finally show ?thesis by (simp add: add.commute)
  qed
  have "x \<in> (\<Union>b \<in> set (map align_pair bs). {fst b..<snd b}) \<longleftrightarrow> (\<exists>b \<in> set bs. fst b \<le> ?p \<and> ?p + 4096 \<le> snd b)"
    by (simp add: aligned_span)
  also have "\<dots> \<longleftrightarrow> (\<forall>y. ?p \<le> y \<and> y < ?p + 4096 \<longrightarrow> y \<in> (\<Union>b \<in> set bs. {fst b..<snd b}))"
  proof (intro iffI)
    assume "\<exists>b \<in> set bs. fst b \<le> ?p \<and> ?p + 4096 \<le> snd b"
    then show "\<forall>y. ?p \<le> y \<and> y < ?p + 4096 \<longrightarrow> y \<in> (\<Union>b \<in> set bs. {fst b..<snd b})" by force
  next
    assume all: "\<forall>y. ?p \<le> y \<and> y < ?p + 4096 \<longrightarrow> y \<in> (\<Union>b \<in> set bs. {fst b..<snd b})"
    then obtain b where b: "b \<in> set bs" "fst b \<le> ?p" "?p < snd b" by fastforce
    have "?p + 4096 \<le> snd b"
    proof (rule ccontr)
      assume "\<not> ?p + 4096 \<le> snd b"
      then have "?p \<le> snd b" "snd b < ?p + 4096" using b(3) by linarith+
      then have "snd b \<in> (\<Union>b \<in> set bs. {fst b..<snd b})" using all by blast
      then obtain c where c: "c \<in> set bs" "fst c \<le> snd b" "snd b < snd c" by auto
      have "b = c \<or> snd b < fst c \<or> snd c < fst b" by (rule sorted_wrt_pair [of _ bs]) (use assms b(1) c(1) in \<open>simp_all add: table_of_def\<close>)
      then show False using b(2,3) c by auto
    qed
    then show "\<exists>b \<in> set bs. fst b \<le> ?p \<and> ?p + 4096 \<le> snd b" using b by blast
  qed
  also have "\<dots> \<longleftrightarrow> x \<in> whole_pages (ram L)" using assms by (simp add: table_of_def whole_pages_def page)
  finally show "x \<in> (\<Union>b \<in> set (map align_pair bs). {fst b..<snd b}) \<longleftrightarrow> x \<in> whole_pages (ram L)" .
qed

lemma align_pair_bounds: "4096 dvd fst (align_pair b)" "4096 dvd snd (align_pair b)" "snd (align_pair b) \<le> snd b"
  "nonempty (align_pair b) \<Longrightarrow> fst b \<le> fst (align_pair b)"
  by (auto simp: align_pair_def Let_def ceil_eq split: if_splits)

lemma aligned_apart:
  assumes "sorted_wrt (\<lambda>b c. snd b < fst c) bs"
  shows "sorted_wrt (\<lambda>b c. snd b < fst c) (filter nonempty (map align_pair bs))"
  using assms
proof (induction bs)
  case (Cons b bs)
  have "snd (align_pair b) < fst (align_pair c)" if "c \<in> set bs" "nonempty (align_pair c)" for c
    using Cons.prems that align_pair_bounds(3) [of b] align_pair_bounds(4) [of c] by fastforce
  then have "\<forall>c \<in> set (filter nonempty (map align_pair bs)). snd (align_pair b) < fst c" by (simp only: set_filter set_map) blast
  then show ?case using Cons by simp
qed simp

lemma table_of_nonempty: "table_of L bs \<Longrightarrow> filter nonempty bs = bs"
  by (induction bs) (auto simp: table_of_def filter_id_conv)

text \<open>What the caller of \<open>Memory_StoreInfo\<close> can rely on: \<open>R\<close> is the memory listed.\<close>

definition stored_map :: "memory \<Rightarrow> u32 \<Rightarrow> (nat \<times> nat) list \<Rightarrow> nat set \<Rightarrow> bool" where
  "stored_map m t bs R \<longleftrightarrow> blocks_at m t bs \<and> (\<forall>b \<in> set bs. fst b \<le> snd b \<and> snd b < 2 ^ 63) \<and> sorted_wrt (\<lambda>b c. snd b < fst c) (filter nonempty bs) \<and>
     (\<Union>b \<in> set bs. {fst b..<snd b}) = R"

lemma span_nonempty: "(\<Union>b \<in> set (filter nonempty bs). {fst b..<snd b}) = (\<Union>b \<in> set bs. {fst b..<snd b})"
  by auto

lemma StoreInfo_table:
  assumes "L = map (e820_at m table) [0..<unat n]" "e820_ok L" "unat table + 24 * unat n \<le> unat t" "unat t + 16 * unat n + 16 \<le> 2 ^ 32"
  shows "\<exists>all bs m'. Memory_StoreInfo t page_align table n m = Some (t + of_nat (length bs) * 16, m') \<and> length bs \<le> unat n \<and>
     same_between m m' 0 (unat t) \<and> stored_map m' t bs (if page_align then whole_pages (ram L) else ram L) \<and>
     (page_align \<longrightarrow> (\<forall>b \<in> set bs. 4096 dvd fst b \<and> 4096 dvd snd b)) \<and>
     table_of L all \<and> bs = drop_empty (if page_align then map align_pair all else all)"
proof -
  obtain bs bs' m' where r: "Memory_StoreInfo t page_align table n m = Some (t + of_nat (length bs') * 16, m')" "blocks_at m' t bs'"
      "length bs' \<le> unat n" "same_between m m' 0 (unat t)" and table: "table_of L bs" and small: "\<forall>b \<in> set bs'. snd b < 2 ^ 63"
      and bs': "bs' = drop_empty (if page_align then map align_pair bs else bs)"
    using StoreInfo_ok [OF assms, of page_align] by blast
  let ?v = "if page_align then map align_pair bs else bs"
  have filt: "filter nonempty bs' = filter nonempty ?v" unfolding bs' by (rule drop_empty_filter)
  have sub: "set bs' \<subseteq> set ?v" unfolding bs' by (rule drop_empty_subset)
  have srt: "sorted_wrt (\<lambda>b c. snd b < fst c) bs" using table by (simp add: table_of_def)
  have "sorted_wrt (\<lambda>b c. snd b < fst c) (filter nonempty bs')"
    unfolding filt using aligned_apart [OF srt] srt table_of_nonempty [OF table] by simp
  moreover have "(\<Union>b \<in> set bs'. {fst b..<snd b}) = (\<Union>b \<in> set ?v. {fst b..<snd b})"
    using span_nonempty [of bs'] span_nonempty [of ?v] filt by simp
  then have "(\<Union>b \<in> set bs'. {fst b..<snd b}) = (if page_align then whole_pages (ram L) else ram L)"
    using whole_pages_blocks [OF table] table by (simp add: table_of_def)
  moreover have "4096 dvd fst b \<and> 4096 dvd snd b" if "page_align" "b \<in> set bs'" for b
    using that sub align_pair_bounds(1,2) by auto
  moreover have "\<forall>b \<in> set bs'. fst b \<le> snd b"
  proof -
    have "fst (align_pair b) \<le> snd (align_pair b)" for b by (simp add: align_pair_def Let_def)
    moreover have "\<forall>b \<in> set bs. fst b \<le> snd b" using table by (simp add: table_of_def less_imp_le)
    ultimately have "\<forall>b \<in> set ?v. fst b \<le> snd b" by (cases page_align) simp_all
    then show ?thesis using sub by blast
  qed
  ultimately have "stored_map m' t bs' (if page_align then whole_pages (ram L) else ram L)"
    and "page_align \<longrightarrow> (\<forall>b \<in> set bs'. 4096 dvd fst b \<and> 4096 dvd snd b)"
    using r(2) small unfolding stored_map_def by blast+
  then show ?thesis using r(1,3,4) table bs' by blast
qed

lemma StoreInfo_stored:
  assumes "L = map (e820_at m table) [0..<unat n]" "e820_ok L" "unat table + 24 * unat n \<le> unat t" "unat t + 16 * unat n + 16 \<le> 2 ^ 32"
  shows "\<exists>bs m'. Memory_StoreInfo t page_align table n m = Some (t + of_nat (length bs) * 16, m') \<and> length bs \<le> unat n \<and>
     same_between m m' 0 (unat t) \<and> stored_map m' t bs (if page_align then whole_pages (ram L) else ram L) \<and>
     (page_align \<longrightarrow> (\<forall>b \<in> set bs. 4096 dvd fst b \<and> 4096 dvd snd b))"
  using StoreInfo_table [OF assms, of page_align] by blast

section \<open>The tag with the table\<close>

lemma map_tag_fields:
  fixes p t sz esz :: u32 and m :: memory
  assumes "unat p + 16 < 2 ^ 32"
  defines "m' \<equiv> map_tag_fields p t sz esz m"
  shows "read_Info_Tag m' p = \<lparr>tag_type = t, tag_size = sz\<rparr>" and "load32 m' (p + 8) = esz"
    and "same_between m m' 0 (unat p)" and "same_between m m' (unat p + 16) (2 ^ 32)"
proof -
  have u: "unat (p + 4) = unat p + 4" "unat (p + 8) = unat p + 8" "unat (p + 12) = unat p + 12"
    using assms(1) unat_u32_plus [of p 4] unat_u32_plus [of p 8] unat_u32_plus [of p 12] by simp_all
  let ?a = "store32 m (p + 4) sz" let ?b = "store32 ?a p t" let ?c = "store32 ?b (p + 8) esz"
  have m': "m' = store32 ?c (p + 12) 0" by (simp add: m'_def map_tag_fields_def set_tag_size_def set_tag_type_def)
  have sb: "same_between ?a ?b (unat p + 4) (2 ^ 32)" and sc: "same_between ?b ?c 0 (unat p + 8)" and sd: "same_between ?c m' 0 (unat p + 12)"
    unfolding m' by (rule same_store32; use assms(1) u in simp)+
  have "load32 ?b (p + 4) = sz" using load32_same [OF sb, of "p + 4"] u assms(1) by simp
  then have b: "read_Info_Tag ?b p = \<lparr>tag_type = t, tag_size = sz\<rparr>" by (simp add: read_Info_Tag_def)
  show "read_Info_Tag m' p = \<lparr>tag_type = t, tag_size = sz\<rparr>"
    using read_tag_same [OF sc, of p] read_tag_same [OF sd, of p] b assms(1) by simp
  show "load32 m' (p + 8) = esz" using load32_same [OF sd, of "p + 8"] u assms(1) by simp
  show "same_between m m' 0 (unat p)" "same_between m m' (unat p + 16) (2 ^ 32)"
    unfolding m' by (rule same_trans [OF same_trans [OF same_trans]]; rule same_store32; use assms(1) u in simp)+
qed

lemma stored_map_same:
  assumes "stored_map m t bs R" "same_between m m' lo hi" "lo \<le> unat t" "unat t + 16 * length bs \<le> hi" "hi \<le> 2 ^ 32"
  shows "stored_map m' t bs R"
  using assms(1) blocks_at_same_from [OF _ assms(2-5)] by (simp add: stored_map_def)

lemma save_ram_info_ok:
  assumes wf: "mbi_wf m mbi ts" and new: "t \<noteq> 0" "lookup_tag t (mbi + 8) ts = None"
    and L: "L = map (e820_at m table) [0..<unat n]" "e820_ok L" "unat table + 24 * unat n \<le> unat (term_addr m mbi)"
    and room: "unat (term_addr m mbi) + 16 * unat n + 40 < 2 ^ 32"
  shows "\<exists>bs sz m'. save_ram_info mbi t page_align table n m = Some (True, m') \<and> mbi_wf m' mbi (ts @ [(t, sz)]) \<and>
     unat sz = 16 + 16 * length bs \<and> load32 m' (term_addr m mbi + 8) = 16 \<and> length bs \<le> unat n \<and>
     stored_map m' (term_addr m mbi + 16) bs (if page_align then whole_pages (ram L) else ram L) \<and>
     (page_align \<longrightarrow> (\<forall>b \<in> set bs. 4096 dvd fst b \<and> 4096 dvd snd b)) \<and>
     same_between m m' (unat mbi + 8) (unat (term_addr m mbi))"
proof -
  let ?e = "term_addr m mbi" and ?R = "if page_align then whole_pages (ram L) else ram L"
  have e16: "unat (?e + 16) = unat ?e + 16" using room unat_u32_plus [of ?e 16] by simp
  have "\<exists>bs m1. Memory_StoreInfo (?e + 16) page_align table n m = Some (?e + 16 + of_nat (length bs) * 16, m1) \<and> length bs \<le> unat n \<and>
     same_between m m1 0 (unat (?e + 16)) \<and> stored_map m1 (?e + 16) bs ?R \<and>
     (page_align \<longrightarrow> (\<forall>b \<in> set bs. 4096 dvd fst b \<and> 4096 dvd snd b))"
    by (rule StoreInfo_stored [OF L(1,2)]) (use L(3) room e16 in simp_all)
  then obtain bs m1 where store: "Memory_StoreInfo (?e + 16) page_align table n m = Some (?e + 16 + of_nat (length bs) * 16, m1)"
      "length bs \<le> unat n" "same_between m m1 0 (unat (?e + 16))" "stored_map m1 (?e + 16) bs ?R"
      and al: "page_align \<longrightarrow> (\<forall>b \<in> set bs. 4096 dvd fst b \<and> 4096 dvd snd b)" by blast
  define sz where "sz = (of_nat (16 + 16 * length bs) :: u32)"
  have sz: "unat sz = 16 + 16 * length bs" unfolding sz_def by (rule unat_u32_of_nat) (use store(2) room in simp)
  let ?m2 = "map_tag_fields ?e t sz 16 m1" let ?m3 = "snd (Multiboot_TerminateTag mbi ?e ?m2)"
  have e: "unat ?e + 16 < 2 ^ 32" using room by simp
  note f = map_tag_fields [OF e, where t = t and sz = sz and esz = 16 and m = m1]
  have same: "same_between m ?m2 0 (unat ?e)" using same_trans [OF same_mono [OF store(3)] f(3)] e16 by simp
  have n: "8 \<le> unat sz" "unat sz mod 8 = 0" "unat ?e + unat sz + 8 < 2 ^ 32" using sz store(2) room by (simp_all add: mod_add_eq [symmetric])
  note app = TerminateTag_appends [OF wf refl same_mono [OF same le0 order.refl] f(1) new(1) n]
  have mbi: "unat mbi + 8 \<le> unat ?e" using chain_le [of m "mbi + 8" ts ?e] wf unat_term_addr [OF wf] by (simp add: mbi_wf_def)
  have "?e \<noteq> MEMORY_NULL_PTR" using room by (auto simp: MEMORY_NULL_PTR_def)
  moreover have "Multiboot_FindMBITagAddress m mbi t = Some ?e" using find_in_wf [OF wf new(1)] new(2) by simp
  moreover have "tag_type (read_Info_Tag m ?e) = 0" using wf by (simp add: mbi_wf_def)
  moreover have "16 + ?e = ?e + 16" by (rule add.commute)
  moreover have "?e + 16 + of_nat (length bs) * 16 - ?e = sz" by (simp add: sz_def)
  ultimately have run: "save_ram_info mbi t page_align table n m = Some (True, ?m3)"
    unfolding save_ram_info_def new_tag_def terminated_def using store(1) by (simp only: bind.bind_lunit if_False simp_thms prod.case)
  have "stored_map ?m2 (?e + 16) bs ?R" by (rule stored_map_same [OF store(4) f(4)]) (use e16 store(2) room in simp_all)
  then have st: "stored_map ?m3 (?e + 16) bs ?R" by (rule stored_map_same [OF _ app(3)]) (use e16 mbi sz n in simp_all)
  have "unat (?e + 8) = unat ?e + 8" using room unat_u32_plus [of ?e 8] by simp
  then have esz: "load32 ?m3 (?e + 8) = 16" using load32_same [OF app(3), of "?e + 8"] f(2) sz mbi n by simp
  have "same_between m ?m3 (unat mbi + 8) (unat ?e)" using same_trans [OF same_mono [OF same] same_mono [OF app(3)]] by simp
  then show ?thesis using run app(2) sz esz store(2) st al by blast
qed

section \<open>Properties\<close>

text \<open>
  C34. \<open>Memory_StoreInfo\<close> is correct. Suppose the usable entries of the BIOS map are sorted, not empty and below \<open>2^63\<close>, and the new table
  comes after the map in memory. Then the function ends and returns the end of a table with at most as many blocks as the map has
  entries; its non-empty blocks are in ascending order with a gap between any two; and together they are exactly the usable
  memory (without alignment) or the whole pages in it (with alignment, when every block starts and ends on a page
  boundary). The blocks stored are those of the usable memory, each cut to page boundaries when asked for, less the empty ones:
  an empty block stays only where two neighbours are empty, because the loop that removes one skips the next; so without
  alignment, or when no two neighbours are empty, every block stored is non-empty. Nothing below the table is written.
\<close>

theorem Memory_StoreInfo_correct:
  assumes "L = map (e820_at m E820_Table) [0..<unat E820_Table_size]" "e820_ok L"
    and "unat E820_Table + 24 * unat E820_Table_size \<le> unat addr" "unat addr + 16 * unat E820_Table_size + 16 \<le> 2 ^ 32"
  shows "\<exists>all cut bs m'. Memory_StoreInfo addr page_align E820_Table E820_Table_size m = Some (addr + of_nat (length bs) * 16, m') \<and>
     length bs \<le> unat E820_Table_size \<and> same_between m m' 0 (unat addr) \<and>
     stored_map m' addr bs (if page_align then whole_pages (ram L) else ram L) \<and>
     (page_align \<longrightarrow> (\<forall>b \<in> set bs. 4096 dvd fst b \<and> 4096 dvd snd b)) \<and>
     table_of L all \<and> cut = (if page_align then map align_pair all else all) \<and> bs = drop_empty cut \<and>
     (\<not> page_align \<longrightarrow> bs = all) \<and>
     ((\<forall>i. Suc i < length cut \<longrightarrow> nonempty (cut ! i) \<or> nonempty (cut ! Suc i)) \<longrightarrow> bs = filter nonempty cut)"
proof -
  obtain all bs m' where r: "Memory_StoreInfo addr page_align E820_Table E820_Table_size m = Some (addr + of_nat (length bs) * 16, m')"
      "length bs \<le> unat E820_Table_size" "same_between m m' 0 (unat addr)"
      "stored_map m' addr bs (if page_align then whole_pages (ram L) else ram L)"
      "page_align \<longrightarrow> (\<forall>b \<in> set bs. 4096 dvd fst b \<and> 4096 dvd snd b)"
      and all: "table_of L all" "bs = drop_empty (if page_align then map align_pair all else all)"
    using StoreInfo_table [OF assms, of page_align] by blast
  let ?cut = "if page_align then map align_pair all else all"
  have "drop_empty all = all"
    using all(1) table_of_nonempty [OF all(1)] by (subst drop_empty_all) (auto simp: table_of_def)
  then have "\<not> page_align \<longrightarrow> bs = all" using all(2) by simp
  moreover have "(\<forall>i. Suc i < length ?cut \<longrightarrow> nonempty (?cut ! i) \<or> nonempty (?cut ! Suc i)) \<longrightarrow> bs = filter nonempty ?cut"
    unfolding all(2) using drop_empty_all [of ?cut] by (rule impI)
  ultimately show ?thesis
    using r all by (intro exI [of _ all] exI [of _ ?cut] exI [of _ bs] exI [of _ m'] conjI) (simp_all only:)
qed

text \<open>A map of three entries at \<open>0x8000\<close>: 4 MB of usable memory in two adjacent pieces, and a reserved region.\<close>

definition sample_e820 :: memory where
  "sample_e820 = (\<lambda>_. 0)(0x8002 := 0x10, 0x800A := 0x20, 0x8010 := 1, 0x8014 := 1,
     0x801A := 0x30, 0x8022 := 0x20, 0x8028 := 1, 0x802C := 1,
     0x8032 := 0x50, 0x803A := 0x10, 0x8040 := 2, 0x8044 := 1)"

definition sample_entries :: "Multiboot_E820_Entry list" where
  "sample_entries = [\<lparr>e_base = 0x100000, e_size = 0x200000, e_type = 1, e_acpi3 = 1\<rparr>,
     \<lparr>e_base = 0x300000, e_size = 0x200000, e_type = 1, e_acpi3 = 1\<rparr>,
     \<lparr>e_base = 0x500000, e_size = 0x100000, e_type = 2, e_acpi3 = 1\<rparr>]"

lemma sample_entries_at: "map (e820_at sample_e820 0x8000) [0..<3] = sample_entries"
proof -
  have w: "load64 sample_e820 0x8000 = 0x100000" "load64 sample_e820 0x8008 = 0x200000" "load32 sample_e820 0x8010 = 1"
      "load32 sample_e820 0x8014 = 1" "load64 sample_e820 0x8018 = 0x300000" "load64 sample_e820 0x8020 = 0x200000"
      "load32 sample_e820 0x8028 = 1" "load32 sample_e820 0x802C = 1" "load64 sample_e820 0x8030 = 0x500000"
      "load64 sample_e820 0x8038 = 0x100000" "load32 sample_e820 0x8040 = 2" "load32 sample_e820 0x8044 = 1"
    by code_simp+
  have "[0..<3] = [0, 1, 2 :: nat]" by (simp add: upt_rec)
  then show ?thesis by (simp add: e820_at_def read_E820_def sample_entries_def w)
qed

lemma sample_entries_ok: "e820_ok sample_entries"
  by (simp add: e820_ok_def sample_entries_def usable_def e_end_def MEMORY_E820_ACPI3_FLAG_def MEMORY_E820_AVAILABLE_def)

lemma ram_filter: "ram L = (\<Union>e \<in> set (filter usable L). {unat (e_base e)..<e_end e})"
  by (simp add: ram_def)

lemma sample_ram: "ram sample_entries = {0x100000..<0x500000}"
proof -
  have "filter usable sample_entries = [sample_entries ! 0, sample_entries ! 1]"
    by (simp add: sample_entries_def usable_def MEMORY_E820_ACPI3_FLAG_def MEMORY_E820_AVAILABLE_def)
  then have "ram sample_entries = {0x100000..<0x300000} \<union> {0x300000..<0x500000}"
    by (simp add: ram_filter e_end_def) (simp add: sample_entries_def)
  also have "\<dots> = {0x100000..<0x500000}" by (rule ivl_disj_un_two) simp_all
  finally show ?thesis .
qed

theorem Memory_StoreInfo_correct_witness:
  "\<exists>bs m'. Memory_StoreInfo 0x9000 False 0x8000 3 sample_e820 = Some (0x9000 + of_nat (length bs) * 16, m') \<and> length bs \<le> 3 \<and>
     same_between sample_e820 m' 0 0x9000 \<and> stored_map m' 0x9000 bs {0x100000..<0x500000}"
proof -
  have "sample_entries = map (e820_at sample_e820 0x8000) [0..<unat (3 :: u32)]" by (simp add: sample_entries_at)
  from Memory_StoreInfo_correct [OF this sample_entries_ok, of "0x9000" False, unfolded sample_ram if_False]
  show ?thesis by simp blast
qed

end
