(* ===== verification/AVOS_Handover.thy ===== *)
theory AVOS_Handover
  imports AVOS_Physmem_Init AVOS_Boot_Map
begin

text \<open>
  What the boot loader leaves for the kernel: the Multiboot record it has built, which the kernel sees in the higher half of its
  address space (\<open>arch/initialize/src/start.asm\<close> adds the offset to the address it is given), and the page allocator's
  reading of the memory map in that record.
\<close>

section \<open>The record in the higher half\<close>

text \<open>Physical memory as the kernel addresses it: the first 4 MB entry of its directory maps physical address 0 to the offset.\<close>

definition higher_half :: "memory \<Rightarrow> memory" where
  "higher_half m = (\<lambda>a. m (a - KERNEL_HIGHER_HALF_OFFSET))"

lemma load32_higher_half [simp]: "load32 (higher_half m) (KERNEL_HIGHER_HALF_OFFSET + p) = load32 m p"
  by (simp add: load32_def higher_half_def algebra_simps)

lemma load64_higher_half [simp]: "load64 (higher_half m) (KERNEL_HIGHER_HALF_OFFSET + p) = load64 m p"
  using load32_higher_half [of m "p + 4"] by (simp add: load64_def add.assoc)

lemma read_Info_Tag_higher_half [simp]: "read_Info_Tag (higher_half m) (KERNEL_HIGHER_HALF_OFFSET + p) = read_Info_Tag m p"
  using load32_higher_half [of m "p + 4"] by (simp add: read_Info_Tag_def add.assoc)

lemma unat_higher_half: "unat p < 2 ^ 31 \<Longrightarrow> unat (KERNEL_HIGHER_HALF_OFFSET + p) = 2 ^ 31 + unat p"
  by (subst unat_u32_plus) (simp_all add: KERNEL_HIGHER_HALF_OFFSET_def)

lemma chain_higher_half:
  "tag_chain m p ts e \<Longrightarrow> unat e < 2 ^ 31 \<Longrightarrow>
   tag_chain (higher_half m) (KERNEL_HIGHER_HALF_OFFSET + p) ts (KERNEL_HIGHER_HALF_OFFSET + e)"
proof (induction m p ts e rule: tag_chain.induct)
  case (2 m p t n ts e)
  then have "unat p < 2 ^ 31" by simp
  then show ?case using 2 by (simp add: unat_higher_half add.assoc)
qed simp

section \<open>The kernel's walk\<close>

text \<open>The walk over a well-formed chain ends, with the last memory map of page-aligned chunks.\<close>

fun last_mmap :: "memory \<Rightarrow> u32 \<Rightarrow> (u32 \<times> u32) list \<Rightarrow> u32 \<times> u32 \<Rightarrow> u32 \<times> u32" where
  "last_mmap m p [] acc = acc"
| "last_mmap m p ((t, n) # ts) acc =
     last_mmap m (p + n) ts
       (if t = MULTIBOOT_TAG_TYPE_RAM_INFO_PAGE_ALIGNED then (p + 16, if load32 m (p + 8) = 0 then 0 else (n - 16) div load32 m (p + 8))
        else acc)"

lemma tag_round:
  assumes "unat n mod 8 = 0"
  shows "(n + 7) AND NOT 7 = (n :: u32)"
proof -
  have eq: "x AND NOT 7 = push_bit 3 (drop_bit 3 x)" for x :: u32
  proof -
    have seven: "(7 :: u32) = mask 3" by (simp add: mask_eq_exp_minus_1)
    show ?thesis unfolding seven by (intro bit_word_eqI) (auto simp: bit_simps)
  qed
  have "unat n div 8 < 2 ^ 29" using unat_u32_lt [of n] by simp
  moreover have "unat n = 8 * (unat n div 8)" using assms mult_div_mod_eq [of 8 "unat n"] by simp
  ultimately have "unat n + 7 < 2 ^ 32" by simp
  then have "unat (n + 7) = unat n + 7" by (subst unat_u32_plus) simp_all
  moreover have "(unat n + 7) div 8 = unat n div 8" using assms by presburger
  ultimately have "unat (drop_bit 3 (n + 7)) = unat (drop_bit 3 n)" by (simp add: unat_drop_bit_eq drop_bit_eq_div unat_div)
  moreover have "push_bit 3 (drop_bit 3 n) = n"
  proof -
    have "take_bit 3 n = 0" using assms by (simp add: word_unat_eq_iff take_bit_eq_mod unat_mod)
    then show ?thesis using bits_ident [of 3 n] by simp
  qed
  ultimately show ?thesis unfolding eq by (simp only: word_unat_eq_iff [symmetric])
qed

lemma find_mmap_chain:
  "tag_chain m p ts e \<Longrightarrow> load32 m e = 0 \<Longrightarrow> find_mmap m p acc = Some (last_mmap m p ts acc)"
proof (induction m p ts e arbitrary: acc rule: tag_chain.induct)
  case (1 m p e)
  then show ?case by (subst find_mmap.simps) simp
next
  case (2 m p t n ts e)
  then have "load32 m p = t" "load32 m (p + 4) = n" "t \<noteq> 0" "unat n mod 8 = 0"
    by (auto simp: read_Info_Tag_def)
  moreover from this have "next_tag m p = p + n" unfolding next_tag_def by (simp only: tag_round)
  ultimately show ?case using 2 by (subst find_mmap.simps) simp
qed

lemma last_mmap_append: "last_mmap m p (us @ vs) acc = last_mmap m (p + sum_list (map snd us)) vs (last_mmap m p us acc)"
  by (induction us arbitrary: p acc) (auto simp: add.assoc)

lemma last_mmap_none: "MULTIBOOT_TAG_TYPE_RAM_INFO_PAGE_ALIGNED \<notin> fst ` set ts \<Longrightarrow> last_mmap m p ts acc = acc"
  by (induction ts arbitrary: p acc) auto

text \<open>A memory map of whole pages in the record: \<open>cs\<close> is what the tag at \<open>q\<close>, of \<open>n\<close> bytes, has as its entries.\<close>

definition ram_tag :: "memory \<Rightarrow> u32 \<Rightarrow> u32 \<Rightarrow> chunk list \<Rightarrow> bool" where
  "ram_tag m q n cs \<longleftrightarrow> unat n = 16 + 16 * length cs \<and> load32 m (q + 8) = 16 \<and> chunks_at m (q + 16) cs"

lemma ram_tag_count: "ram_tag m q n cs \<Longrightarrow> (n - 16) div load32 m (q + 8) = of_nat (length cs)"
proof -
  assume tag: "ram_tag m q n cs"
  then have n: "unat n = 16 + 16 * length cs" by (simp add: ram_tag_def)
  then have "16 \<le> n" by (simp add: word_le_nat_alt)
  then have "unat (n - 16) = 16 * length cs" using n by (simp add: unat_sub word_le_nat_alt)
  then have "unat ((n - 16) div 16) = length cs" by (simp add: unat_div)
  then have "(n - 16) div 16 = of_nat (length cs)" by (metis of_nat_unat ucast_id)
  then show ?thesis using tag by (simp add: ram_tag_def)
qed

lemma chunks_at_higher_half: "chunks_at (higher_half m) (KERNEL_HIGHER_HALF_OFFSET + p) cs \<longleftrightarrow> chunks_at m p cs"
proof -
  have "KERNEL_HIGHER_HALF_OFFSET + p + x = KERNEL_HIGHER_HALF_OFFSET + (p + x)" for x by (simp add: add.assoc)
  then show ?thesis by (simp add: chunks_at_def add.assoc)
qed

lemma ram_tag_higher_half: "ram_tag (higher_half m) (KERNEL_HIGHER_HALF_OFFSET + q) n cs \<longleftrightarrow> ram_tag m q n cs"
  using load32_higher_half [of m "q + 8"] chunks_at_higher_half [of m "q + 16"] by (simp add: ram_tag_def add.assoc)

lemma find_mmap_record:
  assumes "tag_chain m p (us @ (MULTIBOOT_TAG_TYPE_RAM_INFO_PAGE_ALIGNED, n) # vs) e" "load32 m e = 0"
    and "MULTIBOOT_TAG_TYPE_RAM_INFO_PAGE_ALIGNED \<notin> fst ` set vs" "ram_tag m (p + sum_list (map snd us)) n cs"
  shows "find_mmap m p (0, 0) = Some (p + sum_list (map snd us) + 16, of_nat (length cs))"
  using find_mmap_chain [OF assms(1,2), of "(0, 0)"] ram_tag_count [OF assms(4)] assms(4)
  by (simp add: last_mmap_append last_mmap_none [OF assms(3)] ram_tag_def)

lemma chain_tag_inside: "tag_chain m p (us @ (t, n) # vs) e \<Longrightarrow> unat (p + sum_list (map snd us)) + unat n \<le> unat e"
proof (induction us arbitrary: p)
  case (Cons a us)
  then have "unat (p + snd a + sum_list (map snd us)) + unat n \<le> unat e" by (cases a) auto
  then show ?case by (simp add: add.assoc)
qed simp

lemma chain_start: "tag_chain m p (us @ vs) e \<Longrightarrow> unat p \<le> unat (p + sum_list (map snd us))"
proof (induction us arbitrary: p)
  case (Cons a us)
  then have le: "unat (p + snd a) \<le> unat (p + snd a + sum_list (map snd us))" "unat p + unat (snd a) \<le> unat e" by (cases a; auto)+
  then have "unat (p + snd a) = unat p + unat (snd a)" using unat_u32_lt [of e] by (subst unat_u32_plus) auto
  then show ?case using le by (simp add: add.assoc)
qed simp

lemma frame_of_higher_half: "unat a < 2 ^ 20 \<Longrightarrow> frame_of (KERNEL_HIGHER_HALF_OFFSET + a) < 256"
  by (simp add: frame_of_def less_mult_imp_div_less)

lemma low_table_outside:
  assumes "unat p + 16 * n < 2 ^ 20"
  shows "table_outside (KERNEL_HIGHER_HALF_OFFSET + p) n (\<Union>c \<in> A. chunk_frames c)"
  unfolding table_outside_def
proof (intro allI impI notI)
  fix i assume i: "i < 16 * n" and "frame_of (KERNEL_HIGHER_HALF_OFFSET + p + of_nat i) \<in> (\<Union>c \<in> A. chunk_frames c)"
  then have "256 \<le> frame_of (KERNEL_HIGHER_HALF_OFFSET + p + of_nat i)" by (auto simp: chunk_frames_def chunk_usable_def split: if_splits)
  moreover have "unat (of_nat i :: u32) = i" by (rule unat_u32_of_nat) (use i assms in simp)
  then have "unat (p + of_nat i) < 2 ^ 20" using i assms by (subst unat_u32_plus) simp_all
  ultimately show False using frame_of_higher_half [of "p + of_nat i"] by (simp add: add.assoc)
qed

text \<open>
  The handover of the memory map. If the boot loader's record is well formed and below 1 MiB, and the last memory map of
  page-aligned chunks in it has the entries \<open>cs\<close>, the kernel, given the record's address in the higher half, ends its
  walk, finds exactly that table, and its page allocator comes to own exactly the frames of the chunks that it does not skip.
\<close>

lemma memory_map_handover:
  assumes "mbi_wf m mbi (us @ (MULTIBOOT_TAG_TYPE_RAM_INFO_PAGE_ALIGNED, n) # vs)" "unat mbi + unat (load32 m mbi) < 2 ^ 20"
    and "MULTIBOOT_TAG_TYPE_RAM_INFO_PAGE_ALIGNED \<notin> fst ` set vs" "ram_tag m (mbi + 8 + sum_list (map snd us)) n cs"
    and "cs \<noteq> []" "chunks_ok cs" "mem s = higher_half m" "\<forall>k \<le> PAGE_MAX_ORDER. Page_lists s k = PAGE_LIST_NULL"
  shows "\<exists>s'. Page_BuddyMaps_Initialize s (mbi + KERNEL_HIGHER_HALF_OFFSET) = Inr s' \<and> page_owns s' (\<Union>c \<in> set cs. chunk_frames c) \<and>
     same_outside (\<Union>c \<in> set cs. chunk_frames c) (higher_half m) (mem s')"
proof -
  let ?ts = "us @ (MULTIBOOT_TAG_TYPE_RAM_INFO_PAGE_ALIGNED, n) # vs" and ?q = "mbi + 8 + sum_list (map snd us)"
  let ?O = KERNEL_HIGHER_HALF_OFFSET and ?e = "term_addr m mbi"
  have chain: "tag_chain m (mbi + 8) ?ts ?e" "load32 m ?e = 0" using assms(1) by (auto simp: mbi_wf_def read_Info_Tag_def)
  have e: "unat ?e < 2 ^ 20" using unat_term_addr [OF assms(1)] assms(2) by simp
  have n: "unat n = 16 + 16 * length cs" and at: "chunks_at m (?q + 16) cs" using assms(4) by (auto simp: ram_tag_def)
  have end_q: "unat ?q + unat n \<le> unat ?e" by (rule chain_tag_inside [OF chain(1)])
  then have q: "unat (?q + 16) = unat ?q + 16" using n e by (subst unat_u32_plus) simp_all
  then have low: "unat (?q + 16) + 16 * length cs < 2 ^ 20" using n e end_q by simp
  have "tag_chain (higher_half m) (?O + (mbi + 8)) ?ts (?O + ?e)" by (rule chain_higher_half [OF chain(1)]) (use e in simp)
  then have "find_mmap (higher_half m) (?O + (mbi + 8)) (0, 0) = Some (?O + (?q + 16), of_nat (length cs))"
    using find_mmap_record [of "higher_half m" "?O + (mbi + 8)" us n vs "?O + ?e" cs] chain(2) assms(3,4) ram_tag_higher_half [of m ?q n cs]
    by (simp add: add.assoc)
  then have find: "find_mmap (mem s) (mbi + ?O + 8) (0, 0) = Some (?O + (?q + 16), of_nat (length cs))"
    using assms(7) by (simp add: ac_simps)
  have nz: "?O + (?q + 16) \<noteq> 0" using low unat_higher_half [of "?q + 16"] by auto
  have "chunks_at (mem s) (?O + (?q + 16)) cs" using at assms(7) chunks_at_higher_half by simp
  from BuddyMaps_Initialize_grown [OF assms(8,6) this assms(5) _ low_table_outside [OF low] find nz] show ?thesis
    using low assms(7) by auto
qed

section \<open>From the BIOS map to the page allocator\<close>

definition chunk_of :: "nat \<times> nat \<Rightarrow> chunk" where
  "chunk_of b = (fst b div 4096, (snd b - fst b) div 4096)"

text \<open>The page frames that the allocator can manage and that are usable memory throughout.\<close>

definition ram_frames :: "Multiboot_E820_Entry list \<Rightarrow> nat set" where
  "ram_frames L = {f. 256 \<le> f \<and> f < NUM_FRAMES \<and> {f * 4096..<f * 4096 + 4096} \<subseteq> ram L}"

lemma chunks_at_blocks:
  assumes "blocks_at m t bs" "\<forall>b \<in> set bs. 4096 dvd fst b \<and> 4096 dvd snd b"
  shows "chunks_at m t (map chunk_of bs)"
  unfolding chunks_at_def
proof (intro allI impI)
  fix i assume i: "i < length (map chunk_of bs)"
  then have "4096 dvd fst (bs ! i)" "4096 dvd snd (bs ! i) - fst (bs ! i)" using assms(2) by (simp_all add: dvd_diff_nat)
  then have "fst (chunk_of (bs ! i)) * 4096 = fst (bs ! i)" "snd (chunk_of (bs ! i)) * 4096 = snd (bs ! i) - fst (bs ! i)"
    by (simp_all add: chunk_of_def)
  then show "load64 m (t + 16 * of_nat i) = of_nat (fst (map chunk_of bs ! i) * 4096) \<and>
      load64 m (t + 16 * of_nat i + 8) = of_nat (snd (map chunk_of bs ! i) * 4096)"
    using assms(1) i by (simp add: blocks_at_def read_block_def block_of_def del: of_nat_mult)
qed

lemma sorted_wrt_filter_imp: "sorted_wrt P (filter Q xs) \<Longrightarrow> sorted_wrt (\<lambda>x y. Q x \<longrightarrow> Q y \<longrightarrow> P x y) xs"
  by (induction xs) (auto split: if_splits)

lemma chunk_of_span:
  assumes "4096 dvd fst b" "4096 dvd snd b" "0 < snd (chunk_of b)"
  shows "fst (chunk_of b) + snd (chunk_of b) = snd b div 4096" and "nonempty b"
    and "{fst (chunk_of b)..<fst (chunk_of b) + snd (chunk_of b)} = {f. f * 4096 \<in> {fst b..<snd b}}"
proof -
  show ne: "nonempty b" using assms(3) by (cases "fst b < snd b") (simp_all add: chunk_of_def)
  obtain x y where xy: "fst b = 4096 * x" "snd b = 4096 * y" using assms(1,2) by (elim dvdE)
  then have c: "chunk_of b = (x, y - x)" "x \<le> y" using ne by (simp_all add: chunk_of_def diff_mult_distrib2 [symmetric])
  show "fst (chunk_of b) + snd (chunk_of b) = snd b div 4096" using c xy by simp
  show "{fst (chunk_of b)..<fst (chunk_of b) + snd (chunk_of b)} = {f. f * 4096 \<in> {fst b..<snd b}}" using c xy by auto
qed

lemma chunks_ok_blocks:
  assumes "stored_map m t bs (whole_pages R)" "\<forall>b \<in> set bs. 4096 dvd fst b \<and> 4096 dvd snd b" "0x70000000 \<notin> R"
  shows "chunks_ok (map chunk_of bs)"
proof -
  have "chunk_usable (chunk_of b) \<longrightarrow> fst (chunk_of b) + snd (chunk_of b) \<le> NUM_FRAMES" if b: "b \<in> set bs" for b
  proof
    assume u: "chunk_usable (chunk_of b)"
    have span: "{fst b..<snd b} \<subseteq> whole_pages R" using assms(1) b by (auto simp: stored_map_def)
    have "0x70000000 \<notin> whole_pages R" using assms(3) unfolding whole_pages_def by blast
    then have "\<not> (fst b \<le> 0x70000000 \<and> 0x70000000 < snd b)" using span by (meson atLeastLessThan_iff subsetD)
    moreover have "fst b div 4096 < 0x70000" using u by (simp add: chunk_usable_def chunk_of_def NUM_FRAMES_def)
    then have "fst b < 0x70000000" by (simp add: div_less_iff_less_mult)
    ultimately have "snd b div 4096 \<le> 0x70000000 div 4096" by (intro div_le_mono) simp
    then show "fst (chunk_of b) + snd (chunk_of b) \<le> NUM_FRAMES"
      using chunk_of_span(1) [of b] assms(2) b u by (simp add: chunk_usable_def NUM_FRAMES_def)
  qed
  moreover have "fst (chunk_of b) < 2 ^ 52 \<and> snd (chunk_of b) < 2 ^ 52" if b: "b \<in> set bs" for b
  proof -
    have "fst b < 2 ^ 63" "snd b - fst b < 2 ^ 63" using assms(1) b by (auto simp: stored_map_def)
    then show ?thesis by (simp add: chunk_of_def div_less_iff_less_mult)
  qed
  moreover have "sorted_wrt (\<lambda>b c. nonempty b \<longrightarrow> nonempty c \<longrightarrow> snd b < fst c) bs"
    by (rule sorted_wrt_filter_imp) (use assms(1) in \<open>simp add: stored_map_def\<close>)
  then have "sorted_wrt (\<lambda>b c. chunks_apart (chunk_of b) (chunk_of c)) bs"
  proof (rule sorted_wrt_mono_rel [rotated])
    fix b c assume bc: "b \<in> set bs" "c \<in> set bs" and gap: "nonempty b \<longrightarrow> nonempty c \<longrightarrow> snd b < fst c"
    show "chunks_apart (chunk_of b) (chunk_of c)"
      unfolding chunks_apart_def
    proof (intro impI disjI1)
      assume u: "chunk_usable (chunk_of b)" "chunk_usable (chunk_of c)"
      then have "snd b < fst c" using gap bc assms(2) chunk_of_span(2) [of b] chunk_of_span(2) [of c] by (simp add: chunk_usable_def)
      moreover obtain x where "snd b = 4096 * x" using assms(2) bc(1) by blast
      moreover obtain y where "fst c = 4096 * y" using assms(2) bc(2) by blast
      ultimately have "snd b div 4096 < fst c div 4096" by simp
      then show "fst (chunk_of b) + snd (chunk_of b) < fst (chunk_of c)"
        using chunk_of_span(1) [of b] assms(2) bc u by (simp add: chunk_usable_def) (simp add: chunk_of_def)
    qed
  qed
  then have "sorted_wrt chunks_apart (map chunk_of bs)" by (simp add: sorted_wrt_map)
  ultimately show ?thesis by (simp add: chunks_ok_def)
qed

lemma chunks_frames_ram:
  assumes "stored_map m t bs (whole_pages (ram L))" "\<forall>b \<in> set bs. 4096 dvd fst b \<and> 4096 dvd snd b"
    and "0xFFFFF \<notin> ram L" "0x70000000 \<notin> ram L"
  shows "(\<Union>c \<in> set (map chunk_of bs). chunk_frames c) = ram_frames L"
proof (rule set_eqI)
  fix f
  have span: "(\<Union>b \<in> set bs. {fst b..<snd b}) = whole_pages (ram L)" using assms(1) by (simp add: stored_map_def)
  have whole: "f * 4096 \<in> whole_pages (ram L) \<longleftrightarrow> {f * 4096..<f * 4096 + 4096} \<subseteq> ram L"
  proof -
    have "y div 4096 = f \<longleftrightarrow> f * 4096 \<le> y \<and> y < f * 4096 + 4096" for y
      using div_nat_eqI [of 4096 f y] by (auto simp: algebra_simps)
    then show ?thesis by (auto simp: whole_pages_def)
  qed
  have low: "0x100000 \<le> fst b" if b: "b \<in> set bs" "0x100000 < snd b" for b
  proof (rule ccontr)
    assume "\<not> 0x100000 \<le> fst b"
    then have "0xFFFFF \<in> whole_pages (ram L)" using b span by force
    then show False using assms(3) unfolding whole_pages_def by blast
  qed
  have ok: "chunk_usable (chunk_of b) \<Longrightarrow> fst (chunk_of b) + snd (chunk_of b) \<le> NUM_FRAMES" if "b \<in> set bs" for b
    using chunks_ok_blocks [OF assms(1,2,4)] that by (simp add: chunks_ok_def)
  show "f \<in> (\<Union>c \<in> set (map chunk_of bs). chunk_frames c) \<longleftrightarrow> f \<in> ram_frames L"
  proof
    assume "f \<in> (\<Union>c \<in> set (map chunk_of bs). chunk_frames c)"
    then obtain b where b: "b \<in> set bs" "chunk_usable (chunk_of b)" "f \<in> {fst (chunk_of b)..<fst (chunk_of b) + snd (chunk_of b)}"
      by (auto simp: chunk_frames_def split: if_splits)
    then have "f * 4096 \<in> {fst b..<snd b}" using chunk_of_span(3) [of b] assms(2) by (simp add: chunk_usable_def)
    then have "f * 4096 \<in> whole_pages (ram L)" using span b(1) by blast
    then show "f \<in> ram_frames L" using whole b ok [OF b(1,2)] by (simp add: ram_frames_def chunk_usable_def)
  next
    assume f: "f \<in> ram_frames L"
    then have "f * 4096 \<in> whole_pages (ram L)" using whole by (simp add: ram_frames_def)
    then obtain b where b: "b \<in> set bs" "fst b \<le> f * 4096" "f * 4096 < snd b" unfolding span [symmetric] by auto
    have "0x100000 \<le> f * 4096" using f by (simp add: ram_frames_def)
    then have "0x100000 div 4096 \<le> fst b div 4096" using low [OF b(1)] b(3) by (intro div_le_mono) linarith
    moreover have "fst b div 4096 \<le> f" using div_le_mono [OF b(2), of 4096] by simp
    moreover have "4096 \<le> snd b - fst b"
      by (rule dvd_imp_le) (use assms(2) b in \<open>simp_all add: dvd_diff_nat\<close>)
    then have "0 < snd (chunk_of b)" using div_le_mono [of 4096 "snd b - fst b" 4096] by (simp add: chunk_of_def)
    ultimately have "chunk_usable (chunk_of b)" "f \<in> {fst (chunk_of b)..<fst (chunk_of b) + snd (chunk_of b)}"
      using f chunk_of_span(3) [of b] assms(2) b by (simp_all add: chunk_usable_def chunk_of_def ram_frames_def)
    then show "f \<in> (\<Union>c \<in> set (map chunk_of bs). chunk_frames c)" using b(1) by (auto simp: chunk_frames_def)
  qed
qed

text \<open>A later record \<open>m''\<close>: the tags \<open>vs\<close> were added to \<open>m'\<close> after the memory map, and it still ends below 1 MiB.\<close>

definition later_record :: "memory \<Rightarrow> memory \<Rightarrow> u32 \<Rightarrow> (u32 \<times> u32) list \<Rightarrow> (u32 \<times> u32) list \<Rightarrow> bool" where
  "later_record m' m'' mbi ts vs \<longleftrightarrow> mbi_wf m'' mbi (ts @ vs) \<and> same_between m' m'' (unat mbi + 8) (unat (term_addr m' mbi)) \<and>
     MULTIBOOT_TAG_TYPE_RAM_INFO_PAGE_ALIGNED \<notin> fst ` set vs \<and> unat mbi + unat (load32 m'' mbi) < 2 ^ 20"

lemma saved_map_reaches:
  assumes saved: "mbi_wf m' mbi (ts @ [(MULTIBOOT_TAG_TYPE_RAM_INFO_PAGE_ALIGNED, sz)])" "unat sz = 16 + 16 * length bs"
      "load32 m' (q + 8) = 16" "stored_map m' (q + 16) bs (whole_pages (ram L))" "\<forall>b \<in> set bs. 4096 dvd fst b \<and> 4096 dvd snd b"
      "q = mbi + 8 + sum_list (map snd ts)"
    and L: "ram_frames L \<noteq> {}" "0xFFFFF \<notin> ram L" "0x70000000 \<notin> ram L"
    and later: "later_record m' m'' mbi (ts @ [(MULTIBOOT_TAG_TYPE_RAM_INFO_PAGE_ALIGNED, sz)]) vs"
    and s: "mem s = higher_half m''" "\<forall>k \<le> PAGE_MAX_ORDER. Page_lists s k = PAGE_LIST_NULL"
  shows "\<exists>s'. Page_BuddyMaps_Initialize s (mbi + KERNEL_HIGHER_HALF_OFFSET) = Inr s' \<and> page_owns s' (ram_frames L)"
proof -
  let ?T = MULTIBOOT_TAG_TYPE_RAM_INFO_PAGE_ALIGNED and ?cs = "map chunk_of bs"
  have wf: "mbi_wf m'' mbi (ts @ (?T, sz) # vs)" and low: "unat mbi + unat (load32 m'' mbi) < 2 ^ 20" and vs: "?T \<notin> fst ` set vs"
    and same: "same_between m' m'' (unat mbi + 8) (unat (term_addr m' mbi))" using later by (simp_all add: later_record_def)
  have chain: "tag_chain m' (mbi + 8) (ts @ (?T, sz) # []) (term_addr m' mbi)" using saved(1) by (simp add: mbi_wf_def)
  have chain2: "tag_chain m'' (mbi + 8) (ts @ (?T, sz) # vs) (term_addr m'' mbi)" using wf by (simp add: mbi_wf_def)
  have qe: "unat q + unat sz \<le> unat (term_addr m' mbi)" unfolding saved(6) by (rule chain_tag_inside [OF chain])
  have "unat q + unat sz \<le> unat (term_addr m'' mbi)" unfolding saved(6) by (rule chain_tag_inside [OF chain2])
  then have q20: "unat q + unat sz < 2 ^ 20" using unat_term_addr [OF wf] low by simp
  have mq: "unat mbi + 8 \<le> unat q"
  proof -
    have "unat (mbi + 8) = unat mbi + 8" using unat_u32_plus [of mbi 8] low by simp
    then show ?thesis using chain_start [OF chain] unfolding saved(6) by simp
  qed
  have u: "unat (q + 8) = unat q + 8" "unat (q + 16) = unat q + 16"
    using q20 saved(2) by (simp_all add: unat_u32_plus)
  have lt: "unat (term_addr m' mbi) \<le> 2 ^ 32" using unat_u32_lt [of "term_addr m' mbi"] by simp
  have st: "stored_map m'' (q + 16) bs (whole_pages (ram L))"
    by (rule stored_map_same [OF saved(4) same]) (use u mq qe lt saved(2) in simp_all)
  have "load32 m'' (q + 8) = 16" using load32_same [OF same, of "q + 8"] u mq qe lt saved(2,3) by simp
  moreover have "chunks_at m'' (q + 16) ?cs" by (rule chunks_at_blocks) (use st saved(5) in \<open>simp_all add: stored_map_def\<close>)
  ultimately have tag: "ram_tag m'' (mbi + 8 + sum_list (map snd ts)) sz ?cs" using saved(2) by (simp add: ram_tag_def saved(6))
  have frames: "(\<Union>c \<in> set ?cs. chunk_frames c) = ram_frames L" by (rule chunks_frames_ram [OF st saved(5) L(2,3)])
  have "?cs \<noteq> []" using frames L(1) by auto
  from memory_map_handover [OF wf low vs tag this chunks_ok_blocks [OF st saved(5) L(3)] s] show ?thesis unfolding frames by blast
qed

lemma saved_map_low:
  assumes "mbi_wf m mbi ts" "unat (term_addr m mbi) + 8 < 2 ^ 20"
  shows "later_record m m mbi ts []"
  using assms unat_term_addr [OF assms(1)] by (simp add: later_record_def same_between_def)

section \<open>Properties\<close>

text \<open>
  C1. From the BIOS to the page allocator. Let a well-formed record below 1 MiB have no memory map of whole pages yet, and let
  the BIOS map before it be sorted, with some usable page, and with neither the last byte below 1 MiB nor the byte at
  1.75 GiB usable (so that no block crosses an end of the managed range). Then the loader saves the map of
  whole pages, the record stays well formed, and whatever tags the loader adds after it, the
  kernel's allocator, started on that record in the higher half, ends up owning exactly the page frames from
  1 MiB to 1.75 GiB that are usable memory throughout.
\<close>

theorem usable_memory_reaches_allocator:
  assumes "mbi_wf m mbi ts" "lookup_tag MULTIBOOT_TAG_TYPE_RAM_INFO_PAGE_ALIGNED (mbi + 8) ts = None"
    and "L = map (e820_at m table) [0..<unat n]" "e820_ok L" "unat table + 24 * unat n \<le> unat (term_addr m mbi)"
    and "unat (term_addr m mbi) + 16 * unat n + 40 < 2 ^ 20" "ram_frames L \<noteq> {}" "0xFFFFF \<notin> ram L" "0x70000000 \<notin> ram L"
  shows "\<exists>m' sz. save_ram_info mbi Boot_MULTIBOOT_TAG_TYPE_RAM_INFO_PAGE_ALIGNED True table n m = Some (True, m') \<and>
     later_record m' m' mbi (ts @ [(MULTIBOOT_TAG_TYPE_RAM_INFO_PAGE_ALIGNED, sz)]) [] \<and>
     (\<forall>m'' vs s. later_record m' m'' mbi (ts @ [(MULTIBOOT_TAG_TYPE_RAM_INFO_PAGE_ALIGNED, sz)]) vs \<and> mem s = higher_half m'' \<and>
         (\<forall>k \<le> PAGE_MAX_ORDER. Page_lists s k = PAGE_LIST_NULL) \<longrightarrow>
       (\<exists>s'. Page_BuddyMaps_Initialize s (mbi + KERNEL_HIGHER_HALF_OFFSET) = Inr s' \<and> page_owns s' (ram_frames L)))"
proof -
  let ?T = MULTIBOOT_TAG_TYPE_RAM_INFO_PAGE_ALIGNED and ?e = "term_addr m mbi"
  have T: "Boot_MULTIBOOT_TAG_TYPE_RAM_INFO_PAGE_ALIGNED = ?T" "?T \<noteq> 0"
    by (simp_all add: Boot_MULTIBOOT_TAG_TYPE_RAM_INFO_PAGE_ALIGNED_def MULTIBOOT_TAG_TYPE_RAM_INFO_PAGE_ALIGNED_def)
  have room: "unat ?e + 16 * unat n + 40 < 2 ^ 32" using assms(6) by simp
  obtain bs sz m' where r: "save_ram_info mbi ?T True table n m = Some (True, m')" "mbi_wf m' mbi (ts @ [(?T, sz)])"
      "unat sz = 16 + 16 * length bs" "load32 m' (?e + 8) = 16" "length bs \<le> unat n"
      "stored_map m' (?e + 16) bs (whole_pages (ram L))" "\<forall>b \<in> set bs. 4096 dvd fst b \<and> 4096 dvd snd b"
    using save_ram_info_ok [OF assms(1) T(2) assms(2-5) room, of True] by auto
  have "tag_chain m (mbi + 8) ts ?e" using assms(1) by (simp add: mbi_wf_def)
  then have q: "?e = mbi + 8 + sum_list (map snd ts)" using chain_end by metis
  have "tag_chain m' (mbi + 8) (ts @ [(?T, sz)]) (term_addr m' mbi)" using r(2) by (simp add: mbi_wf_def)
  from chain_end [OF this] have "term_addr m' mbi = ?e + sz" unfolding q by (simp add: add.assoc)
  moreover have "unat (?e + sz) = unat ?e + unat sz" using r(3,5) assms(6) by (subst unat_u32_plus) simp_all
  ultimately have "unat (term_addr m' mbi) + 8 < 2 ^ 20" using r(3,5) assms(6) by simp
  then have "later_record m' m' mbi (ts @ [(?T, sz)]) []" by (rule saved_map_low [OF r(2)])
  moreover note saved_map_reaches [OF r(2,3,4,6,7) q assms(7-9)]
  ultimately show ?thesis unfolding T(1) using r(1) by blast
qed

text \<open>The BIOS map of the sample, an empty record at 64 KiB behind it.\<close>

definition sample_boot :: memory where
  "sample_boot = snd (Multiboot_CreateEmptyMBI 0x10000 sample_e820)"

lemma sample_boot_wf: "mbi_wf sample_boot 0x10000 []"
  unfolding sample_boot_def by (rule CreateEmptyMBI_wf(2)) simp_all

lemma sample_boot_term: "term_addr sample_boot 0x10000 = 0x10008"
  using sample_boot_wf by (simp add: mbi_wf_def)

lemma sample_boot_entries: "map (e820_at sample_boot 0x8000) [0..<3] = sample_entries"
proof -
  let ?a = "store32 sample_e820 0x10000 16" let ?b = "store32 ?a 0x10004 0" let ?c = "store32 ?b 0x10008 0"
  have eq: "sample_boot = store32 ?c 0x1000C 8"
    by (simp add: sample_boot_def Multiboot_CreateEmptyMBI_def set_tag_size_def set_tag_type_def)
  have "same_between sample_e820 ?a 0 0x10000" "same_between ?a ?b 0 0x10000" "same_between ?b ?c 0 0x10000"
      "same_between ?c (store32 ?c 0x1000C 8) 0 0x10000"
    by (rule same_store32; simp)+
  then have "same_between sample_e820 sample_boot 0 0x10000" unfolding eq by (blast intro: same_trans)
  from e820_map_same [OF this, of "0x8000" 3] show ?thesis using sample_entries_at by simp
qed

lemma sample_ram_frames: "ram_frames sample_entries = {256..<1280}"
proof (rule set_eqI)
  fix f :: nat
  have "{f * 4096..<f * 4096 + 4096} \<subseteq> {0x100000..<0x500000} \<longleftrightarrow> 0x100000 \<le> f * 4096 \<and> f * 4096 + 4096 \<le> 0x500000"
    by (auto dest: atLeastLessThan_subset_iff)
  also have "\<dots> \<longleftrightarrow> 256 \<le> f \<and> f < 1280" by linarith
  finally show "f \<in> ram_frames sample_entries \<longleftrightarrow> f \<in> {256..<1280}"
    unfolding ram_frames_def sample_ram by (auto simp: NUM_FRAMES_def)
qed

theorem usable_memory_reaches_allocator_witness:
  "\<exists>m' s'. save_ram_info 0x10000 Boot_MULTIBOOT_TAG_TYPE_RAM_INFO_PAGE_ALIGNED True 0x8000 3 sample_boot = Some (True, m') \<and>
     Page_BuddyMaps_Initialize (no_pages\<lparr>mem := higher_half m'\<rparr>) 0x80010000 = Inr s' \<and> page_owns s' {256..<1280}"
proof -
  have lists: "\<forall>k \<le> PAGE_MAX_ORDER. Page_lists (no_pages\<lparr>mem := higher_half m'\<rparr>) k = PAGE_LIST_NULL" for m' by (simp add: no_pages_def)
  have h: "lookup_tag MULTIBOOT_TAG_TYPE_RAM_INFO_PAGE_ALIGNED (0x10000 + 8) [] = None" "sample_entries = map (e820_at sample_boot 0x8000) [0..<unat (3 :: u32)]"
      "unat (0x8000 :: u32) + 24 * unat (3 :: u32) \<le> unat (term_addr sample_boot 0x10000)"
      "unat (term_addr sample_boot 0x10000) + 16 * unat (3 :: u32) + 40 < 2 ^ 20"
      "ram_frames sample_entries \<noteq> {}" "0xFFFFF \<notin> ram sample_entries" "0x70000000 \<notin> ram sample_entries"
    by (simp_all add: sample_boot_entries sample_boot_term sample_ram_frames sample_ram)
  note t = usable_memory_reaches_allocator [OF sample_boot_wf h(1,2) sample_entries_ok h(3-7)]
  from t obtain m' sz where m': "save_ram_info 0x10000 Boot_MULTIBOOT_TAG_TYPE_RAM_INFO_PAGE_ALIGNED True 0x8000 3 sample_boot = Some (True, m')"
      "later_record m' m' 0x10000 ([] @ [(MULTIBOOT_TAG_TYPE_RAM_INFO_PAGE_ALIGNED, sz)]) []"
    and all: "\<And>m'' vs s. later_record m' m'' 0x10000 ([] @ [(MULTIBOOT_TAG_TYPE_RAM_INFO_PAGE_ALIGNED, sz)]) vs \<and> mem s = higher_half m'' \<and>
         (\<forall>k \<le> PAGE_MAX_ORDER. Page_lists s k = PAGE_LIST_NULL) \<Longrightarrow>
       \<exists>s'. Page_BuddyMaps_Initialize (s :: physmem) (0x10000 + KERNEL_HIGHER_HALF_OFFSET) = Inr s' \<and> page_owns s' (ram_frames sample_entries)"
    by blast
  have "mem (no_pages\<lparr>mem := higher_half m'\<rparr>) = higher_half m'" by simp
  then obtain s' where s': "Page_BuddyMaps_Initialize (no_pages\<lparr>mem := higher_half m'\<rparr>) (0x10000 + KERNEL_HIGHER_HALF_OFFSET) = Inr s'"
      "page_owns s' (ram_frames sample_entries)" using all m'(2) lists by blast
  have a: "0x10000 + KERNEL_HIGHER_HALF_OFFSET = 0x80010000" by (simp add: KERNEL_HIGHER_HALF_OFFSET_def)
  show ?thesis using m'(1) s'(1) [unfolded a] s'(2) [unfolded sample_ram_frames] by blast
qed

end
