(* ===== verification/AVOS_Paging_Frame.thy ===== *)
theory AVOS_Paging_Frame
  imports AVOS_Paging_Correct
begin

text \<open>
  What the page allocator and the paging code leave alone, whatever their outcome: the rest of the kernel's state, which extends theirs,
  and the process that the processor runs. One lemma for each operation, in the collection \<open>kept\<close>.
\<close>

section \<open>Keeping the rest of the kernel\<close>

definition current_process :: "'a physmem_scheme \<Rightarrow> nat option" where
  "current_process s = process (state_current (cpu s))"

definition kept :: "'a physmem_scheme \<Rightarrow> 'a physmem_scheme \<Rightarrow> bool" where
  "kept s s' \<longleftrightarrow> physmem.more s' = physmem.more s \<and> current_process s' = current_process s"

named_theorems kept

lemma kept_refl [simp]: "kept s s"
  by (simp add: kept_def)

lemma kept_trans [trans]: "kept s s1 \<Longrightarrow> kept s1 s2 \<Longrightarrow> kept s s2"
  by (simp add: kept_def)

lemma kept_updates [simp]:
  "kept s (s\<lparr>mem := m\<rparr>)" "kept s (s\<lparr>mem := m, Page_lists := l\<rparr>)" "kept s (s\<lparr>Page_maps := p\<rparr>)"
  by (simp_all add: kept_def current_process_def)

lemma kept_cpu: "process (state_current c) = process (state_current (cpu s)) \<Longrightarrow> kept s (s\<lparr>Page_operation_lock := l, cpu := c\<rparr>)"
  by (simp add: kept_def current_process_def)

section \<open>The allocator\<close>

lemma IRQLock_Acquire_process:
  "IRQLock_Acquire l c = Inr (l', c') \<Longrightarrow> process (state_current c') = process (state_current c)"
  by (auto simp: IRQLock_Acquire_def SpinLock_Acquire_eq veto_defs Let_def res_simps split: if_splits prod.splits)

lemma IRQLock_Release_process: "process (state_current (snd (IRQLock_Release l c))) = process (state_current c)"
  by (simp add: IRQLock_Release_def SpinLock_Release_def veto_defs Let_def)

lemma lock_pages_kept [kept]: "lock_pages s = Inr s' \<Longrightarrow> kept s s'"
  by (auto simp: lock_pages_def res_simps dest!: IRQLock_Acquire_process intro!: kept_cpu)

lemma unlock_pages_kept [kept, simp]: "kept s (unlock_pages s)"
  using IRQLock_Release_process [of "Page_operation_lock s" "cpu s"]
  by (auto simp: unlock_pages_def Let_def intro!: kept_cpu split: prod.splits)

lemma TOGGLEBIT_kept [kept]: "PAGE_MAP_TOGGLEBIT s addr i = Inr s' \<Longrightarrow> kept s s'"
  by (auto simp: PAGE_MAP_TOGGLEBIT_def page_map_update_def Let_def res_simps)

lemma page_list_kept [kept, simp]:
  "kept s (page_list_push s i p)" "kept s (release_unlink s addr i)" "kept s (acquire_pop s i)" "kept s (acquire_break s addr i)"
  by (simp_all add: page_list_push_def release_unlink_def acquire_pop_def acquire_break_def Let_def)

lemma release_toggle_kept [kept]: "release_toggle s addr i = Inr (s', j) \<Longrightarrow> kept s s'"
proof (induction s addr i rule: release_toggle.induct)
  case (1 s addr i)
  then show ?case
    by (subst (asm) (2) release_toggle.simps) (auto simp: res_simps split: if_splits dest: TOGGLEBIT_kept intro: kept_trans [OF TOGGLEBIT_kept])
qed

lemma release_merge_kept [kept, simp]: "kept s (release_merge s addr j i)"
proof (induction s addr j i rule: release_merge.induct)
  case (1 s addr j i)
  then show ?case by (subst release_merge.simps) (auto intro: kept_trans [OF page_list_kept(2)])
qed

lemma Page_Release_kept [kept]: "Page_Release s p k = Inr s' \<Longrightarrow> kept s s'"
  by (auto simp: Page_Release_def Let_def res_simps split: if_splits prod.splits dest!: lock_pages_kept release_toggle_kept
      intro!: kept_trans [OF _ unlock_pages_kept] kept_trans [OF _ page_list_kept(1)] kept_trans [OF _ release_merge_kept] intro: kept_trans)

lemma acquire_loop_kept [kept]: "acquire_loop s addr i k j = Inr s' \<Longrightarrow> kept s s'"
proof (induction s addr i k j rule: acquire_loop.induct)
  case (1 s addr i k j)
  show ?case
  proof (cases "int k \<le> j")
    case True
    then obtain s1 where s1: "PAGE_MAP_TOGGLEBIT s addr (nat j) = Inr s1"
        "acquire_loop (if j = int i then acquire_pop s1 (nat j) else acquire_break s1 addr (nat j)) addr i k (j - 1) = Inr s'"
      using "1.prems" by (subst (asm) acquire_loop.simps) (auto simp: res_simps Let_def)
    have "kept (if j = int i then acquire_pop s1 (nat j) else acquire_break s1 addr (nat j)) s'"
      by (rule "1.IH" [OF True _ refl s1(2)]) (rule s1(1))
    then show ?thesis using TOGGLEBIT_kept [OF s1(1)] by (auto intro: kept_trans split: if_splits dest: kept_trans [OF page_list_kept(3)] kept_trans [OF page_list_kept(4)])
  next
    case False
    then show ?thesis using "1.prems" by (subst (asm) acquire_loop.simps) simp
  qed
qed

lemma Page_Acquire_kept [kept]: "Page_Acquire s k = Inr (p, s') \<Longrightarrow> kept s s'"
  by (auto simp: Page_Acquire_def Let_def res_simps split: option.splits dest!: lock_pages_kept acquire_loop_kept
      intro!: kept_trans [OF _ unlock_pages_kept] intro: kept_trans)

section \<open>Paging\<close>

lemma word_kept [kept, simp]: "kept s (set_word p i v s)" "kept s (clear_page p s)"
  by (simp_all add: set_word_def clear_page_def)

lemma kept_set_word: "kept s s' \<Longrightarrow> kept s (set_word p i v s')" and kept_clear_page: "kept s s' \<Longrightarrow> kept s (clear_page p s')"
  by (auto intro: kept_trans)

lemmas kept_intros = kept_set_word kept_clear_page

lemma Paging_MapPage_kept [kept]: "Paging_MapPage s cr3 va pa create = Inr (b, s') \<Longrightarrow> kept s s'"
  by (auto simp: Paging_MapPage_def Let_def res_simps split: if_splits dest!: Page_Acquire_kept intro!: kept_intros)

lemma Paging_UnmapPage_kept [kept]: "Paging_UnmapPage s cr3 va = Inr (b, s') \<Longrightarrow> kept s s'"
  by (auto simp: Paging_UnmapPage_def Let_def res_simps split: if_splits dest!: Page_Release_kept intro!: kept_intros)

lemma map_pages_loop_kept [kept]: "map_pages_loop n s cr3 va ve sz = Inr (r, s') \<Longrightarrow> kept s s'"
proof (induction n s cr3 va ve sz rule: map_pages_loop.induct)
  case (2 n s cr3 va ve sz)
  from "2.prems" obtain p s1 where s1: "Page_Acquire s 0 = Inr (p, s1)" by (auto simp: res_simps)
  note k1 = Page_Acquire_kept [OF s1]
  show ?case
  proof (cases "p = PAGE_LIST_NULL")
    case False
    then obtain m s2 where s2: "Paging_MapPage s1 cr3 va (PHYSADDR p) True = Inr (m, s2)" using "2.prems" s1 by (auto simp: res_simps)
    note k2 = kept_trans [OF k1 Paging_MapPage_kept [OF s2]]
    show ?thesis
      using "2.prems" s1 s2 False k2 "2.IH" [OF s1 refl False s2 refl] by (auto simp: res_simps split: if_splits dest!: Page_Release_kept intro: kept_trans)
  qed (use "2.prems" s1 k1 in auto)
qed simp

lemma Paging_MapPages_kept [kept]: "Paging_MapPages s cr3 va sz = Inr (r, s') \<Longrightarrow> kept s s'"
  by (auto simp: Paging_MapPages_def split: if_splits dest: map_pages_loop_kept)

lemma unmap_pages_loop_kept [kept]: "unmap_pages_loop s cr3 va ve f = Inr (r, s') \<Longrightarrow> kept s s'"
proof (induction s cr3 va ve f rule: unmap_pages_loop.induct)
  case (1 s cr3 va ve f)
  then show ?case
    by (subst (asm) (2) unmap_pages_loop.simps)
      (auto simp: res_simps split: if_splits dest: Paging_UnmapPage_kept intro: kept_trans [OF Paging_UnmapPage_kept])
qed

lemma Paging_UnmapPages_kept [kept]: "Paging_UnmapPages s cr3 va sz = Inr (r, s') \<Longrightarrow> kept s s'"
  by (simp add: Paging_UnmapPages_def unmap_pages_loop_kept)

lemma fold_set_word_kept: "kept s (fold (\<lambda>k s'. set_word p (f k) (g k) s') ks s)"
  by (induction ks arbitrary: s) (auto intro: kept_trans [OF word_kept(1)])

lemma Paging_Initialize_kept [kept]: "Paging_Initialize s pd = Inr (d, s') \<Longrightarrow> kept s s'"
  by (auto simp: Paging_Initialize_def Let_def res_simps split: if_splits dest!: Page_Acquire_kept
      intro!: kept_trans [OF _ fold_set_word_kept] kept_intros)

lemma terminate_loop_kept [kept]: "terminate_loop s cr3 ks = Inr s' \<Longrightarrow> kept s s'"
  by (induction s cr3 ks rule: terminate_loop.induct)
    (auto simp: Let_def res_simps intro: kept_trans [OF kept_set_word [OF Page_Release_kept]])

lemma Paging_Terminate_kept [kept]: "Paging_Terminate s cr3 = Inr s' \<Longrightarrow> kept s s'"
  by (auto simp: Paging_Terminate_def res_simps dest!: Paging_UnmapPages_kept terminate_loop_kept Page_Release_kept intro: kept_trans)

lemma kept_mem: "kept s s' \<Longrightarrow> kept s (s'\<lparr>mem := m\<rparr>)"
  by (rule kept_trans [OF _ kept_updates(1)])

lemma clone_table_kept [kept]: "clone_table s ptab t js = Inr (r, s') \<Longrightarrow> kept s s'"
proof (induction s ptab t js rule: clone_table.induct)
  case (2 s ptab t j js)
  show ?case
  proof (cases "word_at (mem s) ptab (of_nat j) = 0")
    case True
    then show ?thesis using 2 by simp
  next
    case False
    then obtain p s1 where s1: "Page_Acquire s 0 = Inr (p, s1)" using "2.prems" by (auto simp: res_simps Let_def)
    then show ?thesis
      using "2.prems" False "2.IH"(2) [OF refl False s1 refl _ refl refl] Page_Acquire_kept [OF s1]
      by (auto simp: Let_def split: if_splits intro: kept_trans [OF kept_mem [OF kept_set_word]])
  qed
qed simp

lemma clone_dir_kept [kept]: "clone_dir s d c is = Inr (r, s') \<Longrightarrow> kept s s'"
proof (induction s d c "is" rule: clone_dir.induct)
  case (2 s d c i "is")
  show ?case
  proof (cases "word_at (mem s) d (of_nat i) = 0")
    case True
    then show ?thesis using 2 by simp
  next
    case False
    then obtain p s1 where s1: "Page_Acquire s 0 = Inr (p, s1)" using "2.prems" by (auto simp: res_simps Let_def)
    note k1 = Page_Acquire_kept [OF s1]
    show ?thesis
    proof (cases "p = PAGE_LIST_NULL")
      case np: False
      let ?s2 = "set_word c (of_nat i) (PHYSADDR p + PAGEOFFSET (word_at (mem s1) d (of_nat i))) s1"
      obtain ok s3 where s3: "clone_table ?s2 (page_table_of (word_at (mem ?s2) d (of_nat i))) p [0..<PAGING_PGTAB_NENTRIES] = Inr (ok, s3)"
        using "2.prems" False s1 np by (auto simp: res_simps Let_def simp del: clone_table.simps)
      have k3: "kept s s3" using kept_trans [OF kept_set_word [OF k1] clone_table_kept [OF s3]] .
      have "(if ok then clone_dir s3 d c is else Inr (False, s3)) = Inr (r, s')"
        using "2.prems" False s1 s3 np by (simp add: Let_def del: clone_table.simps)
      then show ?thesis using k3 "2.IH"(2) [OF False s1 refl np refl refl s3 refl] by (auto split: if_splits intro: kept_trans)
    qed (use "2.prems" False s1 k1 in auto)
  qed
qed simp

lemma Paging_Clone_kept [kept]: "Paging_Clone s d c = Inr (r, s') \<Longrightarrow> kept s s'"
  by (auto simp: Paging_Clone_def res_simps split: if_splits dest!: clone_dir_kept Paging_Terminate_kept intro: kept_trans)

end
