(* ===== verification/AVOS_Process_Types.thy ===== *)
theory AVOS_Process_Types
  imports AVOS_Process_Correct AVOS_Paging_Frame
begin

text \<open>
  The typing of the process table. A \<open>struct Process*\<close> is a slot number in the model; the source never checks one. Here every
  operation of the scheduler, of the processes and of the sleep locks is shown to keep all of them inside the table and to write to
  no slot outside it, and so is any run of these operations in any order, on any processor.
\<close>

section \<open>Typed states\<close>

definition proc_ref :: "nat option \<Rightarrow> bool" where
  "proc_ref r \<longleftrightarrow> (case r of None \<Rightarrow> True | Some i \<Rightarrow> i < KERNEL_MAX_PROCS)"

lemma proc_ref_simps [simp]: "proc_ref None" "proc_ref (Some i) \<longleftrightarrow> i < KERNEL_MAX_PROCS"
  by (simp_all add: proc_ref_def)

definition proc_typed :: "Process \<Rightarrow> bool" where
  "proc_typed p \<longleftrightarrow> proc_ref (p_parent p) \<and> proc_ref (p_child p) \<and> proc_ref (p_sibling p)"

definition kernel_typed :: "kernel \<Rightarrow> bool" where
  "kernel_typed s \<longleftrightarrow> proc_ref (current_process s) \<and> proc_ref (Process_primordial s) \<and>
     (\<forall>i < KERNEL_MAX_PROCS. proc_typed (proc_at s i) \<and> proc_ref (process (proc_states s i)))"

text \<open>Nothing past the end of the tables indexed by slots is written.\<close>

definition in_table :: "kernel \<Rightarrow> kernel \<Rightarrow> bool" where
  "in_table s s' \<longleftrightarrow> (\<forall>i \<ge> KERNEL_MAX_PROCS. proc_at s' i = proc_at s i \<and> proc_states s' i = proc_states s i \<and>
     task_contexts s' i = task_contexts s i \<and> intr_contexts s' i = intr_contexts s i)"

definition sound :: "kernel \<Rightarrow> kernel \<Rightarrow> bool" where
  "sound s s' \<longleftrightarrow> (kernel_typed s \<longrightarrow> kernel_typed s' \<and> in_table s s')"

named_theorems sound

lemma sound_refl [simp]: "sound s s"
  by (simp add: sound_def in_table_def)

lemma sound_trans [trans]: "sound s s1 \<Longrightarrow> sound s1 s2 \<Longrightarrow> sound s s2"
  by (simp add: sound_def in_table_def)

lemma sound_then: "sound s s1 \<Longrightarrow> (kernel_typed s \<Longrightarrow> kernel_typed s1 \<Longrightarrow> sound s1 s2) \<Longrightarrow> sound s s2"
  by (auto simp: sound_def in_table_def)

lemma sound_typed: "(kernel_typed s \<Longrightarrow> sound s s') \<Longrightarrow> sound s s'"
  by (simp add: sound_def)

lemma typed_proc: "kernel_typed s \<Longrightarrow> i < KERNEL_MAX_PROCS \<Longrightarrow> proc_typed (proc_at s i)"
  by (simp add: kernel_typed_def)

section \<open>What leaves the tables alone\<close>

definition tables :: "kernel \<Rightarrow> (nat \<Rightarrow> Process) \<times> (nat \<Rightarrow> State) \<times> (nat \<Rightarrow> KContext) \<times> (nat \<Rightarrow> IContext) \<times> nat option \<times> nat option" where
  "tables s = (Scheduler_processes s, proc_states s, task_contexts s, intr_contexts s, Process_primordial s, current_process s)"

lemma sound_same: "tables s' = tables s \<Longrightarrow> sound s s'"
  by (simp add: tables_def sound_def kernel_typed_def in_table_def proc_at_def)

lemma sound_kept: "kept s s' \<Longrightarrow> sound s s'"
proof (rule sound_same)
  assume "kept s s'"
  then show "tables s' = tables s" by (cases s; cases s') (simp add: kept_def tables_def)
qed

lemma SpinLock_Acquire_process: "SpinLock_Acquire l c = Inr (l', c') \<Longrightarrow> process (state_current c') = process (state_current c)"
  by (auto simp: SpinLock_Acquire_eq veto_defs split: if_splits)

lemma SpinLock_Release_process: "process (state_current (snd (SpinLock_Release l c))) = process (state_current c)"
  by (simp add: SpinLock_Release_def veto_defs)

lemma lock_procs_sound [sound]: "lock_procs s = Inr s' \<Longrightarrow> sound s s'"
  by (rule sound_same) (auto simp: lock_procs_def res_simps tables_def current_process_def dest: SpinLock_Acquire_process)

lemma lock_access_sound [sound]: "lock_access l s = Inr s' \<Longrightarrow> sound s s'"
  by (rule sound_same) (auto simp: lock_access_def res_simps tables_def current_process_def upd_sleep_def dest: SpinLock_Acquire_process)

lemma unlock_sound [sound, simp]: "sound s (unlock_procs s)" "sound s (unlock_access l s)"
  by (rule sound_same; simp add: unlock_procs_def unlock_access_def Let_def tables_def current_process_def upd_sleep_def SpinLock_Release_def veto_defs)+

lemma other_sound [sound, simp]:
  "sound s (upd_sleep l f s)" "sound s (s\<lparr>Process_next_pid := n\<rparr>)" "sound s (s\<lparr>mem := m\<rparr>)" "sound s (s\<lparr>tss_esp0 := t\<rparr>)"
  "sound s (s\<lparr>State_lock := a, Process_lock := b\<rparr>)"
  by (rule sound_same; simp add: tables_def current_process_def upd_sleep_def)+

section \<open>Writing to a slot\<close>

lemma upd_proc_sound:
  assumes "i < KERNEL_MAX_PROCS" "kernel_typed s \<Longrightarrow> proc_typed (f (proc_at s i))"
  shows "sound s (upd_proc i f s)"
  using assms by (auto simp: sound_def kernel_typed_def in_table_def current_process_def upd_proc_def proc_at_def)

lemma set_status_sound [sound]: "i < KERNEL_MAX_PROCS \<Longrightarrow> sound s (set_status i st s)"
  unfolding set_status_def by (rule upd_proc_sound) (auto dest: typed_proc simp: proc_typed_def)

lemma contexts_sound [sound]:
  "i < KERNEL_MAX_PROCS \<Longrightarrow> sound s (s\<lparr>task_contexts := (task_contexts s)(i := k)\<rparr>)"
  "i < KERNEL_MAX_PROCS \<Longrightarrow> sound s (s\<lparr>intr_contexts := (intr_contexts s)(i := c)\<rparr>)"
  by (auto simp: sound_def kernel_typed_def in_table_def current_process_def proc_at_def)

lemma proc_states_sound:
  assumes "i < KERNEL_MAX_PROCS" "kernel_typed s \<Longrightarrow> proc_ref (process x)"
  shows "sound s (s\<lparr>proc_states := (proc_states s)(i := x)\<rparr>)"
  using assms by (auto simp: sound_def kernel_typed_def in_table_def current_process_def proc_at_def)

section \<open>The scheduler\<close>

lemma fold_sound: "(\<And>i s. i \<in> set is \<Longrightarrow> sound s (f i s)) \<Longrightarrow> sound s (fold f is s)"
  by (induction "is" arbitrary: s) (auto intro: sound_trans)

lemma Scheduler_Initialize_sound [sound]: "sound s (Scheduler_Initialize s)"
  unfolding Scheduler_Initialize_def
  by (rule sound_trans [OF other_sound(5) fold_sound]) (auto intro: set_status_sound)

lemma RaiseAlarm_sound [sound]: "sound s (Scheduler_RaiseAlarm s alarm)"
  unfolding Scheduler_RaiseAlarm_def
proof (rule fold_sound)
  fix i s assume "i \<in> set [0..<KERNEL_MAX_PROCS]"
  then show "sound s (raise_one alarm i s)"
    by (auto simp: raise_one_def proc_typed_def intro!: upd_proc_sound dest: typed_proc)
qed

lemma book_scan_slot: "book_scan s = Some i \<Longrightarrow> i < KERNEL_MAX_PROCS"
  by (auto simp: book_scan_def find_Some_iff)

lemma Scheduler_Book_sound [sound]:
  assumes "Scheduler_Book s = Inr (i, s')"
  shows "i < KERNEL_MAX_PROCS" and "sound s s'"
proof -
  obtain s1 where s1: "lock_procs s = Inr s1" "book_scan s1 = Some i"
      "s' = unlock_procs ((upd_proc i (\<lambda>p. p\<lparr>p_id := Process_next_pid (set_status i PROCESS_BOOKED s1)\<rparr>) (set_status i PROCESS_BOOKED s1))
         \<lparr>Process_next_pid := Process_next_pid (upd_proc i (\<lambda>p. p\<lparr>p_id := Process_next_pid (set_status i PROCESS_BOOKED s1)\<rparr>) (set_status i PROCESS_BOOKED s1)) + 1\<rparr>)"
    using assms by (auto simp: Scheduler_Book_def res_simps Let_def split: option.splits)
  show i: "i < KERNEL_MAX_PROCS" by (rule book_scan_slot [OF s1(2)])
  show "sound s s'"
    unfolding s1(3)
    by (rule sound_trans [OF lock_procs_sound [OF s1(1)] sound_trans [OF set_status_sound sound_trans [OF upd_proc_sound sound_trans [OF other_sound(2) unlock_sound(1)]]]])
      (use i in \<open>auto dest: typed_proc simp: proc_typed_def\<close>)
qed

text \<open>A slot can be booked in a table that was just initialised.\<close>

lemma fold_set_status:
  "Process_lock (fold (\<lambda>i. set_status i st) is s) = Process_lock s"
  "p_status (proc_at (fold (\<lambda>i. set_status i st) is s) k) = (if k \<in> set is then st else p_status (proc_at s k))"
  by (induction "is" arbitrary: s) (auto simp: set_status_def upd_proc_def proc_at_def)

lemma Scheduler_Book_initialized: "\<exists>i s'. Scheduler_Book (Scheduler_Initialize s) = Inr (i, s')"
proof -
  let ?s = "Scheduler_Initialize s"
  have s: "\<not> flag (Process_lock ?s)" "p_status (proc_at ?s 0) = PROCESS_IDLE"
    by (simp_all add: Scheduler_Initialize_def fold_set_status SpinLock_Initialize_def atomic_flag_clear_def KERNEL_MAX_PROCS_def)
  obtain s1 where s1: "lock_procs ?s = Inr s1" using s(1) by (simp add: lock_procs_eq)
  have "book_scan s1 \<noteq> None"
    using s(2) unfolding book_scan_def find_None_iff by (auto simp: proc_at_lock_procs [OF s1] KERNEL_MAX_PROCS_def intro!: exI [of _ 0])
  then show ?thesis using s1 by (auto simp: Scheduler_Book_def Let_def)
qed

lemma Context_SetupProcess_sound [sound]:
  assumes "i < KERNEL_MAX_PROCS" "Context_SetupProcess s i = Inr s'"
  shows "sound s s'"
proof -
  let ?st = "(proc_states s i)\<lparr>kernel_task := kernel_task (state_current (cpu s))\<rparr>"
  have "sound s (s\<lparr>proc_states := (proc_states s)(i := ?st)\<rparr>)"
    by (rule proc_states_sound) (use assms(1) in \<open>simp_all add: kernel_typed_def\<close>)
  moreover have "sound t (upd_proc i (\<lambda>p. p\<lparr>p_start_time := x\<rparr>) t)" for t x
    by (rule upd_proc_sound) (use assms(1) in \<open>auto dest: typed_proc simp: proc_typed_def\<close>)
  ultimately show ?thesis
    using assms(2) by (auto simp: Context_SetupProcess_def Let_def res_simps intro: sound_trans sound_trans [OF sound_trans [OF _ other_sound(4)]])
qed

lemma Schedule_turn_sound:
  assumes "i < KERNEL_MAX_PROCS" "\<And>a b. sw i a = Inr b \<Longrightarrow> sound a b" "Schedule_turn sw s i = Inr (s', j)"
  shows "sound s s'" and "j < KERNEL_MAX_PROCS"
proof -
  obtain s1 s2 where s: "lock_procs s = Inr s1" "s' = unlock_procs s2"
      "(if p_status (proc_at s1 i) = PROCESS_RUNNABLE then res_bind (Context_SetupProcess (set_status i PROCESS_RUNNING s1) i) (sw i) else Inr s1) = Inr s2"
    using assms(3) by (auto simp: Schedule_turn_def res_bind_eq_Inr)
  have "sound s1 s2"
    using s(3) assms(1,2) by (auto simp: res_simps split: if_splits
      intro: sound_trans [OF set_status_sound sound_trans [OF Context_SetupProcess_sound]])
  then show "sound s s'" unfolding s(2) using lock_procs_sound [OF s(1)] unlock_sound(1) by (blast intro: sound_trans)
  show "j < KERNEL_MAX_PROCS" using assms(1,3) by (auto simp: Schedule_turn_def res_simps split: if_splits)
qed

lemma schedule_turns_sound:
  "i < KERNEL_MAX_PROCS \<Longrightarrow> (\<And>k j a b. sw k j a = Inr b \<Longrightarrow> sound a b) \<Longrightarrow> (\<And>k a b. others k a = Inr b \<Longrightarrow> sound a b)
    \<Longrightarrow> schedule_turns n sw others s i = Inr (s', j) \<Longrightarrow> sound s s' \<and> j < KERNEL_MAX_PROCS"
proof (induction n arbitrary: s i)
  case (Suc n)
  from Suc.prems(4) obtain s1 k s2 where s: "Schedule_turn (sw n) s i = Inr (s1, k)" "others n s1 = Inr s2"
      "schedule_turns n sw others s2 k = Inr (s', j)"
    by (auto simp: res_simps)
  have sw: "\<And>a b. sw n i a = Inr b \<Longrightarrow> sound a b" by (rule Suc.prems(2))
  note turn = Schedule_turn_sound [where sw = "sw n", OF Suc.prems(1) sw s(1)]
  note turn(1) also note Suc.prems(3) [OF s(2)]
  finally have "sound s s2" .
  moreover have "sound s2 s' \<and> j < KERNEL_MAX_PROCS" by (rule Suc.IH [OF turn(2) _ _ s(3)]) (use Suc.prems(2,3) in blast)+
  ultimately show ?case by (blast intro: sound_trans)
qed simp

lemma Schedule_sound:
  assumes "\<And>k j a b. sw k j a = Inr b \<Longrightarrow> sound a b" "\<And>k a b. others k a = Inr b \<Longrightarrow> sound a b" "Schedule n sw others s = Inr (s', j)"
  shows "sound s s'"
  using schedule_turns_sound [of 0 sw others n s s' j] assms by (simp add: Schedule_def KERNEL_MAX_PROCS_def)

section \<open>Processes\<close>

lemma Context_Initialize_sound: "i < KERNEL_MAX_PROCS \<Longrightarrow> sound s (Context_Initialize s i)"
  unfolding Context_Initialize_def Let_def
  by (rule sound_trans [OF upd_proc_sound sound_trans [OF other_sound(3) sound_trans [OF upd_proc_sound contexts_sound(1)]]])
    (auto dest: typed_proc simp: proc_typed_def)

lemma State_Initialize_sound: "i < KERNEL_MAX_PROCS \<Longrightarrow> sound s (State_Initialize s i)"
  unfolding State_Initialize_def by (rule proc_states_sound) simp_all

lemma Process_Initialize_sound [sound]:
  assumes "i < KERNEL_MAX_PROCS" "Process_Initialize s i = Inr (b, s')"
  shows "sound s s'"
proof -
  obtain st s1 where s1: "Page_Acquire s STACK_ORDER = Inr (st, s1)" using assms(2) by (auto simp: Process_Initialize_def res_simps)
  have k1: "sound s s1" by (rule sound_kept [OF Page_Acquire_kept [OF s1]])
  show ?thesis
  proof (cases "st = PAGE_LIST_NULL")
    case False
    let ?s2 = "upd_proc i (\<lambda>p. p\<lparr>p_kernel_stack := (p_kernel_stack p)\<lparr>stack_base := st, stack_size := KERNEL_STACK_SIZE\<rparr>\<rparr>) s1"
    let ?s3 = "Context_Initialize (State_Initialize ?s2 i) i"
    obtain d s4 where s4: "Paging_Initialize ?s3 (Kernel_pagedirectory ?s3) = Inr (d, s4)"
      using assms(2) s1 False by (auto simp: Process_Initialize_def res_simps Let_def)
    have s2: "sound s1 ?s2" by (rule upd_proc_sound) (use assms(1) in \<open>auto dest: typed_proc simp: proc_typed_def\<close>)
    note k1 also note s2
    also note State_Initialize_sound [OF assms(1)] also note Context_Initialize_sound [OF assms(1)]
    also note sound_kept [OF Paging_Initialize_kept [OF s4]]
    finally have "sound s s4" .
    then show ?thesis
      using assms s1 s4 False by (auto simp: Process_Initialize_def Let_def split: option.splits intro: sound_trans [OF _ contexts_sound(1)])
  qed (use assms(2) s1 k1 in \<open>auto simp: Process_Initialize_def\<close>)
qed

lemma Process_SleepOn_sound [sound]:
  assumes "i < KERNEL_MAX_PROCS" "\<And>a b. sw a = Inr b \<Longrightarrow> sound a b" "Process_SleepOn sw s i l = Inr s'"
  shows "sound s s'"
proof -
  let ?s0 = "upd_proc i (\<lambda>p. p\<lparr>p_wakeup_on := l, p_status := PROCESS_ASLEEP\<rparr>) s"
  obtain s1 where s1: "sw ?s0 = Inr s1" "s' = upd_proc i (\<lambda>p. p\<lparr>p_wakeup_on := PROCESS_ALARM_OFF\<rparr>) s1"
    using assms(3) unfolding Process_SleepOn_def res_bind_eq_Inr by blast
  have "sound s ?s0" by (rule upd_proc_sound [OF assms(1)]) (auto dest: typed_proc [OF _ assms(1)] simp: proc_typed_def)
  also have "sound ?s0 s1" by (rule assms(2) [OF s1(1)])
  also have "sound s1 s'" unfolding s1(2) by (rule upd_proc_sound [OF assms(1)]) (auto dest: typed_proc [OF _ assms(1)] simp: proc_typed_def)
  finally show ?thesis .
qed

lemma Process_Preempt_sound [sound]:
  assumes "\<And>a b. sw a = Inr b \<Longrightarrow> sound a b" "Process_Preempt sw s = Inr s'"
  shows "sound s s'"
proof (rule sound_typed)
  assume typed: "kernel_typed s"
  show ?thesis
  proof (cases "\<not> STATE_PREEMPTIBLE (cpu s) \<or> current_process s = None")
    case True
    then show ?thesis using assms(2) by (auto simp: Process_Preempt_def current_process_def split: if_splits)
  next
    case False
    then obtain i where i: "current_process s = Some i" by auto
    then have "i < KERNEL_MAX_PROCS" using typed by (simp add: kernel_typed_def)
    then show ?thesis
      using assms(2) i False
      by (auto simp: Process_Preempt_def current_process_def res_simps split: if_splits
          dest!: lock_procs_sound assms(1) intro: sound_trans sound_trans [OF _ sound_trans [OF set_status_sound]] sound_trans [OF _ unlock_sound(1)])
  qed
qed

lemma upd_links_sound:
  "i < KERNEL_MAX_PROCS \<Longrightarrow> (\<And>p. p_parent (f p) = p_parent p \<and> p_child (f p) = p_child p \<and> p_sibling (f p) = p_sibling p) \<Longrightarrow> sound s (upd_proc i f s)"
  by (rule upd_proc_sound) (auto dest: typed_proc simp: proc_typed_def)

lemma ShiftEndPoint_sound [sound]:
  assumes "i < KERNEL_MAX_PROCS" "Process_ShiftEndPoint s i d = Inr s'"
  shows "sound s s'"
proof -
  have "sound t (upd_proc i (\<lambda>p. p\<lparr>p_endpoint := x\<rparr>) t)" for t x by (rule upd_links_sound [OF assms(1)]) simp
  then show ?thesis
    using assms(2)
    by (auto simp: Process_ShiftEndPoint_def Let_def res_simps split: if_splits
        dest!: Paging_UnmapPages_kept Paging_MapPages_kept sound_kept intro: sound_trans)
qed

text \<open>The successful end of a fork: the links between parent and child.\<close>

lemma fork_links_sound:
  assumes "parent < KERNEL_MAX_PROCS" "child < KERNEL_MAX_PROCS"
  shows "sound s (upd_proc child (\<lambda>c. c\<lparr>p_parent := Some parent, p_child := None, p_sibling := p_child (proc_at s parent),
      p_num_children := n, p_exit_code := x, p_run_time := rt, p_endpoint := ep\<rparr>) s)"
    and "sound s (upd_proc parent (\<lambda>q. q\<lparr>p_num_children := p_num_children q + 1, p_child := Some child\<rparr>) s)"
  by (rule upd_proc_sound; use assms in \<open>auto dest: typed_proc simp: proc_typed_def\<close>)+

lemma Process_Fork_sound [sound]:
  assumes "parent < KERNEL_MAX_PROCS" "Process_Fork s parent = Inr (r, s')"
  shows "sound s s'"
proof -
  obtain child s1 where s1: "Scheduler_Book s = Inr (child, s1)" using assms(2) by (auto simp: Process_Fork_def res_simps)
  note child = Scheduler_Book_sound(1) [OF s1]
  obtain ok1 s2 where s2: "Process_Initialize s1 child = Inr (ok1, s2)" using assms(2) s1 by (auto simp: Process_Fork_def res_simps)
  obtain ok s3 where s3: "(if \<not> ok1 then Inr (False, s2)
      else Paging_Clone s2 (kc_cr3 (task_contexts s2 parent)) (kc_cr3 (task_contexts s2 child))) = Inr (ok, s3)"
    using assms(2) s1 s2 unfolding Process_Fork_def by (auto simp only: res_simps prod.case)
  have "sound s2 s3" using s3 by (auto split: if_splits dest!: Paging_Clone_kept sound_kept)
  note k3 = sound_trans [OF sound_trans [OF Scheduler_Book_sound(2) [OF s1] Process_Initialize_sound [OF child s2]] this]
  show ?thesis
  proof (cases ok)
    case False
    then obtain s4 s5 where s5: "Page_Release s3 (stack_base (p_kernel_stack (proc_at s3 child))) STACK_ORDER = Inr s4" "lock_procs s4 = Inr s5"
        "s' = unlock_procs (set_status child PROCESS_IDLE s5)"
      using assms(2) s1 s2 s3 unfolding Process_Fork_def by (auto simp: res_simps)
    note k3 also note sound_kept [OF Page_Release_kept [OF s5(1)]] also note lock_procs_sound [OF s5(2)]
    also note set_status_sound [OF child, of s5 PROCESS_IDLE] also note unlock_sound(1)
    finally show ?thesis unfolding s5(3) .
  next
    case True
    define s4 where "s4 = upd_proc child (\<lambda>c. c\<lparr>p_parent := Some parent, p_child := None, p_sibling := p_child (proc_at s3 parent),
        p_num_children := 0, p_exit_code := - 1, p_run_time := p_run_time (proc_at s3 parent), p_endpoint := p_endpoint (proc_at s3 parent)\<rparr>) s3"
    define s5 where "s5 = s4\<lparr>intr_contexts := (intr_contexts s4)(child := IContext_Fork (intr_contexts s4 child) (intr_contexts s4 parent))\<rparr>"
    define s6 where "s6 = upd_proc parent (\<lambda>q. q\<lparr>p_num_children := p_num_children q + 1, p_child := Some child\<rparr>) s5"
    obtain s7 where s7: "lock_procs s6 = Inr s7" "s' = unlock_procs (set_status child PROCESS_RUNNABLE s7)"
      using assms(2) s1 s2 s3 True unfolding Process_Fork_def s6_def s5_def s4_def by (auto simp: res_simps Let_def)
    have "sound s3 s4" unfolding s4_def by (rule fork_links_sound(1) [OF assms(1) child])
    from k3 this have "sound s s4" by (rule sound_trans)
    also have "sound s4 s5" unfolding s5_def by (rule contexts_sound(2) [OF child])
    also have "sound s5 s6" unfolding s6_def by (rule fork_links_sound(2) [OF assms(1) child])
    also note lock_procs_sound [OF s7(1)] also note set_status_sound [OF child, of s7 PROCESS_RUNNABLE] also note unlock_sound(1)
    finally show ?thesis unfolding s7(2) .
  qed
qed

lemma wait_siblings_sound:
  "i < KERNEL_MAX_PROCS \<Longrightarrow> kid < KERNEL_MAX_PROCS \<Longrightarrow> wait_siblings n s i kid r = Inr (r', s') \<Longrightarrow> sound s s'"
proof (induction n s i kid r rule: wait_siblings.induct)
  case (2 n s i kid r)
  show ?case
  proof (cases "p_sibling (proc_at s kid)")
    case (Some sib)
    show ?thesis
    proof (rule sound_typed)
      assume "kernel_typed s"
      then have sib: "sib < KERNEL_MAX_PROCS" using typed_proc [of s kid] "2.prems"(2) Some by (simp add: proc_typed_def)
      show "sound s s'"
      proof (cases "p_status (proc_at s sib) = PROCESS_DEAD")
        case True
        define s1 where "s1 = set_status sib PROCESS_IDLE s"
        define s2 where "s2 = upd_proc i (\<lambda>p. p\<lparr>p_num_children := p_num_children p - 1\<rparr>) s1"
        have s': "s' = upd_proc kid (\<lambda>k. k\<lparr>p_sibling := p_sibling (proc_at s2 sib)\<rparr>) s2"
          using "2.prems"(3) Some True by (auto simp: wait_siblings.simps s1_def s2_def Let_def)
        have "sound s s1" unfolding s1_def by (rule set_status_sound [OF sib])
        also have "sound s1 s2" unfolding s2_def by (rule upd_links_sound [OF "2.prems"(1)]) simp
        also have "sound s2 s'" unfolding s'
          by (rule upd_proc_sound [OF "2.prems"(2)]) (use sib "2.prems"(2) in \<open>auto dest: typed_proc simp: proc_typed_def\<close>)
        finally show ?thesis .
      next
        case False
        then show ?thesis using "2.IH" [OF Some False "2.prems"(1) sib] "2.prems"(3) Some by (simp add: wait_siblings.simps)
      qed
    qed
  qed (use "2.prems"(3) in \<open>simp add: wait_siblings.simps\<close>)
qed (simp add: wait_siblings.simps)

lemma wait_loop_sound:
  "i < KERNEL_MAX_PROCS \<Longrightarrow> (\<And>a b. sw a = Inr b \<Longrightarrow> sound a b) \<Longrightarrow> wait_loop n sw s i r = Inr (r', s') \<Longrightarrow> sound s s'"
proof (induction n sw s i r rule: wait_loop.induct)
  case (2 n sw s i r)
  show ?case
  proof (cases "p_num_children (proc_at s i) = 0")
    case False
    then obtain kid where kid: "p_child (proc_at s i) = Some kid" using "2.prems"(3) by (auto split: option.splits)
    show ?thesis
    proof (rule sound_typed)
      assume "kernel_typed s"
      then have k: "kid < KERNEL_MAX_PROCS" using typed_proc [of s i] "2.prems"(1) kid by (simp add: proc_typed_def)
      show "sound s s'"
      proof (cases "p_status (proc_at s kid) = PROCESS_DEAD")
        case True
        define s1 where "s1 = set_status kid PROCESS_IDLE s"
        have s': "s' = upd_proc i (\<lambda>p. p\<lparr>p_num_children := p_num_children p - 1, p_child := p_sibling (proc_at s1 kid)\<rparr>) s1"
          using "2.prems"(3) False kid True by (simp add: s1_def Let_def)
        have "sound s s1" unfolding s1_def by (rule set_status_sound [OF k])
        also have "sound s1 s'" unfolding s'
          by (rule upd_proc_sound [OF "2.prems"(1)]) (use k "2.prems"(1) in \<open>auto dest: typed_proc simp: proc_typed_def\<close>)
        finally show ?thesis .
      next
        case alive: False
        obtain q s1 where s1: "wait_siblings (KERNEL_MAX_PROCS + 1) s i kid r = Inr (q, s1)"
          using "2.prems"(3) False kid alive by (auto simp: res_simps simp del: wait_siblings.simps)
        obtain s2 where s2: "sw (set_status i PROCESS_ASLEEP s1) = Inr s2" "wait_loop n sw s2 i q = Inr (r', s')"
          using "2.prems"(3) False kid alive s1 by (auto simp: res_simps simp del: wait_siblings.simps)
        note wait_siblings_sound [OF "2.prems"(1) k s1] also note set_status_sound [OF "2.prems"(1), of s1 PROCESS_ASLEEP]
        also note "2.prems"(2) [OF s2(1)]
        also have "sound s2 s'" using "2.IH" [OF False kid alive s1 refl s2(1) "2.prems"(1,2) s2(2)] .
        finally show ?thesis .
      qed
    qed
  qed (use "2.prems"(3) in simp)
qed simp

lemma Process_Wait_sound [sound]:
  assumes "i < KERNEL_MAX_PROCS" "\<And>a b. sw a = Inr b \<Longrightarrow> sound a b" "Process_Wait n sw s i = Inr (r, s')"
  shows "sound s s'"
proof -
  obtain s1 s2 where s: "lock_procs s = Inr s1" "wait_loop n sw s1 i NO_PID = Inr (r, s2)" "s' = unlock_procs s2"
    using assms(3) by (auto simp: Process_Wait_def res_simps)
  note lock_procs_sound [OF s(1)] also note wait_loop_sound [OF assms(1,2) s(2)] also note unlock_sound(1)
  finally show ?thesis unfolding s(3) .
qed

lemma adopt_kids_sound: "proc_ref k \<Longrightarrow> adopt_kids n s k = Inr s' \<Longrightarrow> sound s s'"
proof (induction n s k rule: adopt_kids.induct)
  case (3 n s kid)
  let ?s1 = "upd_proc kid (\<lambda>p. p\<lparr>p_parent := Process_primordial s\<rparr>) s"
  have k: "kid < KERNEL_MAX_PROCS" using "3.prems"(1) by simp
  have "sound s ?s1" by (rule upd_proc_sound [OF k]) (use k in \<open>auto simp: proc_typed_def kernel_typed_def\<close>)
  then show ?case
  proof (rule sound_then)
    assume t: "kernel_typed ?s1"
    have "proc_ref (p_sibling (proc_at ?s1 kid))" using typed_proc [OF t k] unfolding proc_typed_def by blast
    then show "sound ?s1 s'" using "3.IH" [OF refl] "3.prems"(2) by (simp add: Let_def)
  qed
qed simp_all

lemma Process_Terminate_sound [sound]:
  assumes "i < KERNEL_MAX_PROCS" "Process_Terminate s i st = Inr s'"
  shows "sound s s'"
proof -
  obtain s1 s2 s3 where s: "adopt_kids (KERNEL_MAX_PROCS + 1) s (p_child (proc_at s i)) = Inr s1"
      "Paging_Terminate s1 (kc_cr3 (task_contexts s1 i)) = Inr s2"
      "Page_Release s2 (stack_base (p_kernel_stack (proc_at s2 i))) STACK_ORDER = Inr s3"
      "s' = upd_proc i (\<lambda>p. p\<lparr>p_exit_code := st, p_status := PROCESS_DEAD\<rparr>) s3"
    using assms(2) by (auto simp: Process_Terminate_def res_simps simp del: adopt_kids.simps)
  have "sound s s1"
    by (rule sound_typed, rule adopt_kids_sound [OF _ s(1)]) (use typed_proc [OF _ assms(1)] in \<open>simp add: proc_typed_def\<close>)
  also note sound_kept [OF Paging_Terminate_kept [OF s(2)]] also note sound_kept [OF Page_Release_kept [OF s(3)]]
  also have "sound s3 s'" unfolding s(4) by (rule upd_links_sound [OF assms(1)]) simp
  finally show ?thesis .
qed

section \<open>Sleep locks\<close>

lemma sleep_acquire_loop_sound:
  "i < KERNEL_MAX_PROCS \<Longrightarrow> (\<And>k p a b. others k p a = Inr b \<Longrightarrow> sound a b) \<Longrightarrow> (\<And>a b. sw a = Inr b \<Longrightarrow> sound a b)
    \<Longrightarrow> sleep_acquire_loop n others sw s i l = Inr s' \<Longrightarrow> sound s s'"
proof (induction n arbitrary: s)
  case (Suc n)
  show ?case
  proof (cases "locked (sleep_locks s l)")
    case True
    then obtain s1 s2 s3 s4 s5 where s: "others n False (unlock_access l s) = Inr s1" "lock_procs s1 = Inr s2"
        "Process_SleepOn sw s2 i l = Inr s3" "others n True (unlock_procs s3) = Inr s4" "lock_access l s4 = Inr s5"
        "sleep_acquire_loop n others sw s5 i l = Inr s'"
      using Suc.prems(4) by (auto simp: res_simps)
    have "sound s (unlock_access l s)" by (rule unlock_sound(2))
    also note Suc.prems(2) [OF s(1)] also note lock_procs_sound [OF s(2)] also note Process_SleepOn_sound [OF Suc.prems(1,3) s(3)]
    also have "sound s3 (unlock_procs s3)" by (rule unlock_sound(1))
    also note Suc.prems(2) [OF s(4)] also note lock_access_sound [OF s(5)]
    also have "sound s5 s'" by (rule Suc.IH [OF Suc.prems(1-3) s(6)])
    finally show ?thesis .
  qed (use Suc.prems(4) in simp)
qed (auto split: if_splits)

lemma SleepLock_Acquire_sound [sound]:
  assumes "\<And>k p a b. others k p a = Inr b \<Longrightarrow> sound a b" "\<And>a b. sw a = Inr b \<Longrightarrow> sound a b" "SleepLock_Acquire n others sw s l = Inr s'"
  shows "sound s s'"
proof (cases "current_process s")
  case None
  then show ?thesis using assms(3) by (simp add: SleepLock_Acquire_def current_process_def)
next
  case (Some i)
  then obtain s1 s2 where s: "lock_access l s = Inr s1" "sleep_acquire_loop n others sw s1 i l = Inr s2"
      "s' = unlock_access l (upd_sleep l (\<lambda>k. k\<lparr>locked := True\<rparr>) s2)"
    using assms(3) by (auto simp: SleepLock_Acquire_def current_process_def res_simps simp del: sleep_acquire_loop.simps)
  show ?thesis
  proof (rule sound_typed)
    assume "kernel_typed s"
    then have i: "i < KERNEL_MAX_PROCS" using Some by (simp add: kernel_typed_def)
    note lock_access_sound [OF s(1)] also note sleep_acquire_loop_sound [OF i assms(1,2) s(2)]
    also have "sound s2 (upd_sleep l (\<lambda>k. k\<lparr>locked := True\<rparr>) s2)" by (rule other_sound(1)) also note unlock_sound(2)
    finally show "sound s s'" unfolding s(3) .
  qed
qed

lemma SleepLock_Release_sound [sound]:
  assumes "SleepLock_Release s l = Inr s'"
  shows "sound s s'"
proof -
  obtain s1 s2 where s: "lock_access l s = Inr s1" "lock_procs (upd_sleep l (\<lambda>k. k\<lparr>locked := False\<rparr>) s1) = Inr s2"
      "s' = unlock_access l (unlock_procs (Scheduler_RaiseAlarm s2 l))"
    using assms by (auto simp: SleepLock_Release_def res_simps)
  note lock_access_sound [OF s(1)] also have "sound s1 (upd_sleep l (\<lambda>k. k\<lparr>locked := False\<rparr>) s1)" by (rule other_sound(1))
  also note lock_procs_sound [OF s(2)] also note RaiseAlarm_sound [of s2 l] also note unlock_sound(1) also note unlock_sound(2)
  finally show ?thesis unfolding s(3) .
qed

section \<open>Runs\<close>

text \<open>
  A run of the kernel: the operations in any order, on any processor (\<open>on_cpu\<close> continues with the words of another processor, whose
  current process is a slot). The loop of the scheduler starts at the first slot and takes its next slot from the turn before. What
  happens while a process is switched out, and what other processors do while an operation holds no lock, is a run as well.
\<close>

inductive kernel_run :: "kernel \<Rightarrow> kernel \<Rightarrow> bool" where
  idle: "kernel_run s s"
| steps: "kernel_run s s1 \<Longrightarrow> kernel_run s1 s2 \<Longrightarrow> kernel_run s s2"
| on_cpu: "proc_ref (process (state_current c)) \<Longrightarrow> kernel_run s (s\<lparr>cpu := c\<rparr>)"
| initialize: "kernel_run s (Scheduler_Initialize s)"
| schedule: "(\<And>k i a b. sw k i a = Inr b \<Longrightarrow> kernel_run a b) \<Longrightarrow> (\<And>k a b. others k a = Inr b \<Longrightarrow> kernel_run a b)
    \<Longrightarrow> Schedule n sw others s = Inr (s', j) \<Longrightarrow> kernel_run s s'"
| book: "Scheduler_Book s = Inr (i, s') \<Longrightarrow> kernel_run s s'"
| alarm: "kernel_run s (Scheduler_RaiseAlarm s a)"
| create: "i < KERNEL_MAX_PROCS \<Longrightarrow> Process_Initialize s i = Inr (b, s') \<Longrightarrow> kernel_run s s'"
| sleep: "(\<And>a b. sw a = Inr b \<Longrightarrow> kernel_run a b) \<Longrightarrow> i < KERNEL_MAX_PROCS \<Longrightarrow> Process_SleepOn sw s i l = Inr s' \<Longrightarrow> kernel_run s s'"
| preempt: "(\<And>a b. sw a = Inr b \<Longrightarrow> kernel_run a b) \<Longrightarrow> Process_Preempt sw s = Inr s' \<Longrightarrow> kernel_run s s'"
| fork: "i < KERNEL_MAX_PROCS \<Longrightarrow> Process_Fork s i = Inr (r, s') \<Longrightarrow> kernel_run s s'"
| shift: "i < KERNEL_MAX_PROCS \<Longrightarrow> Process_ShiftEndPoint s i d = Inr s' \<Longrightarrow> kernel_run s s'"
| wait: "(\<And>a b. sw a = Inr b \<Longrightarrow> kernel_run a b) \<Longrightarrow> i < KERNEL_MAX_PROCS \<Longrightarrow> Process_Wait n sw s i = Inr (r, s') \<Longrightarrow> kernel_run s s'"
| terminate: "i < KERNEL_MAX_PROCS \<Longrightarrow> Process_Terminate s i st = Inr s' \<Longrightarrow> kernel_run s s'"
| lock: "(\<And>k p a b. others k p a = Inr b \<Longrightarrow> kernel_run a b) \<Longrightarrow> (\<And>a b. sw a = Inr b \<Longrightarrow> kernel_run a b)
    \<Longrightarrow> SleepLock_Acquire n others sw s l = Inr s' \<Longrightarrow> kernel_run s s'"
| unlock: "SleepLock_Release s l = Inr s' \<Longrightarrow> kernel_run s s'"
| lock_init: "kernel_run s (SleepLock_Initialize s l)"

lemma on_cpu_sound: "proc_ref (process (state_current c)) \<Longrightarrow> sound s (s\<lparr>cpu := c\<rparr>)"
  by (simp add: sound_def kernel_typed_def in_table_def current_process_def proc_at_def)

lemma SleepLock_Initialize_sound: "sound s (SleepLock_Initialize s l)"
  unfolding SleepLock_Initialize_def by (rule other_sound(1))

lemma kernel_run_sound: "kernel_run s s' \<Longrightarrow> sound s s'"
proof (induction rule: kernel_run.induct)
  case (steps s s1 s2)
  then show ?case by (blast intro: sound_trans)
next
  case (schedule sw others n s s' j)
  show ?case by (rule Schedule_sound [OF _ _ schedule.hyps(3)]) (use schedule.IH in blast)+
next
  case (sleep sw i s l s')
  show ?case by (rule Process_SleepOn_sound [OF sleep.hyps(2) _ sleep.hyps(3)]) (use sleep.IH in blast)
next
  case (preempt sw s s')
  show ?case by (rule Process_Preempt_sound [OF _ preempt.hyps(2)]) (use preempt.IH in blast)
next
  case (wait sw i n s r s')
  show ?case by (rule Process_Wait_sound [OF wait.hyps(2) _ wait.hyps(3)]) (use wait.IH in blast)
next
  case (lock others sw n s l s')
  show ?case by (rule SleepLock_Acquire_sound [OF _ _ lock.hyps(3)]) (use lock.IH in blast)+
qed (auto intro: on_cpu_sound Scheduler_Initialize_sound RaiseAlarm_sound Process_Initialize_sound Process_Fork_sound ShiftEndPoint_sound
    Process_Terminate_sound SleepLock_Release_sound SleepLock_Initialize_sound Scheduler_Book_sound(2))

section \<open>Properties\<close>

text \<open>
  C25. The process table is well typed and stays so. In every run of the operations of the scheduler, of the processes and
  of the sleep locks, in any order, on any processor and with any such run during each context switch and wherever the
  scheduler or a sleep lock holds no lock, every link to a parent, child or sibling, the process of every kernel stack,
  the first process and the current one remain slots of the table, and no operation writes to a slot past its end. The loop of the
  scheduler runs from the first slot for any number of turns.
\<close>

theorem process_table_typed:
  assumes "kernel_run s s'" "kernel_typed s"
  shows "kernel_typed s' \<and> in_table s s'"
  using kernel_run_sound [OF assms(1)] assms(2) by (simp add: sound_def)

lemma boot_kernel_typed: "kernel_typed boot_kernel"
  by (simp add: kernel_typed_def proc_typed_def boot_kernel_def proc_at_def physmem.defs current_process_def no_pages_def)

text \<open>A process is booked on a fresh table and the timer's alarm is raised.\<close>

theorem process_table_typed_witness:
  "\<exists>i s'. Scheduler_Book (Scheduler_Initialize boot_kernel) = Inr (i, s') \<and>
     kernel_typed (Scheduler_RaiseAlarm s' 7) \<and> in_table boot_kernel (Scheduler_RaiseAlarm s' 7)"
proof -
  obtain i s' where b: "Scheduler_Book (Scheduler_Initialize boot_kernel) = Inr (i, s')"
    using Scheduler_Book_initialized by blast
  have "kernel_run boot_kernel (Scheduler_RaiseAlarm s' 7)"
    by (rule kernel_run.steps [OF kernel_run.steps [OF kernel_run.initialize kernel_run.book [OF b]] kernel_run.alarm])
  from process_table_typed [OF this boot_kernel_typed] show ?thesis using b by blast
qed

end
