(* ===== verification/AVOS_Layout.thy ===== *)
theory AVOS_Layout
  imports AVOS_Multiboot_Correct AVOS_Initialize
begin

text \<open>
  The layout of the structures that both programs share. The Multiboot record, the headers of a kernel file and the structures of
  ELF are declared twice, in \<open>multiboot.h\<close> and \<open>elf.h\<close> of the boot loader and again in those of the kernel; both declarations are
  given here member by member, with the offsets a C compiler for the 32-bit x86 gives them. The lemmas say that the two agree, that
  no structure without the attribute \<open>packed\<close> would get padding, and that the offsets and sizes written as numbers elsewhere in
  this development are those of the declarations.
\<close>

section \<open>Members\<close>

text \<open>
  A member is an integer, bytes in a row, a nested structure, an anonymous union of two anonymous structures, an array of
  elements of a size, or the flexible array at the end of a structure, with the size of its elements.
\<close>

datatype member =
    U8 string
  | U16 string
  | U32 string
  | S32 string
  | U64 string
  | Bytes string nat
  | Struct string "member list"
  | Union "member list" "member list"
  | Items string nat nat
  | Rest string nat

type_synonym layout = "member list"

fun sizeof :: "layout \<Rightarrow> nat" where
  "sizeof [] = 0"
| "sizeof (U8 n # fs) = 1 + sizeof fs"
| "sizeof (U16 n # fs) = 2 + sizeof fs"
| "sizeof (U32 n # fs) = 4 + sizeof fs"
| "sizeof (S32 n # fs) = 4 + sizeof fs"
| "sizeof (U64 n # fs) = 8 + sizeof fs"
| "sizeof (Bytes n k # fs) = k + sizeof fs"
| "sizeof (Struct n inner # fs) = sizeof inner + sizeof fs"
| "sizeof (Union a b # fs) = max (sizeof a) (sizeof b) + sizeof fs"
| "sizeof (Items n k sz # fs) = k * sz + sizeof fs"
| "sizeof (Rest n sz # fs) = sizeof fs"

text \<open>
  The members by path, with offset, size and the alignment the ABI asks for outside packed structures (that of 64-bit
  integers in structures is 4). The size of a flexible array is 0 here.
\<close>

fun members :: "nat \<Rightarrow> string list \<Rightarrow> layout \<Rightarrow> (string list \<times> nat \<times> nat \<times> nat) list" where
  "members ofs path [] = []"
| "members ofs path (U8 n # fs) = (path @ [n], ofs, 1, 1) # members (ofs + 1) path fs"
| "members ofs path (U16 n # fs) = (path @ [n], ofs, 2, 2) # members (ofs + 2) path fs"
| "members ofs path (U32 n # fs) = (path @ [n], ofs, 4, 4) # members (ofs + 4) path fs"
| "members ofs path (S32 n # fs) = (path @ [n], ofs, 4, 4) # members (ofs + 4) path fs"
| "members ofs path (U64 n # fs) = (path @ [n], ofs, 8, 4) # members (ofs + 8) path fs"
| "members ofs path (Bytes n k # fs) = (path @ [n], ofs, k, 1) # members (ofs + k) path fs"
| "members ofs path (Struct n inner # fs) = members ofs (path @ [n]) inner @ members (ofs + sizeof inner) path fs"
| "members ofs path (Union a b # fs) = members ofs path a @ members ofs path b @ members (ofs + max (sizeof a) (sizeof b)) path fs"
| "members ofs path (Items n k sz # fs) = (path @ [n], ofs, k * sz, 1) # members (ofs + k * sz) path fs"
| "members ofs path (Rest n sz # fs) = (path @ [n], ofs, 0, 1) # members ofs path fs"

definition offset_of :: "layout \<Rightarrow> string list \<Rightarrow> nat option" where
  "offset_of l path = map_option fst (map_of (members 0 [] l) path)"

text \<open>The value of an integer member of the structure at \<open>p\<close>.\<close>

definition value_at :: "memory \<Rightarrow> u32 \<Rightarrow> layout \<Rightarrow> string list \<Rightarrow> nat option" where
  "value_at m p l path =
     (case map_of (members 0 [] l) path of
        None \<Rightarrow> None
      | Some (ofs, sz, _) \<Rightarrow>
          (let a = p + of_nat ofs
           in if sz = 1 then Some (unat (m a)) else if sz = 2 then Some (unat (load16 m a))
              else if sz = 4 then Some (unat (load32 m a)) else if sz = 8 then Some (unat (load64 m a)) else None))"

text \<open>No padding is needed: every member and the end of the structure are aligned as they are.\<close>

definition naturally_packed :: "layout \<Rightarrow> bool" where
  "naturally_packed l \<longleftrightarrow>
     list_all (\<lambda>(_, ofs, _, al). ofs mod al = 0 \<and> sizeof l mod al = 0) (members 0 [] l)"

section \<open>The kernel's declarations\<close>

subsection \<open>ELF\<close>

definition Kernel_Elf32_Ehdr :: layout where
  "Kernel_Elf32_Ehdr =
     [Bytes ''e_ident'' 16, U16 ''e_type'', U16 ''e_machine'', U32 ''e_version'', U32 ''e_entry'', U32 ''e_phoff'',
      U32 ''e_shoff'', U32 ''e_flags'', U16 ''e_ehsize'', U16 ''e_phentsize'', U16 ''e_phnum'', U16 ''e_shentsize'',
      U16 ''e_shnum'', U16 ''e_shstrndx'']"

definition Kernel_Elf32_Phdr :: layout where
  "Kernel_Elf32_Phdr =
     [U32 ''p_type'', U32 ''p_offset'', U32 ''p_vaddr'', U32 ''p_paddr'', U32 ''p_filesz'', U32 ''p_memsz'', U32 ''p_flags'',
      U32 ''p_align'']"

definition Kernel_Elf32_Shdr :: layout where
  "Kernel_Elf32_Shdr =
     [U32 ''sh_name'', U32 ''sh_type'', U32 ''sh_flags'', U32 ''sh_addr'', U32 ''sh_offset'', U32 ''sh_size'', U32 ''sh_link'',
      U32 ''sh_info'', U32 ''sh_addralign'', U32 ''sh_entsize'']"

definition Kernel_Elf32_Sym :: layout where
  "Kernel_Elf32_Sym =
     [U32 ''st_name'', U32 ''st_value'', U32 ''st_size'', U8 ''st_info'', U8 ''st_other'', U16 ''st_shndx'']"

definition Kernel_Elf32_Rel :: layout where
  "Kernel_Elf32_Rel =
     [U32 ''r_offset'', U32 ''r_info'']"

definition Kernel_Elf32_Rela :: layout where
  "Kernel_Elf32_Rela =
     [U32 ''r_offset'', U32 ''r_info'', S32 ''r_addend'']"

subsection \<open>The Multiboot record and header\<close>

definition Kernel_Multiboot_E820_Entry :: layout where
  "Kernel_Multiboot_E820_Entry =
     [U64 ''base'', U64 ''size'', U32 ''type'', U32 ''acpi3'']"

definition Kernel_Multiboot_RAMInfo_Entry :: layout where
  "Kernel_Multiboot_RAMInfo_Entry =
     [U64 ''address'', U64 ''size'']"

definition Kernel_Multiboot_RSDPv1 :: layout where
  "Kernel_Multiboot_RSDPv1 =
     [Bytes ''signature'' 8, U8 ''checksum'', Bytes ''oem_id'' 6, U8 ''revision'', U32 ''rsdt_address'']"

definition Kernel_Multiboot_RSDPv2 :: layout where
  "Kernel_Multiboot_RSDPv2 =
     [Bytes ''signature'' 8, U8 ''checksum'', Bytes ''oem_id'' 6, U8 ''revision'', U32 ''rsdt_address'', U32 ''length'',
      U64 ''xsdt_address'', U8 ''extended_checksum'', Bytes ''reserved'' 3]"

definition Kernel_Multiboot_SMBIOS_EntryPointTable :: layout where
  "Kernel_Multiboot_SMBIOS_EntryPointTable =
     [Bytes ''entry_point_string'' 4, U8 ''checksum'', U8 ''length'', U8 ''major_version'', U8 ''minor_version'',
      U16 ''max_structure_size'', U8 ''entry_point_revision'', Bytes ''formatted_area'' 5, Bytes ''entry_point_string2'' 2,
      U8 ''checksum2'', U16 ''table_length'', U32 ''table_address'', U16 ''number_of_structures'', U8 ''revision_BCD'']"

definition Kernel_Multiboot_APM_Interface :: layout where
  "Kernel_Multiboot_APM_Interface =
     [U16 ''version'', U16 ''cseg'', U32 ''offset'', U16 ''cseg_16'', U16 ''dseg'', U16 ''flags'', U16 ''cseg_len'',
      U16 ''cseg_16_len'', U16 ''dseg_len'']"

definition Kernel_Multiboot_Header_Magic_Fields :: layout where
  "Kernel_Multiboot_Header_Magic_Fields =
     [U32 ''magic'', U32 ''architecture'', U32 ''header_length'', U32 ''checksum'']"

definition Kernel_Multiboot_Header_Tag :: layout where
  "Kernel_Multiboot_Header_Tag =
     [U16 ''type'', U16 ''flags'', U32 ''size'']"

definition Kernel_Multiboot_Header_Tag_Information :: layout where
  "Kernel_Multiboot_Header_Tag_Information =
     [U16 ''type'', U16 ''flags'', U32 ''size'', Rest ''requests'' 4]"

definition Kernel_Multiboot_Header_Tag_Address :: layout where
  "Kernel_Multiboot_Header_Tag_Address =
     [U16 ''type'', U16 ''flags'', U32 ''size'', U32 ''header_addr'', U32 ''load_addr'', U32 ''load_end_addr'',
      U32 ''bss_end_addr'']"

definition Kernel_Multiboot_Header_Tag_Entry_Address :: layout where
  "Kernel_Multiboot_Header_Tag_Entry_Address =
     [U16 ''type'', U16 ''flags'', U32 ''size'', U32 ''entry_addr'']"

definition Kernel_Multiboot_Header_Tag_Console :: layout where
  "Kernel_Multiboot_Header_Tag_Console =
     [U16 ''type'', U16 ''flags'', U32 ''size'', U32 ''console_flags'']"

definition Kernel_Multiboot_Header_Tag_Framebuffer :: layout where
  "Kernel_Multiboot_Header_Tag_Framebuffer =
     [U16 ''type'', U16 ''flags'', U32 ''size'', U32 ''width'', U32 ''height'', U32 ''depth'']"

definition Kernel_Multiboot_Header_Tag_Relocatable :: layout where
  "Kernel_Multiboot_Header_Tag_Relocatable =
     [U16 ''type'', U16 ''flags'', U32 ''size'', U32 ''min_addr'', U32 ''max_addr'', U32 ''align'', U32 ''preference'']"

definition Kernel_Multiboot_Info_Start :: layout where
  "Kernel_Multiboot_Info_Start =
     [U32 ''total_size'', U32 ''reserved'']"

definition Kernel_Multiboot_Info_Tag :: layout where
  "Kernel_Multiboot_Info_Tag =
     [U32 ''type'', U32 ''size'']"

definition Kernel_Multiboot_Info_Name :: layout where
  "Kernel_Multiboot_Info_Name =
     [U32 ''type'', U32 ''size'', Rest ''string'' 1]"

definition Kernel_Multiboot_Info_Command :: layout where
  "Kernel_Multiboot_Info_Command =
     [U32 ''type'', U32 ''size'', Rest ''string'' 1]"

definition Kernel_Multiboot_Info_Modules :: layout where
  "Kernel_Multiboot_Info_Modules =
     [U32 ''type'', U32 ''size'', U32 ''mod_start'', U32 ''mod_end'', Rest ''string'' 1]"

definition Kernel_Multiboot_Info_Memory_Basic :: layout where
  "Kernel_Multiboot_Info_Memory_Basic =
     [U32 ''type'', U32 ''size'', U32 ''mem_lower'', U32 ''mem_upper'']"

definition Kernel_Multiboot_Info_Memory_E820 :: layout where
  "Kernel_Multiboot_Info_Memory_E820 =
     [U32 ''type'', U32 ''size'', U32 ''entry_size'', U32 ''entry_version'', Rest ''entries'' (sizeof Kernel_Multiboot_E820_Entry)]"

definition Kernel_Multiboot_Info_VBE :: layout where
  "Kernel_Multiboot_Info_VBE =
     [U32 ''type'', U32 ''size'', U16 ''vbe_mode'', U16 ''vbe_interface_seg'', U16 ''vbe_interface_off'',
      U16 ''vbe_interface_len'', Bytes ''vbe_control_info'' 512, Bytes ''vbe_mode_info'' 256]"

definition Kernel_Multiboot_Info_Framebuffer_Common :: layout where
  "Kernel_Multiboot_Info_Framebuffer_Common =
     [U32 ''type'', U32 ''size'', U64 ''framebuffer_addr'', U32 ''framebuffer_pitch'', U32 ''framebuffer_width'',
      U32 ''framebuffer_height'', U8 ''framebuffer_bpp'', U8 ''framebuffer_type'', U16 ''reserved'']"

definition Kernel_Multiboot_Info_Color :: layout where
  "Kernel_Multiboot_Info_Color =
     [U8 ''red'', U8 ''green'', U8 ''blue'']"

definition Kernel_Multiboot_Info_Framebuffer :: layout where
  "Kernel_Multiboot_Info_Framebuffer =
     [U32 ''type'', U32 ''size'', U64 ''framebuffer_addr'', U32 ''framebuffer_pitch'', U32 ''framebuffer_width'',
      U32 ''framebuffer_height'', U8 ''framebuffer_bpp'', U8 ''framebuffer_type'', U16 ''reserved'',
      Union [U16 ''framebuffer_palette_num_colors'', Rest ''framebuffer_palette'' (sizeof Kernel_Multiboot_Info_Color)]
        [U8 ''framebuffer_red_field_position'', U8 ''framebuffer_red_mask_size'', U8 ''framebuffer_green_field_position'',
         U8 ''framebuffer_green_mask_size'', U8 ''framebuffer_blue_field_position'',
         U8 ''framebuffer_blue_mask_size'', U16 ''framebuffer_padding'']]"

definition Kernel_Multiboot_Info_ELF_Sections :: layout where
  "Kernel_Multiboot_Info_ELF_Sections =
     [U32 ''type'', U32 ''size'', U16 ''num'', U16 ''entsize'', U16 ''shndx'', U16 ''reserved'',
      Rest ''sections'' (sizeof Kernel_Elf32_Shdr)]"

definition Kernel_Multiboot_Info_APM :: layout where
  "Kernel_Multiboot_Info_APM =
     [U32 ''type'', U32 ''size'', Struct ''apm_interface'' Kernel_Multiboot_APM_Interface, U16 ''reserved1'', U16 ''reserved2'']"

definition Kernel_Multiboot_Info_SMBIOS :: layout where
  "Kernel_Multiboot_Info_SMBIOS =
     [U32 ''type'', U32 ''size'', U8 ''major'', U8 ''minor'', Bytes ''reserved'' 6, Rest ''tables'' 1]"

definition Kernel_Multiboot_Info_ACPIv1 :: layout where
  "Kernel_Multiboot_Info_ACPIv1 =
     [U32 ''type'', U32 ''size'', Struct ''rsdp'' Kernel_Multiboot_RSDPv1, U32 ''reserved'']"

definition Kernel_Multiboot_Info_ACPIv2 :: layout where
  "Kernel_Multiboot_Info_ACPIv2 =
     [U32 ''type'', U32 ''size'', Struct ''rsdp'' Kernel_Multiboot_RSDPv2, U32 ''reserved'']"

definition Kernel_Multiboot_Info_LoadBaseAddress :: layout where
  "Kernel_Multiboot_Info_LoadBaseAddress =
     [U32 ''type'', U32 ''size'', U32 ''load_base_addr'', U32 ''reserved'']"

definition Kernel_Multiboot_Info_BootDevice :: layout where
  "Kernel_Multiboot_Info_BootDevice =
     [U32 ''type'', U32 ''size'', U32 ''biosdev'', U32 ''partition'', U32 ''sub_partition'', U32 ''reserved'']"

section \<open>The loader's declarations\<close>

subsection \<open>ELF\<close>

definition Loader_Elf32_Ehdr :: layout where
  "Loader_Elf32_Ehdr =
     [Bytes ''e_ident'' 16, U16 ''e_type'', U16 ''e_machine'', U32 ''e_version'', U32 ''e_entry'', U32 ''e_phoff'',
      U32 ''e_shoff'', U32 ''e_flags'', U16 ''e_ehsize'', U16 ''e_phentsize'', U16 ''e_phnum'', U16 ''e_shentsize'',
      U16 ''e_shnum'', U16 ''e_shstrndx'']"

definition Loader_Elf32_Phdr :: layout where
  "Loader_Elf32_Phdr =
     [U32 ''p_type'', U32 ''p_offset'', U32 ''p_vaddr'', U32 ''p_paddr'', U32 ''p_filesz'', U32 ''p_memsz'', U32 ''p_flags'',
      U32 ''p_align'']"

definition Loader_Elf32_Shdr :: layout where
  "Loader_Elf32_Shdr =
     [U32 ''sh_name'', U32 ''sh_type'', U32 ''sh_flags'', U32 ''sh_addr'', U32 ''sh_offset'', U32 ''sh_size'', U32 ''sh_link'',
      U32 ''sh_info'', U32 ''sh_addralign'', U32 ''sh_entsize'']"

subsection \<open>The Multiboot record and header\<close>

definition Loader_Multiboot_E820_Entry :: layout where
  "Loader_Multiboot_E820_Entry =
     [U64 ''base'', U64 ''size'', U32 ''type'', U32 ''acpi3'']"

definition Loader_Multiboot_RSDPv1 :: layout where
  "Loader_Multiboot_RSDPv1 =
     [Bytes ''signature'' 8, U8 ''checksum'', Bytes ''oem_id'' 6, U8 ''revision'', U32 ''rsdt_address'']"

definition Loader_Multiboot_RSDPv2 :: layout where
  "Loader_Multiboot_RSDPv2 =
     [Bytes ''signature'' 8, U8 ''checksum'', Bytes ''oem_id'' 6, U8 ''revision'', U32 ''rsdt_address'', U32 ''length'',
      U64 ''xsdt_address'', U8 ''extended_checksum'', Bytes ''reserved'' 3]"

definition Loader_Multiboot_SMBIOS_EntryPointTable :: layout where
  "Loader_Multiboot_SMBIOS_EntryPointTable =
     [Bytes ''entry_point_string'' 4, U8 ''checksum'', U8 ''length'', U8 ''major_version'', U8 ''minor_version'',
      U16 ''max_structure_size'', U8 ''entry_point_revision'', Bytes ''formatted_area'' 5, Bytes ''entry_point_string2'' 2,
      U8 ''checksum2'', U16 ''table_length'', U32 ''table_address'', U16 ''number_of_structures'', U8 ''revision_BCD'']"

definition Loader_Multiboot_APM_Interface :: layout where
  "Loader_Multiboot_APM_Interface =
     [U16 ''version'', U16 ''cseg'', U32 ''offset'', U16 ''cseg_16'', U16 ''dseg'', U16 ''flags'', U16 ''cseg_len'',
      U16 ''cseg_16_len'', U16 ''dseg_len'']"

definition Loader_Multiboot_Header_Magic_Fields :: layout where
  "Loader_Multiboot_Header_Magic_Fields =
     [U32 ''magic'', U32 ''architecture'', U32 ''header_length'', U32 ''checksum'']"

definition Loader_Multiboot_Header_Tag :: layout where
  "Loader_Multiboot_Header_Tag =
     [U16 ''type'', U16 ''flags'', U32 ''size'']"

definition Loader_Multiboot_Header_Tag_Information :: layout where
  "Loader_Multiboot_Header_Tag_Information =
     [U16 ''type'', U16 ''flags'', U32 ''size'', Rest ''requests'' 4]"

definition Loader_Multiboot_Header_Tag_Address :: layout where
  "Loader_Multiboot_Header_Tag_Address =
     [U16 ''type'', U16 ''flags'', U32 ''size'', U32 ''header_addr'', U32 ''load_addr'', U32 ''load_end_addr'',
      U32 ''bss_end_addr'']"

definition Loader_Multiboot_Header_Tag_Entry_Address :: layout where
  "Loader_Multiboot_Header_Tag_Entry_Address =
     [U16 ''type'', U16 ''flags'', U32 ''size'', U32 ''entry_addr'']"

definition Loader_Multiboot_Header_Tag_Console :: layout where
  "Loader_Multiboot_Header_Tag_Console =
     [U16 ''type'', U16 ''flags'', U32 ''size'', U32 ''console_flags'']"

definition Loader_Multiboot_Header_Tag_Framebuffer :: layout where
  "Loader_Multiboot_Header_Tag_Framebuffer =
     [U16 ''type'', U16 ''flags'', U32 ''size'', U32 ''width'', U32 ''height'', U32 ''depth'']"

definition Loader_Multiboot_Header_Tag_Relocatable :: layout where
  "Loader_Multiboot_Header_Tag_Relocatable =
     [U16 ''type'', U16 ''flags'', U32 ''size'', U32 ''min_addr'', U32 ''max_addr'', U32 ''align'', U32 ''preference'']"

definition Loader_Multiboot_Info_Start :: layout where
  "Loader_Multiboot_Info_Start =
     [U32 ''total_size'', U32 ''reserved'']"

definition Loader_Multiboot_Info_Tag :: layout where
  "Loader_Multiboot_Info_Tag =
     [U32 ''type'', U32 ''size'']"

definition Loader_Multiboot_Info_Name :: layout where
  "Loader_Multiboot_Info_Name =
     [U32 ''type'', U32 ''size'', Rest ''string'' 1]"

definition Loader_Multiboot_Info_Command :: layout where
  "Loader_Multiboot_Info_Command =
     [U32 ''type'', U32 ''size'', Rest ''string'' 1]"

definition Loader_Multiboot_Info_Modules :: layout where
  "Loader_Multiboot_Info_Modules =
     [U32 ''type'', U32 ''size'', U32 ''mod_start'', U32 ''mod_end'', Rest ''string'' 1]"

definition Loader_Multiboot_Info_Memory_Basic :: layout where
  "Loader_Multiboot_Info_Memory_Basic =
     [U32 ''type'', U32 ''size'', U32 ''mem_lower'', U32 ''mem_upper'']"

definition Loader_Multiboot_Info_Memory_E820 :: layout where
  "Loader_Multiboot_Info_Memory_E820 =
     [U32 ''type'', U32 ''size'', U32 ''entry_size'', U32 ''entry_version'', Rest ''entries'' (sizeof Loader_Multiboot_E820_Entry)]"

definition Loader_Multiboot_Info_VBE :: layout where
  "Loader_Multiboot_Info_VBE =
     [U32 ''type'', U32 ''size'', U16 ''vbe_mode'', U16 ''vbe_interface_seg'', U16 ''vbe_interface_off'',
      U16 ''vbe_interface_len'', Bytes ''vbe_control_info'' 512, Bytes ''vbe_mode_info'' 256]"

definition Loader_Multiboot_Info_Framebuffer_Common :: layout where
  "Loader_Multiboot_Info_Framebuffer_Common =
     [U32 ''type'', U32 ''size'', U64 ''framebuffer_addr'', U32 ''framebuffer_pitch'', U32 ''framebuffer_width'',
      U32 ''framebuffer_height'', U8 ''framebuffer_bpp'', U8 ''framebuffer_type'', U16 ''reserved'']"

definition Loader_Multiboot_Info_Color :: layout where
  "Loader_Multiboot_Info_Color =
     [U8 ''red'', U8 ''green'', U8 ''blue'']"

definition Loader_Multiboot_Info_Framebuffer :: layout where
  "Loader_Multiboot_Info_Framebuffer =
     [U32 ''type'', U32 ''size'', U64 ''framebuffer_addr'', U32 ''framebuffer_pitch'', U32 ''framebuffer_width'',
      U32 ''framebuffer_height'', U8 ''framebuffer_bpp'', U8 ''framebuffer_type'', U16 ''reserved'',
      Union [U16 ''framebuffer_palette_num_colors'', Rest ''framebuffer_palette'' (sizeof Loader_Multiboot_Info_Color)]
        [U8 ''framebuffer_red_field_position'', U8 ''framebuffer_red_mask_size'', U8 ''framebuffer_green_field_position'',
         U8 ''framebuffer_green_mask_size'', U8 ''framebuffer_blue_field_position'',
         U8 ''framebuffer_blue_mask_size'', U16 ''framebuffer_padding'']]"

definition Loader_Multiboot_Info_ELF_Sections :: layout where
  "Loader_Multiboot_Info_ELF_Sections =
     [U32 ''type'', U32 ''size'', U16 ''num'', U16 ''entsize'', U16 ''shndx'', U16 ''reserved'',
      Rest ''sections'' (sizeof Loader_Elf32_Shdr)]"

definition Loader_Multiboot_Info_APM :: layout where
  "Loader_Multiboot_Info_APM =
     [U32 ''type'', U32 ''size'', Struct ''apm_interface'' Loader_Multiboot_APM_Interface, U16 ''reserved1'', U16 ''reserved2'']"

definition Loader_Multiboot_Info_SMBIOS :: layout where
  "Loader_Multiboot_Info_SMBIOS =
     [U32 ''type'', U32 ''size'', U8 ''major'', U8 ''minor'', Bytes ''reserved'' 6, Rest ''tables'' 1]"

definition Loader_Multiboot_Info_ACPIv1 :: layout where
  "Loader_Multiboot_Info_ACPIv1 =
     [U32 ''type'', U32 ''size'', Struct ''rsdp'' Loader_Multiboot_RSDPv1, U32 ''reserved'']"

definition Loader_Multiboot_Info_ACPIv2 :: layout where
  "Loader_Multiboot_Info_ACPIv2 =
     [U32 ''type'', U32 ''size'', Struct ''rsdp'' Loader_Multiboot_RSDPv2, U32 ''reserved'']"

definition Loader_Multiboot_Info_LoadBaseAddress :: layout where
  "Loader_Multiboot_Info_LoadBaseAddress =
     [U32 ''type'', U32 ''size'', U32 ''load_base_addr'', U32 ''reserved'']"

definition Loader_Multiboot_Info_BootDevice :: layout where
  "Loader_Multiboot_Info_BootDevice =
     [U32 ''type'', U32 ''size'', U32 ''biosdev'', U32 ''partition'', U32 ''sub_partition'', U32 ''reserved'']"

section \<open>The processor's structures\<close>

definition Layout_GDT_Entry :: layout where
  "Layout_GDT_Entry =
     [U16 ''limit_low'', U16 ''base_low'', U8 ''base_middle'', U8 ''access'', U8 ''limit_flags'', U8 ''base_high'']"

definition Layout_GDT_Descriptor :: layout where
  "Layout_GDT_Descriptor =
     [U16 ''limit'', U32 ''base'']"

definition Layout_TSS :: layout where
  "Layout_TSS =
     [U16 ''previous_task_link'', U16 ''reserved0'', U32 ''esp0'', U16 ''ss0'', U16 ''reserved1'', U32 ''esp1'', U16 ''ss1'',
      U16 ''reserved2'', U32 ''esp2'', U16 ''ss2'', U16 ''reserved3'', U32 ''cr3'', U32 ''eip'', U32 ''eflags'', U32 ''eax'',
      U32 ''ecx'', U32 ''edx'', U32 ''ebx'', U32 ''esp'', U32 ''ebp'', U32 ''esi'', U32 ''edi'', U16 ''es'', U16 ''reserved4'',
      U16 ''cs'', U16 ''reserved5'', U16 ''ss'', U16 ''reserved6'', U16 ''ds'', U16 ''reserved7'', U16 ''fs'', U16 ''reserved8'',
      U16 ''gs'', U16 ''reserved9'', U16 ''ldt_seg_selector'', U16 ''reserved10'', U16 ''reserved11'', U16 ''iomap_base_address'']"

definition Layout_IDT_Entry :: layout where
  "Layout_IDT_Entry =
     [U16 ''addr_low'', U16 ''segment'', U8 ''zero'', U8 ''type_attr'', U16 ''addr_high'']"

definition Layout_IDT_Descriptor :: layout where
  "Layout_IDT_Descriptor =
     [U16 ''limit'', U32 ''base'']"

definition Layout_CPU :: layout where
  "Layout_CPU =
     [U32 ''apic_id'', U32 ''acpi_id'', Struct ''task_state'' Layout_TSS, Items ''gdt'' GDT_NENTRIES (sizeof Layout_GDT_Entry),
      Struct ''gdt_desc'' Layout_GDT_Descriptor, Items ''idt'' IDT_NENTRIES (sizeof Layout_IDT_Entry),
      Struct ''idt_desc'' Layout_IDT_Descriptor]"

section \<open>Agreement\<close>

lemmas kernel_layouts = Kernel_Elf32_Ehdr_def Kernel_Elf32_Phdr_def Kernel_Elf32_Shdr_def Kernel_Multiboot_E820_Entry_def
  Kernel_Multiboot_RSDPv1_def Kernel_Multiboot_RSDPv2_def Kernel_Multiboot_SMBIOS_EntryPointTable_def
  Kernel_Multiboot_APM_Interface_def Kernel_Multiboot_Header_Magic_Fields_def Kernel_Multiboot_Header_Tag_def
  Kernel_Multiboot_Header_Tag_Information_def Kernel_Multiboot_Header_Tag_Address_def
  Kernel_Multiboot_Header_Tag_Entry_Address_def Kernel_Multiboot_Header_Tag_Console_def
  Kernel_Multiboot_Header_Tag_Framebuffer_def Kernel_Multiboot_Header_Tag_Relocatable_def Kernel_Multiboot_Info_Start_def
  Kernel_Multiboot_Info_Tag_def Kernel_Multiboot_Info_Name_def Kernel_Multiboot_Info_Command_def
  Kernel_Multiboot_Info_Modules_def Kernel_Multiboot_Info_Memory_Basic_def Kernel_Multiboot_Info_Memory_E820_def
  Kernel_Multiboot_Info_VBE_def Kernel_Multiboot_Info_Framebuffer_Common_def Kernel_Multiboot_Info_Color_def
  Kernel_Multiboot_Info_Framebuffer_def Kernel_Multiboot_Info_ELF_Sections_def Kernel_Multiboot_Info_APM_def
  Kernel_Multiboot_Info_SMBIOS_def Kernel_Multiboot_Info_ACPIv1_def Kernel_Multiboot_Info_ACPIv2_def
  Kernel_Multiboot_Info_LoadBaseAddress_def Kernel_Multiboot_Info_BootDevice_def Kernel_Multiboot_RAMInfo_Entry_def
  Kernel_Elf32_Sym_def Kernel_Elf32_Rel_def Kernel_Elf32_Rela_def

lemmas loader_layouts = Loader_Elf32_Ehdr_def Loader_Elf32_Phdr_def Loader_Elf32_Shdr_def Loader_Multiboot_E820_Entry_def
  Loader_Multiboot_RSDPv1_def Loader_Multiboot_RSDPv2_def Loader_Multiboot_SMBIOS_EntryPointTable_def
  Loader_Multiboot_APM_Interface_def Loader_Multiboot_Header_Magic_Fields_def Loader_Multiboot_Header_Tag_def
  Loader_Multiboot_Header_Tag_Information_def Loader_Multiboot_Header_Tag_Address_def
  Loader_Multiboot_Header_Tag_Entry_Address_def Loader_Multiboot_Header_Tag_Console_def
  Loader_Multiboot_Header_Tag_Framebuffer_def Loader_Multiboot_Header_Tag_Relocatable_def Loader_Multiboot_Info_Start_def
  Loader_Multiboot_Info_Tag_def Loader_Multiboot_Info_Name_def Loader_Multiboot_Info_Command_def
  Loader_Multiboot_Info_Modules_def Loader_Multiboot_Info_Memory_Basic_def Loader_Multiboot_Info_Memory_E820_def
  Loader_Multiboot_Info_VBE_def Loader_Multiboot_Info_Framebuffer_Common_def Loader_Multiboot_Info_Color_def
  Loader_Multiboot_Info_Framebuffer_def Loader_Multiboot_Info_ELF_Sections_def Loader_Multiboot_Info_APM_def
  Loader_Multiboot_Info_SMBIOS_def Loader_Multiboot_Info_ACPIv1_def Loader_Multiboot_Info_ACPIv2_def
  Loader_Multiboot_Info_LoadBaseAddress_def Loader_Multiboot_Info_BootDevice_def

lemmas processor_layouts = Layout_GDT_Entry_def Layout_GDT_Descriptor_def Layout_TSS_def Layout_IDT_Entry_def Layout_IDT_Descriptor_def
  Layout_CPU_def

text \<open>The two sets of headers declare the same structures.\<close>

definition loader_structures :: "layout list" where
  "loader_structures =
     [Loader_Elf32_Ehdr, Loader_Elf32_Phdr, Loader_Elf32_Shdr, Loader_Multiboot_E820_Entry, Loader_Multiboot_RSDPv1,
      Loader_Multiboot_RSDPv2, Loader_Multiboot_SMBIOS_EntryPointTable, Loader_Multiboot_APM_Interface,
      Loader_Multiboot_Header_Magic_Fields, Loader_Multiboot_Header_Tag, Loader_Multiboot_Header_Tag_Information,
      Loader_Multiboot_Header_Tag_Address, Loader_Multiboot_Header_Tag_Entry_Address, Loader_Multiboot_Header_Tag_Console,
      Loader_Multiboot_Header_Tag_Framebuffer, Loader_Multiboot_Header_Tag_Relocatable, Loader_Multiboot_Info_Start,
      Loader_Multiboot_Info_Tag, Loader_Multiboot_Info_Name, Loader_Multiboot_Info_Command, Loader_Multiboot_Info_Modules,
      Loader_Multiboot_Info_Memory_Basic, Loader_Multiboot_Info_Memory_E820, Loader_Multiboot_Info_VBE,
      Loader_Multiboot_Info_Framebuffer_Common, Loader_Multiboot_Info_Color, Loader_Multiboot_Info_Framebuffer,
      Loader_Multiboot_Info_ELF_Sections, Loader_Multiboot_Info_APM, Loader_Multiboot_Info_SMBIOS,
      Loader_Multiboot_Info_ACPIv1, Loader_Multiboot_Info_ACPIv2, Loader_Multiboot_Info_LoadBaseAddress,
      Loader_Multiboot_Info_BootDevice]"

definition kernel_structures :: "layout list" where
  "kernel_structures =
     [Kernel_Elf32_Ehdr, Kernel_Elf32_Phdr, Kernel_Elf32_Shdr, Kernel_Multiboot_E820_Entry, Kernel_Multiboot_RSDPv1,
      Kernel_Multiboot_RSDPv2, Kernel_Multiboot_SMBIOS_EntryPointTable, Kernel_Multiboot_APM_Interface,
      Kernel_Multiboot_Header_Magic_Fields, Kernel_Multiboot_Header_Tag, Kernel_Multiboot_Header_Tag_Information,
      Kernel_Multiboot_Header_Tag_Address, Kernel_Multiboot_Header_Tag_Entry_Address, Kernel_Multiboot_Header_Tag_Console,
      Kernel_Multiboot_Header_Tag_Framebuffer, Kernel_Multiboot_Header_Tag_Relocatable, Kernel_Multiboot_Info_Start,
      Kernel_Multiboot_Info_Tag, Kernel_Multiboot_Info_Name, Kernel_Multiboot_Info_Command, Kernel_Multiboot_Info_Modules,
      Kernel_Multiboot_Info_Memory_Basic, Kernel_Multiboot_Info_Memory_E820, Kernel_Multiboot_Info_VBE,
      Kernel_Multiboot_Info_Framebuffer_Common, Kernel_Multiboot_Info_Color, Kernel_Multiboot_Info_Framebuffer,
      Kernel_Multiboot_Info_ELF_Sections, Kernel_Multiboot_Info_APM, Kernel_Multiboot_Info_SMBIOS,
      Kernel_Multiboot_Info_ACPIv1, Kernel_Multiboot_Info_ACPIv2, Kernel_Multiboot_Info_LoadBaseAddress,
      Kernel_Multiboot_Info_BootDevice]"

lemma headers_agree: "loader_structures = kernel_structures"
  unfolding loader_structures_def kernel_structures_def loader_layouts kernel_layouts by (rule refl)

text \<open>The structures declared without the attribute \<open>packed\<close> get no padding.\<close>

lemma no_padding:
  "list_all naturally_packed [Kernel_Elf32_Ehdr, Kernel_Elf32_Phdr, Kernel_Elf32_Shdr, Kernel_Elf32_Sym, Kernel_Elf32_Rel,
     Kernel_Elf32_Rela, Loader_Elf32_Ehdr, Loader_Elf32_Phdr, Loader_Elf32_Shdr, Kernel_Multiboot_RAMInfo_Entry]"
  by code_simp

text \<open>
  The sizes that the loader stores in the tags it makes are those of the kernel's declarations, and the kernel reads the entries of
  a memory map with the size and offsets that they have in the loader.
\<close>

lemma tag_sizes:
  "map sizeof [Kernel_Multiboot_Info_Memory_Basic, Kernel_Multiboot_Info_VBE, Kernel_Multiboot_Info_Framebuffer,
     Kernel_Multiboot_Info_APM, Kernel_Multiboot_Info_ACPIv1, Kernel_Multiboot_Info_ACPIv2,
     Kernel_Multiboot_Info_LoadBaseAddress, Kernel_Multiboot_Info_BootDevice] = [16, 784, 40, 32, 32, 48, 16, 24]"
  by code_simp

lemma entry_sizes: "sizeof Kernel_Multiboot_E820_Entry = 24" "sizeof Kernel_Multiboot_RAMInfo_Entry = 16"
  by code_simp+

lemma ELF_sizes:
  "sizeof Kernel_Elf32_Ehdr = unat SIZEOF_EHDR" "sizeof Kernel_Elf32_Phdr = unat SIZEOF_PHDR" "sizeof Kernel_Elf32_Shdr = 40"
  by code_simp+

section \<open>The offsets of the model\<close>

named_theorems layout_simps

lemmas [layout_simps] = value_at_def kernel_layouts processor_layouts offset_of_def

lemma read_Ehdr_layout:
  "value_at m p Kernel_Elf32_Ehdr [''e_type''] = Some (unat (eh_type (read_Ehdr m p)))"
  "value_at m p Kernel_Elf32_Ehdr [''e_machine''] = Some (unat (e_machine (read_Ehdr m p)))"
  "value_at m p Kernel_Elf32_Ehdr [''e_version''] = Some (unat (e_version (read_Ehdr m p)))"
  "value_at m p Kernel_Elf32_Ehdr [''e_phoff''] = Some (unat (e_phoff (read_Ehdr m p)))"
  "value_at m p Kernel_Elf32_Ehdr [''e_shoff''] = Some (unat (e_shoff (read_Ehdr m p)))"
  "value_at m p Kernel_Elf32_Ehdr [''e_ehsize''] = Some (unat (e_ehsize (read_Ehdr m p)))"
  "value_at m p Kernel_Elf32_Ehdr [''e_phentsize''] = Some (unat (e_phentsize (read_Ehdr m p)))"
  "value_at m p Kernel_Elf32_Ehdr [''e_phnum''] = Some (unat (e_phnum (read_Ehdr m p)))"
  "value_at m p Kernel_Elf32_Ehdr [''e_shentsize''] = Some (unat (e_shentsize (read_Ehdr m p)))"
  "value_at m p Kernel_Elf32_Ehdr [''e_shnum''] = Some (unat (e_shnum (read_Ehdr m p)))"
  "value_at m p Kernel_Elf32_Ehdr [''e_shstrndx''] = Some (unat (e_shstrndx (read_Ehdr m p)))"
  by (simp_all add: layout_simps read_Ehdr_def)

lemma read_Phdr_layout:
  "value_at m (t + 32 * of_nat i) Kernel_Elf32_Phdr [''p_type''] = Some (unat (p_type (read_Phdr m t i)))"
  "value_at m (t + 32 * of_nat i) Kernel_Elf32_Phdr [''p_offset''] = Some (unat (p_offset (read_Phdr m t i)))"
  "value_at m (t + 32 * of_nat i) Kernel_Elf32_Phdr [''p_filesz''] = Some (unat (p_filesz (read_Phdr m t i)))"
  "value_at m (t + 32 * of_nat i) Kernel_Elf32_Phdr [''p_memsz''] = Some (unat (p_memsz (read_Phdr m t i)))"
  "value_at m (t + 32 * of_nat i) Kernel_Elf32_Phdr [''p_align''] = Some (unat (p_align (read_Phdr m t i)))"
  by (simp_all add: layout_simps read_Phdr_def Let_def)

lemma read_Shdr_layout:
  "value_at m (t + 40 * of_nat i) Kernel_Elf32_Shdr [''sh_type''] = Some (unat (sh_type (read_Shdr m t i)))"
  "value_at m (t + 40 * of_nat i) Kernel_Elf32_Shdr [''sh_offset''] = Some (unat (sh_offset (read_Shdr m t i)))"
  "value_at m (t + 40 * of_nat i) Kernel_Elf32_Shdr [''sh_size''] = Some (unat (sh_size (read_Shdr m t i)))"
  "value_at m (t + 40 * of_nat i) Kernel_Elf32_Shdr [''sh_addralign''] = Some (unat (sh_addralign (read_Shdr m t i)))"
  by (simp_all add: layout_simps read_Shdr_def Let_def)

lemma read_tag_layout:
  "value_at m p Kernel_Multiboot_Info_Tag [''type''] = Some (unat (tag_type (read_Info_Tag m p)))"
  "value_at m p Kernel_Multiboot_Info_Tag [''size''] = Some (unat (tag_size (read_Info_Tag m p)))"
  "value_at m p Kernel_Multiboot_Info_Start [''total_size''] = Some (unat (total_size (read_Info_Start m p)))"
  "value_at m p Kernel_Multiboot_Info_Start [''reserved''] = Some (unat (mi_reserved (read_Info_Start m p)))"
  by (simp_all add: layout_simps read_Info_Tag_def read_Info_Start_def)

text \<open>The kernel's walk over the record uses these offsets: the table found by \<open>find_mmap\<close> and the entries \<open>map_entries\<close> reads.\<close>

lemma memory_map_layout:
  "value_at m p Kernel_Multiboot_Info_Memory_E820 [''type''] = Some (unat (load32 m p))"
  "value_at m p Kernel_Multiboot_Info_Memory_E820 [''size''] = Some (unat (load32 m (p + 4)))"
  "value_at m p Kernel_Multiboot_Info_Memory_E820 [''entry_size''] = Some (unat (load32 m (p + 8)))"
  "offset_of Kernel_Multiboot_Info_Memory_E820 [''entries''] = Some 16"
  "value_at m p Kernel_Multiboot_RAMInfo_Entry [''address''] = Some (unat (load64 m p))"
  "value_at m p Kernel_Multiboot_RAMInfo_Entry [''size''] = Some (unat (load64 m (p + 8)))"
  by (simp_all add: layout_simps)

lemma E820_layout:
  "value_at m p Kernel_Multiboot_E820_Entry [''base''] = Some (unat (e_base (read_E820 m p)))"
  "value_at m p Kernel_Multiboot_E820_Entry [''size''] = Some (unat (e_size (read_E820 m p)))"
  "value_at m p Kernel_Multiboot_E820_Entry [''type''] = Some (unat (e_type (read_E820 m p)))"
  "value_at m p Kernel_Multiboot_E820_Entry [''acpi3''] = Some (unat (e_acpi3 (read_E820 m p)))"
  by (simp_all add: layout_simps read_E820_def)

text \<open>The ACPI pointer in its tag, as \<open>find_rsdp\<close> and \<open>read_RSDPv1\<close> read it.\<close>

lemma ACPI_layout:
  "offset_of Kernel_Multiboot_Info_ACPIv1 [''rsdp'', ''signature''] = Some 8"
  "value_at m p Kernel_Multiboot_RSDPv1 [''revision''] = Some (unat (rsdp_revision (read_RSDPv1 m p)))"
  "value_at m p Kernel_Multiboot_RSDPv1 [''rsdt_address''] = Some (unat (rsdt_address (read_RSDPv1 m p)))"
  by (simp_all add: layout_simps read_RSDPv1_def)

text \<open>The task state has the offsets the processor uses, and the tables of a processor lie where \<open>load_tables\<close> puts them.\<close>

lemma TSS_layout:
  "sizeof Layout_TSS = unat SIZEOF_TSS" "offset_of Layout_TSS [''esp0''] = Some 4" "offset_of Layout_TSS [''ss0''] = Some 8"
  "offset_of Layout_TSS [''cr3''] = Some 28" "offset_of Layout_TSS [''ldt_seg_selector''] = Some 96"
  "offset_of Layout_TSS [''iomap_base_address''] = Some 102"
  by (simp_all add: layout_simps SIZEOF_TSS_def)

lemma CPU_layout:
  "sizeof Layout_CPU = unat SIZEOF_CPU" "offset_of Layout_CPU [''task_state'', ''previous_task_link''] = Some 8"
  "offset_of Layout_CPU [''gdt''] = Some (8 + unat SIZEOF_TSS)" "offset_of Layout_CPU [''idt''] = Some (unat (8 + SIZEOF_TSS + 8 * 6 + 6))"
  by (simp_all add: layout_simps SIZEOF_TSS_def SIZEOF_CPU_def GDT_NENTRIES_def IDT_NENTRIES_def)

section \<open>Fields of symbols and relocations\<close>

text \<open>The macros of \<open>elf.h\<close> for packed fields; the cast to \<open>unsigned char\<close> keeps the low byte.\<close>

definition ELF32_ST_BIND :: "u32 \<Rightarrow> u32" where "ELF32_ST_BIND i = drop_bit 4 i"
definition ELF32_ST_TYPE :: "u32 \<Rightarrow> u32" where "ELF32_ST_TYPE i = i AND 0xF"
definition ELF32_ST_INFO :: "u32 \<Rightarrow> u32 \<Rightarrow> u32" where "ELF32_ST_INFO b t = push_bit 4 b + (t AND 0xF)"
definition ELF32_R_SYM :: "u32 \<Rightarrow> u32" where "ELF32_R_SYM i = drop_bit 8 i"
definition ELF32_R_TYPE :: "u32 \<Rightarrow> u8" where "ELF32_R_TYPE i = ucast i"
definition ELF32_R_INFO :: "u32 \<Rightarrow> u32 \<Rightarrow> u32" where "ELF32_R_INFO s t = push_bit 8 s + ucast (ucast t :: u8)"

lemma ST_INFO_or: "ELF32_ST_INFO b t = push_bit 4 b OR (t AND 0xF)"
  unfolding ELF32_ST_INFO_def
proof (rule disjunctive_add)
  fix n show "\<not> bit (push_bit 4 b) n \<or> \<not> bit (t AND 0xF) n"
    using bit_mask_iff [of 4 n, where 'a = "32 word"] by (auto simp: bit_simps mask_eq_exp_minus_1)
qed

lemma R_INFO_or: "ELF32_R_INFO s t = push_bit 8 s OR ucast (ucast t :: u8)"
  unfolding ELF32_R_INFO_def by (rule disjunctive_add) (auto simp: bit_simps)

text \<open>What is packed is read back, up to the bits that have no room.\<close>

lemma ST_INFO_roundtrip: "ELF32_ST_BIND (ELF32_ST_INFO b t) = take_bit 28 b" "ELF32_ST_TYPE (ELF32_ST_INFO b t) = t AND 0xF"
proof -
  have m: "(0xF :: u32) = mask 4" by (simp add: mask_eq_exp_minus_1)
  show "ELF32_ST_BIND (ELF32_ST_INFO b t) = take_bit 28 b"
    unfolding ST_INFO_or ELF32_ST_BIND_def m by (rule bit_word_eqI) (auto simp: bit_simps)
  show "ELF32_ST_TYPE (ELF32_ST_INFO b t) = t AND 0xF"
    unfolding ST_INFO_or ELF32_ST_TYPE_def m by (rule bit_word_eqI) (auto simp: bit_simps)
qed

lemma R_INFO_roundtrip: "ELF32_R_SYM (ELF32_R_INFO s t) = take_bit 24 s" "ELF32_R_TYPE (ELF32_R_INFO s t) = ucast t"
  unfolding R_INFO_or ELF32_R_SYM_def ELF32_R_TYPE_def by (rule bit_word_eqI; auto simp: bit_simps)+

end
