(* ===== verification/AVOS_Boot_Device.thy ===== *)
theory AVOS_Boot_Device
  imports AVOS_Layout
begin

text \<open>
  The boot device in the record: the loader counts partition table entries from the active one to the signature of the boot
  sector. What it saves is read here the way the kernel declares it.
\<close>

section \<open>Saving a tag\<close>

text \<open>A tag filled in where the terminating tag was, by a function that saves one piece of information.\<close>

lemma saved_tag:
  assumes wf: "mbi_wf m mbi ts" and new: "lookup_tag t (mbi + 8) ts = None" and e: "e = term_addr m mbi" "e \<noteq> MEMORY_NULL_PTR"
    and use: "use e = Some (terminated mbi e True c)" and same: "same_between m c 0 (unat e)"
    and tag: "read_Info_Tag c e = \<lparr>tag_type = t, tag_size = n\<rparr>" and n: "t \<noteq> 0" "8 \<le> unat n" "unat n mod 8 = 0" "unat e + unat n + 8 < 2 ^ 32"
  obtains m' where "new_tag mbi t m use = Some (True, m')" "mbi_wf m' mbi (ts @ [(t, n)])"
    "Multiboot_FindMBITagAddress m' mbi t = Some e" "same_between c m' (unat mbi + 8) (unat e + unat n)"
    "same_between m m' (unat mbi + 8) (unat e)"
proof
  let ?m = "snd (Multiboot_TerminateTag mbi e c)"
  note app = TerminateTag_appends [OF wf e(1) same_mono [OF same le0 order.refl] tag n]
  show "new_tag mbi t m use = Some (True, ?m)"
    using find_in_wf [OF wf n(1)] new wf e use by (simp add: new_tag_def terminated_def mbi_wf_def)
  show "mbi_wf ?m mbi (ts @ [(t, n)])" by (rule app(2))
  have "mbi + 8 + sum_list (map snd ts) = e" using wf e(1) chain_end [of m] by (simp add: mbi_wf_def)
  then show "Multiboot_FindMBITagAddress ?m mbi t = Some e"
    using find_in_wf [OF app(2) n(1)] new by (simp add: lookup_tag_append)
  show "same_between c ?m (unat mbi + 8) (unat e + unat n)" by (rule app(3))
  show "same_between m ?m (unat mbi + 8) (unat e)"
    by (rule same_trans [OF same_mono [OF same] same_mono [OF app(3)]]) simp_all
qed

section \<open>The partition\<close>

lemma find_partition_at:
  "load16 m (p + 16 * of_nat k) = 0xAA55 \<Longrightarrow> (\<And>j. j < k \<Longrightarrow> load16 m (p + 16 * of_nat j) \<noteq> 0xAA55) \<Longrightarrow> k \<le> n
    \<Longrightarrow> find_partition m n p = p + 16 * of_nat k"
proof (induction m n p arbitrary: k rule: find_partition.induct)
  case (2 m n p)
  show ?case
  proof (cases k)
    case (Suc k')
    have at: "p + 16 + 16 * of_nat j = p + 16 * of_nat (Suc j)" for j by (simp add: algebra_simps)
    have "find_partition m n (p + 16) = p + 16 + 16 * of_nat k'"
    proof (rule "2.IH")
      show "load16 m p \<noteq> 0xAA55" using "2.prems"(2) [of 0] Suc by simp
      show "load16 m (p + 16 + 16 * of_nat k') = 0xAA55" unfolding at using "2.prems"(1) Suc by simp
      show "load16 m (p + 16 + 16 * of_nat j) \<noteq> 0xAA55" if "j < k'" for j unfolding at using "2.prems"(2) Suc that by blast
      show "k' \<le> n" using "2.prems"(3) Suc by simp
    qed
    then show ?thesis using "2.prems"(2) [of 0] Suc at by simp
  qed (use "2.prems"(1) in simp)
qed simp

text \<open>From partition \<open>q\<close> of the table to the signature behind the table there are \<open>4 - q\<close> entries.\<close>

lemma partition_number:
  fixes table :: u32
  assumes "q < 4" "load16 m (table + 64) = 0xAA55" "\<And>j. q \<le> j \<Longrightarrow> j < 4 \<Longrightarrow> load16 m (table + 16 * of_nat j) \<noteq> 0xAA55"
  shows "find_partition m 5 (table + 16 * of_nat q) = table + 64"
    and "4 - ((table + 64) - (table + 16 * of_nat q)) div 16 = of_nat q"
proof -
  have at: "table + 16 * of_nat q + 16 * of_nat j = table + 16 * of_nat (q + j)" for j by (simp add: algebra_simps)
  have "find_partition m 5 (table + 16 * of_nat q) = table + 16 * of_nat q + 16 * of_nat (4 - q)"
  proof (rule find_partition_at)
    show "load16 m (table + 16 * of_nat q + 16 * of_nat (4 - q)) = 0xAA55" unfolding at using assms(1,2) by simp
    show "load16 m (table + 16 * of_nat q + 16 * of_nat j) \<noteq> 0xAA55" if "j < 4 - q" for j
      unfolding at by (rule assms(3)) (use that in simp_all)
  qed simp
  then show "find_partition m 5 (table + 16 * of_nat q) = table + 64" unfolding at using assms(1) by simp
  have "q \<in> {0, 1, 2, 3}" using assms(1) by auto
  then show "4 - ((table + 64) - (table + 16 * of_nat q)) div 16 = of_nat q" by auto
qed

text \<open>The tag as it is filled in.\<close>

definition boot_device_tag :: "u32 \<Rightarrow> u32 \<Rightarrow> u32 \<Rightarrow> memory \<Rightarrow> memory" where
  "boot_device_tag p drive part m =
     store32 (store32 (store32 (set_tag_size p 24 (set_tag_type p MULTIBOOT_TAG_TYPE_BOOTDEV m)) (p + 8) drive) (p + 12) part) (p + 16) 0xFFFFFFFF"

lemma boot_device_tag_content:
  assumes "unat p + 24 < 2 ^ 32"
  shows "same_between m (boot_device_tag p drive part m) 0 (unat p)"
    and "read_Info_Tag (boot_device_tag p drive part m) p = \<lparr>tag_type = MULTIBOOT_TAG_TYPE_BOOTDEV, tag_size = 24\<rparr>"
    and "load32 (boot_device_tag p drive part m) (p + 8) = drive" "load32 (boot_device_tag p drive part m) (p + 12) = part"
    and "load32 (boot_device_tag p drive part m) (p + 16) = 0xFFFFFFFF"
proof -
  let ?a = "set_tag_size p 24 (set_tag_type p MULTIBOOT_TAG_TYPE_BOOTDEV m)"
  let ?b = "store32 ?a (p + 8) drive" let ?c = "store32 ?b (p + 12) part" let ?d = "store32 ?c (p + 16) 0xFFFFFFFF"
  have u: "unat (p + 4) = unat p + 4" "unat (p + 8) = unat p + 8" "unat (p + 12) = unat p + 12" "unat (p + 16) = unat p + 16"
    using assms unat_u32_plus [of p 4] unat_u32_plus [of p 8] unat_u32_plus [of p 12] unat_u32_plus [of p 16] by simp_all
  have sa: "same_between m ?a 0 (unat p)"
    unfolding set_tag_size_def set_tag_type_def by (rule same_trans; rule same_store32) (use u assms in simp_all)
  have s: "same_between ?a ?b 0 (unat p + 8)" "same_between ?b ?c 0 (unat p + 12)" "same_between ?c ?d 0 (unat p + 16)"
    by (rule same_store32; use u assms in simp)+
  have bd: "same_between ?b ?d 0 (unat p + 12)" by (rule same_trans [OF s(2) same_mono [OF s(3)]]) simp_all
  have ad: "same_between ?a ?d 0 (unat p + 8)" by (rule same_trans [OF s(1) same_mono [OF bd]]) simp_all
  have eq: "boot_device_tag p drive part m = ?d" by (simp add: boot_device_tag_def)
  show "same_between m (boot_device_tag p drive part m) 0 (unat p)"
    unfolding eq by (rule same_trans [OF sa same_mono [OF ad]]) simp_all
  show "read_Info_Tag (boot_device_tag p drive part m) p = \<lparr>tag_type = MULTIBOOT_TAG_TYPE_BOOTDEV, tag_size = 24\<rparr>"
    unfolding eq using read_tag_same [OF ad, of p] read_written_tag [of p] assms by simp
  show "load32 (boot_device_tag p drive part m) (p + 8) = drive" unfolding eq using load32_same [OF bd, of "p + 8"] u assms by simp
  show "load32 (boot_device_tag p drive part m) (p + 12) = part" unfolding eq using load32_same [OF s(3), of "p + 12"] u assms by simp
  show "load32 (boot_device_tag p drive part m) (p + 16) = 0xFFFFFFFF" unfolding eq by simp
qed

lemma boot_device_layout:
  "value_at m p Kernel_Multiboot_Info_BootDevice [''type''] = Some (unat (tag_type (read_Info_Tag m p)))"
  "value_at m p Kernel_Multiboot_Info_BootDevice [''size''] = Some (unat (tag_size (read_Info_Tag m p)))"
  "value_at m p Kernel_Multiboot_Info_BootDevice [''biosdev''] = Some (unat (load32 m (p + 8)))"
  "value_at m p Kernel_Multiboot_Info_BootDevice [''partition''] = Some (unat (load32 m (p + 12)))"
  "value_at m p Kernel_Multiboot_Info_BootDevice [''sub_partition''] = Some (unat (load32 m (p + 16)))"
  by (simp_all add: layout_simps read_Info_Tag_def)

section \<open>Properties\<close>

text \<open>
  C39. The boot device is saved as the kernel declares it. When the loader was started from partition \<open>q\<close> of a table of four
  partitions, followed by the signature of the boot sector and with no entry from \<open>q\<close> on that begins like the signature,
  then on a well-formed record without a boot device and with room for it, \<open>Multiboot_SaveBootDeviceInfo\<close> returns true, the record
  stays well formed with the tag at its end, and the kernel's declaration of the tag reads the drive, the partition
  \<open>q\<close> and "no sub-partition" from it. The tags from before are untouched.
\<close>

theorem Multiboot_SaveBootDeviceInfo_roundtrip:
  assumes "mbi_wf m mbi ts" "lookup_tag MULTIBOOT_TAG_TYPE_BOOTDEV (mbi + 8) ts = None" "unat (term_addr m mbi) + 32 < 2 ^ 32"
    and "q < 4" "boot_partition ki = table + 16 * of_nat q" "load16 m (table + 64) = 0xAA55"
    and "\<And>j. q \<le> j \<Longrightarrow> j < 4 \<Longrightarrow> load16 m (table + 16 * of_nat j) \<noteq> 0xAA55"
  shows "\<exists>m'. Multiboot_SaveBootDeviceInfo mbi ki m = Some (True, m') \<and>
     mbi_wf m' mbi (ts @ [(MULTIBOOT_TAG_TYPE_BOOTDEV, of_nat (sizeof Kernel_Multiboot_Info_BootDevice))]) \<and>
     Multiboot_FindMBITagAddress m' mbi MULTIBOOT_TAG_TYPE_BOOTDEV = Some (term_addr m mbi) \<and>
     map (\<lambda>x. value_at m' (term_addr m mbi) Kernel_Multiboot_Info_BootDevice [x]) [''type'', ''size'', ''biosdev'', ''partition'', ''sub_partition'']
       = [Some 5, Some 24, Some (unat (boot_drive_ID ki)), Some q, Some 0xFFFFFFFF] \<and>
     same_between m m' (unat mbi + 8) (unat (term_addr m mbi))"
proof -
  let ?e = "term_addr m mbi" let ?c = "boot_device_tag ?e (boot_drive_ID ki) (of_nat q) m"
  define save where "save = (\<lambda>p. let part = find_partition m 5 (boot_partition ki)
       in if load16 m part \<noteq> 0xAA55 then Some (False, m)
          else Some (terminated mbi p True
            (store32 (store32 (store32 (set_tag_size p 24 (set_tag_type p MULTIBOOT_TAG_TYPE_BOOTDEV m)) (p + 8) (boot_drive_ID ki))
               (p + 12) (4 - (part - boot_partition ki) div 16)) (p + 16) 0xFFFFFFFF)))"
  have room: "unat ?e + 24 < 2 ^ 32" using assms(3) by simp
  note content = boot_device_tag_content [OF room, where m = m and drive = "boot_drive_ID ki" and part = "of_nat q"]
  have use: "save ?e = Some (terminated mbi ?e True ?c)"
    using partition_number [OF assms(4,6,7)] assms(5,6) by (simp add: save_def boot_device_tag_def)
  have e0: "?e \<noteq> MEMORY_NULL_PTR" using room by (auto simp: MEMORY_NULL_PTR_def)
  obtain m' where m': "new_tag mbi MULTIBOOT_TAG_TYPE_BOOTDEV m save = Some (True, m')"
      "mbi_wf m' mbi (ts @ [(MULTIBOOT_TAG_TYPE_BOOTDEV, 24)])" "Multiboot_FindMBITagAddress m' mbi MULTIBOOT_TAG_TYPE_BOOTDEV = Some ?e"
      "same_between ?c m' (unat mbi + 8) (unat ?e + unat (24 :: u32))" "same_between m m' (unat mbi + 8) (unat ?e)"
    by (rule saved_tag [where use = save and e = ?e, OF assms(1,2) refl e0 use content(1,2)]) (use assms(3) in \<open>simp_all add: MULTIBOOT_TAG_TYPE_BOOTDEV_def\<close>)
  have u: "unat mbi + 8 \<le> unat ?e" using unat_term_addr [OF assms(1)] assms(1) by (simp add: mbi_wf_def)
  have u2: "unat (?e + 8) = unat ?e + 8" "unat (?e + 12) = unat ?e + 12" "unat (?e + 16) = unat ?e + 16"
    using room unat_u32_plus [of ?e 8] unat_u32_plus [of ?e 12] unat_u32_plus [of ?e 16] by simp_all
  have "read_Info_Tag m' ?e = read_Info_Tag ?c ?e" by (rule read_tag_same [OF m'(4)]) (use u room in simp_all)
  moreover have "load32 m' (?e + x) = load32 ?c (?e + x)" if "x \<in> {8, 12, 16}" for x
    by (rule load32_same [OF m'(4)]) (use that u u2 room in auto)
  ultimately have "map (\<lambda>x. value_at m' ?e Kernel_Multiboot_Info_BootDevice [x]) [''type'', ''size'', ''biosdev'', ''partition'', ''sub_partition'']
      = [Some 5, Some 24, Some (unat (boot_drive_ID ki)), Some q, Some 0xFFFFFFFF]"
    using content assms(4) by (simp add: boot_device_layout MULTIBOOT_TAG_TYPE_BOOTDEV_def unat_u32_of_nat)
  moreover have "sizeof Kernel_Multiboot_Info_BootDevice = 24" using tag_sizes by simp
  moreover have "Multiboot_SaveBootDeviceInfo mbi ki m = Some (True, m')" using m'(1) by (simp add: Multiboot_SaveBootDeviceInfo_def save_def)
  ultimately show ?thesis using m'(2,3,5) by auto
qed

text \<open>A record at \<open>0x10000\<close> and a boot sector at \<open>0x7C00\<close> whose second partition is active.\<close>

definition boot_sector_record :: memory where
  "boot_sector_record = snd (Multiboot_CreateEmptyMBI 0x10000 (store16 (\<lambda>_. 0) 0x7DFE 0xAA55))"

lemma boot_sector_record_wf: "mbi_wf boot_sector_record 0x10000 []"
  unfolding boot_sector_record_def by (rule CreateEmptyMBI_wf(2)) simp_all

theorem Multiboot_SaveBootDeviceInfo_roundtrip_witness:
  "\<exists>m'. Multiboot_SaveBootDeviceInfo 0x10000 (sample_kernel_info\<lparr>boot_partition := 0x7DCE\<rparr>) boot_sector_record = Some (True, m') \<and>
     value_at m' 0x10008 Kernel_Multiboot_Info_BootDevice [''partition''] = Some 1"
proof -
  have at_end: "term_addr boot_sector_record 0x10000 = 0x10008" using boot_sector_record_wf by (simp add: mbi_wf_def)
  have "load16 boot_sector_record (0x7DBE + 64) = 0xAA55" by code_simp
  moreover have "load16 boot_sector_record (0x7DBE + 16 * of_nat j) \<noteq> 0xAA55" if "1 \<le> j" "j < 4" for j
  proof -
    have "j \<in> {1, 2, 3}" using that by auto
    moreover have "load16 boot_sector_record (0x7DBE + 16 * of_nat 1) \<noteq> 0xAA55" "load16 boot_sector_record (0x7DBE + 16 * of_nat 2) \<noteq> 0xAA55"
      "load16 boot_sector_record (0x7DBE + 16 * of_nat 3) \<noteq> 0xAA55" by code_simp+
    ultimately show ?thesis by auto
  qed
  ultimately have "\<exists>m'. Multiboot_SaveBootDeviceInfo 0x10000 (sample_kernel_info\<lparr>boot_partition := 0x7DCE\<rparr>) boot_sector_record = Some (True, m') \<and>
      mbi_wf m' 0x10000 ([] @ [(MULTIBOOT_TAG_TYPE_BOOTDEV, of_nat (sizeof Kernel_Multiboot_Info_BootDevice))]) \<and>
      Multiboot_FindMBITagAddress m' 0x10000 MULTIBOOT_TAG_TYPE_BOOTDEV = Some (term_addr boot_sector_record 0x10000) \<and>
      map (\<lambda>x. value_at m' (term_addr boot_sector_record 0x10000) Kernel_Multiboot_Info_BootDevice [x])
          [''type'', ''size'', ''biosdev'', ''partition'', ''sub_partition'']
        = [Some 5, Some 24, Some (unat (boot_drive_ID (sample_kernel_info\<lparr>boot_partition := 0x7DCE\<rparr>))), Some 1, Some 0xFFFFFFFF] \<and>
      same_between boot_sector_record m' (unat (0x10000 :: u32) + 8) (unat (term_addr boot_sector_record 0x10000))"
    by (intro Multiboot_SaveBootDeviceInfo_roundtrip [OF boot_sector_record_wf, where table = "0x7DBE" and q = 1]) (simp_all add: at_end)
  then show ?thesis by (auto simp: at_end)
qed

end
