(* ===== verification/Spec2Isabelle.thy ===== *)
theory Spec2Isabelle
  imports AVOS_Physmem_Correct AVOS_Paging_Correct AVOS_Clib AVOS_Timer AVOS_Synch AVOS_Descriptors
    AVOS_Process_Correct AVOS_PIC AVOS_Console_Correct AVOS_APIC_Correct AVOS_Keyboard AVOS_Initialize
    AVOS_Multiboot_Correct AVOS_Physmem_Init AVOS_Boot_Map AVOS_Handover AVOS_Process_Types AVOS_Boot_Device
begin

text \<open>
  A verification development for AVOS, a small multiprocessor kernel for the 32-bit x86 with its own Multiboot
  boot loader, both written in C with assembly stubs.

  \<^bold>\<open>The program.\<close> The boot loader (\<open>bootloader/multiboot\<close>) asks the BIOS for a memory map, reads the kernel file
  through block lists on disk, loads it as an ELF image or as its Multiboot header says, and leaves a record of tagged
  information in memory. The kernel (\<open>kernel\<close>) sets up its page directory, segment and interrupt tables and interrupt
  controllers (\<open>arch\<close>), builds the physical page allocator from that record and runs processes under a scheduler
  (\<open>core\<close>), with drivers for console, keyboard and interval timer (\<open>devices\<close>). Components meet in memory (the tables
  and lists are in it), in the per-processor state that the locks change, and in the interrupt dispatch.

  \<^bold>\<open>How it is modelled.\<close> Integers have the width of the source (\<open>u8\<close> to \<open>u64\<close> of \<open>AVOS_Prelude\<close>) and wrap around.
  Memory is a function from 32-bit addresses to bytes with little-endian accesses, and structures that the code reaches
  through pointers are read from it and written to it at their offsets. Structures that the code keeps in variables of its
  own are records. A function that can fail to return has a result of type \<open>fault + 'a\<close> (spinning on a lock, a loop without
  end, an access outside an array, a call through a null pointer), or an option in the boot loader, where \<open>None\<close> is a
  call that does not return. Port instructions, memory-mapped device registers and BIOS interrupts are arguments of
  the functions that use them. What other processors do while a process is switched away, or in the windows in
  which a loop holds no lock, is an argument of \<open>Schedule\<close>, \<open>SleepLock_Acquire\<close> and the functions that switch context.

  \<^bold>\<open>Theories.\<close>
  \<^item> \<open>AVOS_Prelude\<close>: types, results, memory, ports and the lemmas shared by all; \<open>AVOS_Setup\<close>: the layout constants of
    \<open>core/setup\<close>.
  \<^item> \<open>AVOS_Synch\<close>: spin locks and interrupt locks (\<open>core/synch\<close>) with the preemption count and interrupt flag; mutual
    exclusion over all interleavings of processors, as an invariant of a step relation, and nesting.
  \<^item> \<open>AVOS_Physmem\<close>: the page allocator (\<open>core/memory\<close>), its bitmaps, linked lists in free pages, and initialisation from
    the memory map. \<open>AVOS_Buddy\<close> is the abstract buddy system, \<open>AVOS_Page_Lists\<close>, \<open>AVOS_Page_Bitmaps\<close>, \<open>AVOS_Page_Refine\<close>
    and \<open>AVOS_Page_Merge\<close> relate the two, and \<open>AVOS_Physmem_Correct\<close> has the refinement, the round trip and the locale
    \<open>page_allocator\<close>, the contract the clients of the allocator rely on, interpreted on the code's functions.
    \<open>AVOS_Physmem_Init\<close> shows that initialisation establishes the representation invariant, and what an unclipped chunk does.
  \<^item> \<open>AVOS_Clib\<close>: the byte functions of \<open>clib/src/string.c\<close>, which the boot loader's \<open>string.c\<close> repeats.
  \<^item> \<open>AVOS_Timer\<close>: the tick count under its sequence counter, sequentially and as a step relation with concurrent readers.
  \<^item> \<open>AVOS_Paging\<close>, \<open>AVOS_Paging_Correct\<close>: page tables (\<open>arch/paging\<close>); mapping changes one page of the hardware's walk,
    proved in the locale \<open>page_memory\<close>, which extends \<open>page_allocator\<close>. \<open>AVOS_Paging_Frame\<close>: allocator and paging change
    nothing of the kernel's state but memory, lists, bitmaps, lock and processor words.
  \<^item> \<open>AVOS_Descriptors\<close>: segment and interrupt descriptors (\<open>arch/processor\<close>) and the page directory of the kernel.
  \<^item> \<open>AVOS_Process\<close>, \<open>AVOS_Process_Correct\<close>: processes, scheduler and sleep locks (\<open>core/taskmaster\<close>, \<open>sleeplock.c\<close>).
    \<open>AVOS_Process_Types\<close>: runs of their operations as an inductive relation, and the typing of the process table they keep.
  \<^item> \<open>AVOS_Interrupt\<close>, \<open>AVOS_PIC\<close>, \<open>AVOS_APIC\<close>, \<open>AVOS_APIC_Correct\<close>: dispatch of interrupts and system calls, the legacy
    controller and interval timer over their ports (locale \<open>pic_ports\<close>), local and I/O controllers and the ACPI tables.
  \<^item> \<open>AVOS_Console\<close>, \<open>AVOS_Console_Correct\<close>, \<open>AVOS_Keyboard\<close>: the drivers; printing refines an abstract terminal, and the
    modifier word of the keyboard has an invariant over all sequences of scan codes.
  \<^item> \<open>AVOS_Initialize\<close>: start-up of a processor and of the system (\<open>arch/initialize\<close>).
  \<^item> \<open>AVOS_Boot_BIOS\<close>, \<open>AVOS_Boot_Console\<close>, \<open>AVOS_Boot_Memory\<close>, \<open>AVOS_Boot_ELF\<close>: the boot loader's \<open>diskio.c\<close>, \<open>system.c\<close>,
    \<open>video.c\<close>, \<open>console.c\<close>, \<open>memory.c\<close> and \<open>elf.c\<close>; a block that is found is usable, and loading writes the segments.
    \<open>AVOS_Boot_Map\<close>: the table that \<open>Memory_StoreInfo\<close> makes from the BIOS map, as blocks and as a set of bytes.
  \<^item> \<open>AVOS_Multiboot\<close>, \<open>AVOS_Multiboot_Load\<close>, \<open>AVOS_Multiboot_Correct\<close>: \<open>multiboot.c\<close>; well-formed information records, finding and
    adding tags, and a loop that does not end.
  \<^item> \<open>AVOS_Layout\<close>: the structures of the headers \<open>multiboot.h\<close>, \<open>elf.h\<close>, \<open>gdt.h\<close>, \<open>idt.h\<close> and \<open>cpu.h\<close> member by member; the headers
    of the two programs agree, and the offsets used in the other theories are the declared ones. \<open>AVOS_Boot_Device\<close>: the boot
    device that the loader saves, read as the kernel declares it.
  \<^item> \<open>AVOS_Handover\<close>: from the BIOS map through the loader's record to the free lists of the kernel, which spans both programs.
  \<^item> This theory: what the interrupt dispatch does after start-up, which spans all of the kernel.

  \<^bold>\<open>Errors of the code.\<close> Where the code does not do what it means to, the model does what the code does and the property says so:
  running out of pages, merging through two orders and chunks past the managed range in the allocator, \<open>memchr\<close> on bytes above 127, \<open>Paging_Copy\<close> across
  pages, \<open>Process_Wait\<close> and sleep locks, the registers of the second interrupt controller, octal and most negative numbers,
  system calls, and modules. Elsewhere the hypotheses of a property exclude what goes wrong.

  \<^bold>\<open>Bounds and fuel.\<close> \<open>PAGE_MAP_FUEL\<close> is 12: each level of the recursion of \<open>Page_MapMemoryChunk\<close> works with a smaller order
  of at most \<open>PAGE_MAX_ORDER\<close>, and \<open>AVOS_Physmem_Init\<close> proves it enough for page-aligned chunks. \<open>PAGING_FUEL\<close> is \<open>2 ^ 20\<close>, the number of pages of the address space, which
  a loop over pages cannot exceed without repeating an address. The loops that wait for other processors (\<open>Schedule\<close>,
  \<open>Process_Wait\<close>, \<open>SleepLock_Acquire\<close>) run for a number of turns that is an argument, and the
  properties hold for every number; the walk along siblings may take \<open>KERNEL_MAX_PROCS + 1\<close> steps, more than a list without
  a cycle has. All other loops are total by a
  measure or \<open>partial_function (option)\<close>, so that a loop without end is a value and not a gap.

  \<^bold>\<open>Not modelled.\<close> The assembly files (boot sectors, interrupt stubs, context switch, port and control register instructions, BIOS
  calls): they are arguments or steps of the model. Caching, the translation buffer and memory ordering beyond
  interleaving. Constants that no function uses, among them most of \<open>elf.h\<close> and \<open>lapic.h\<close>.
  The boot loader's variable \<open>kernel_info\<close> is taken to be apart from the memory its functions write.
\<close>

section \<open>Interrupts after start-up\<close>

lemma Initialize_CPU_handlers:
  "Initialize_CPU env i b s = Inr (r, s') \<Longrightarrow> sys_handlers s' = sys_handlers s"
  by (auto simp: Initialize_CPU_def Let_def split: if_splits)

lemma start_processors_handlers:
  "start_processors env ps s = Inr s' \<Longrightarrow> sys_handlers s' = sys_handlers s"
proof (induction ps arbitrary: s)
  case (Cons p ps)
  then show ?case
    by (auto simp: res_bind_eq_Inr Let_def split: if_splits prod.splits dest!: Initialize_CPU_handlers)
qed simp

lemma attach_line_handlers:
  "attach_line mm m a h irq v dt = Inr (d, tab) \<Longrightarrow> tab = Interrupt_AddHandler v h (snd dt)"
  by (auto simp: attach_line_def Let_def res_bind_eq_Inr split: prod.splits)

lemma PIT_Initialize_handlers:
  "PIT_Initialize io mm m a h irq v st = Inr (tm, d, tab) \<Longrightarrow> tab = Interrupt_AddHandler v h (snd (snd st))"
  unfolding PIT_Initialize_def Let_def by (erule res_bindE) (auto simp: case_prod_unfold dest: attach_line_handlers)

lemma Initialize_System_handlers:
  assumes "Initialize_System env s = Inr s'"
  shows "sys_handlers s' =
    Interrupt_AddHandler 0x21 (env_Keyboard_handler env) (Interrupt_AddHandler 0x20 (env_PIT_handler env) (sys_handlers s))"
  using assms unfolding Initialize_System_def Let_def Keyboard_Initialize_def
  by (elim res_bindE) (clarsimp simp: with_console_def elim!: res_bindE
      dest!: start_processors_handlers attach_line_handlers PIT_Initialize_handlers)

text \<open>
  C33: After start-up the vectors \<open>0x20\<close> and \<open>0x21\<close> are dispatched to the handlers of the interval
  timer and the keyboard. Nothing installs a handler for the vector \<open>0x80\<close> of system calls, and
  dispatch calls the table entry after the system call, too: from the zero-initialised table every
  system call that completes ends in a call through a null pointer.
\<close>

theorem startup_dispatch:
  assumes "Initialize_System env s = Inr s'" and "Interrupt_Handlers (sys_handlers s) = (\<lambda>_. None)"
  shows "(ic_vector frame = 0x20 \<longrightarrow> Interrupt_Handle (sys_handlers s') frame t = env_PIT_handler env frame t)
    \<and> (ic_vector frame = 0x21 \<longrightarrow> Interrupt_Handle (sys_handlers s') frame t = env_Keyboard_handler env frame t)
    \<and> (ic_vector frame = 0x80 \<and> SysCall (sys_handlers s') (ic_eax frame) frame t = Inr (frame', t') \<and> ic_vector frame' = 0x80
        \<longrightarrow> Interrupt_Handle (sys_handlers s') frame t = Inl Null_Call)"
  using assms(2) unfolding Initialize_System_handlers [OF assms(1)]
  by (auto simp: Interrupt_Handle_def Interrupt_AddHandler_def call_handler_def IDT_NENTRIES_def)

definition quiet_mmio :: "unit mmio" where
  "quiet_mmio = \<lparr>Read32 = \<lambda>a d. (0, d), Write32 = \<lambda>a v d. d\<rparr>"

definition quiet_env :: "(unit, nat) env" where
  "quiet_env = \<lparr>env_io = quiet_ports, env_mm = quiet_mmio, env_BootInfo = 0x1000, env_delay = \<lambda>n d. d,
     env_PIT_handler = \<lambda>f n. Inr (f, n + 1), env_Keyboard_handler = \<lambda>f n. Inr (f, n + 2), env_Timer_handler = \<lambda>f n. Inr (f, n + 4),
     env_state = 0x80200000, env_pagedirectory = 0x80300000, env_entry_points = (1, 2, 3, 4), env_StartAP = 0x80400000,
     env_EndAP = 0x80400000, env_answers = \<lambda>_. True\<rparr>"

definition zero_descriptor :: Descriptor where
  "zero_descriptor = \<lparr>desc_limit = 0, desc_base = 0\<rparr>"

definition boot_system :: "(unit, nat) system" where
  "boot_system = \<lparr>sys_kernel = boot_kernel, sys_apic = empty_apic\<lparr>APIC_InfoSaved := True\<rparr>, sys_dev = (),
     sys_pit = \<lparr>seq_counter = 0, ticks = 0\<rparr>,
     sys_handlers = \<lparr>Interrupt_Handlers = \<lambda>_. None, SysCall_vector = \<lambda>_. \<lparr>sc_id = 0, sc_flags = 0, sc_handler = None\<rparr>\<rparr>,
     sys_pos = CONSOLE_POS_START, sys_inpanic = False, sys_console_lock = \<lparr>flag = False\<rparr>, Kernel_numcpus_online = 0,
     sys_cpus = \<lambda>_. load_tables quiet_env 0 0,
     sys_registers = \<lparr>r_cr0 = 0, r_cr3 = 0, r_cr4 = 0, r_gdtr = zero_descriptor, r_idtr = zero_descriptor, r_tr = 0\<rparr>\<rparr>"

lemma no_override:
  "load32 m 4 = 0 \<Longrightarrow> find_override m (madt_end m 0) irq (madt_first 0) gf = Some gf"
  by (subst find_override.simps) (simp add: madt_end_def madt_first_def read_MADT_def read_SDTHeader_def)

lemma boot_system_starts: "\<exists>s'. Initialize_System quiet_env boot_system = Inr s'"
proof -
  have z: "load32 (con_mem (Console_Initialize io con)) 4 = 0" if "con_mem con = mem boot_kernel" for io :: "unit ports" and con
    using that by (simp add: load32_def Initialize_frame screen_offset_def Console_screen_def CONSOLE_VGA_TEXT_BUFFER_def
        KERNEL_HIGHER_HALF_OFFSET_def boot_kernel_def no_pages_def physmem.defs)
  show ?thesis
    by (simp add: Initialize_System_def boot_system_def quiet_env_def IOAPIC_Initialize_def APIC_SaveInfo_def empty_apic_def
        PIT_Initialize_def Keyboard_Initialize_def attach_line_def IOAPIC_EnableInterrupt_def no_override z with_console_def
        console_of_def LocalAPIC_ID_def LocalAPIC_ReadFrom_def quiet_mmio_def Let_def split: prod.splits)
qed

theorem startup_dispatch_witness:
  "\<exists>s'. Initialize_System quiet_env boot_system = Inr s'
     \<and> Interrupt_Handle (sys_handlers s') ((intr_contexts boot_kernel 0)\<lparr>ic_vector := 0x21\<rparr>) 5
       = Inr ((intr_contexts boot_kernel 0)\<lparr>ic_vector := 0x21\<rparr>, 7)"
proof -
  obtain s' where s': "Initialize_System quiet_env boot_system = Inr s'" using boot_system_starts by blast
  have "Interrupt_Handlers (sys_handlers boot_system) = (\<lambda>_. None)" by (simp add: boot_system_def)
  from startup_dispatch [OF s' this, of "(intr_contexts boot_kernel 0)\<lparr>ic_vector := 0x21\<rparr>" 5] s' show ?thesis
    by (auto simp: quiet_env_def)
qed

end
